theory Spec2Isabelle
  imports Complex_Main "HOL-Library.AList" "HOL-Library.Log_Nat"
begin

section \<open>JavaScript numbers\<close>

text \<open>
  Every numeric field of the program is a JavaScript \<open>number\<close>. The model keeps the
  special values the code tests for (\<open>Infinity\<close>, \<open>-Infinity\<close>, \<open>NaN\<close>) and takes
  the finite values as reals. The operations \<open>jadd\<close>, \<open>jsub\<close> and \<open>jdiv\<close> give the exact
  result on finite values; \<open>dadd\<close>, \<open>dsub\<close> and \<open>ddiv\<close> round it to a double, and are the
  operations of the measurement module, which adds up and averages durations. The sign of
  zero is outside the model.
\<close>

datatype jsnum = Fin real | PInf | NInf | NaN

text \<open>The relational operators \<open><\<close>, \<open>>\<close>, \<open><=\<close>, \<open>>=\<close>: false as soon as an operand is \<open>NaN\<close>.\<close>

fun jlt :: "jsnum \<Rightarrow> jsnum \<Rightarrow> bool" where
  "jlt NaN _ = False"
| "jlt _ NaN = False"
| "jlt (Fin a) (Fin b) = (a < b)"
| "jlt (Fin _) PInf = True"
| "jlt (Fin _) NInf = False"
| "jlt PInf _ = False"
| "jlt NInf NInf = False"
| "jlt NInf _ = True"

definition jgt :: "jsnum \<Rightarrow> jsnum \<Rightarrow> bool" where
  "jgt x y = jlt y x"

fun jle :: "jsnum \<Rightarrow> jsnum \<Rightarrow> bool" where
  "jle NaN _ = False"
| "jle _ NaN = False"
| "jle x y = (x = y \<or> jlt x y)"

definition jge :: "jsnum \<Rightarrow> jsnum \<Rightarrow> bool" where
  "jge x y = jle y x"

text \<open>Addition, subtraction and division, with the IEEE results on the special values.\<close>

fun jadd :: "jsnum \<Rightarrow> jsnum \<Rightarrow> jsnum" where
  "jadd NaN _ = NaN"
| "jadd _ NaN = NaN"
| "jadd (Fin a) (Fin b) = Fin (a + b)"
| "jadd PInf NInf = NaN"
| "jadd NInf PInf = NaN"
| "jadd PInf _ = PInf"
| "jadd _ PInf = PInf"
| "jadd NInf _ = NInf"
| "jadd _ NInf = NInf"

fun jneg :: "jsnum \<Rightarrow> jsnum" where
  "jneg (Fin a) = Fin (- a)"
| "jneg PInf = NInf"
| "jneg NInf = PInf"
| "jneg NaN = NaN"

definition jsub :: "jsnum \<Rightarrow> jsnum \<Rightarrow> jsnum" where
  "jsub x y = jadd x (jneg y)"

fun jdiv :: "jsnum \<Rightarrow> jsnum \<Rightarrow> jsnum" where
  "jdiv NaN _ = NaN"
| "jdiv _ NaN = NaN"
| "jdiv (Fin a) (Fin b) =
     (if b = 0 then (if a = 0 then NaN else if 0 < a then PInf else NInf)
      else Fin (a / b))"
| "jdiv (Fin _) PInf = Fin 0"
| "jdiv (Fin _) NInf = Fin 0"
| "jdiv PInf (Fin b) = (if 0 \<le> b then PInf else NInf)"
| "jdiv NInf (Fin b) = (if 0 \<le> b then NInf else PInf)"
| "jdiv PInf _ = NaN"
| "jdiv NInf _ = NaN"

text \<open>\<open>Math.round\<close> (halves go up), \<open>Number.isInteger\<close> and truthiness (for \<open>||\<close>).\<close>

fun js_round :: "jsnum \<Rightarrow> jsnum" where
  "js_round (Fin a) = Fin (of_int \<lfloor>a + 1 / 2\<rfloor>)"
| "js_round x = x"

fun isInteger :: "jsnum \<Rightarrow> bool" where
  "isInteger (Fin a) = (of_int \<lfloor>a\<rfloor> = a)"
| "isInteger _ = False"

fun truthy :: "jsnum \<Rightarrow> bool" where
  "truthy (Fin a) = (a \<noteq> 0)"
| "truthy NaN = False"
| "truthy _ = True"

definition js_or :: "jsnum option \<Rightarrow> jsnum \<Rightarrow> jsnum" where
  "js_or v d = (case v of None \<Rightarrow> d | Some x \<Rightarrow> if truthy x then x else d)"

subsection \<open>Doubles\<close>

text \<open>
  A JavaScript number is an IEEE 754 double: a multiple \<open>k * 2 ^ q\<close> of a power of two with
  \<open>\<bar>k\<bar> < 2 ^ 53\<close> and \<open>q \<ge> - 1074\<close>, below \<open>2 ^ 1024\<close> in absolute value. An arithmetic
  operation gives the exact result rounded to the nearest double, a tie going to the even
  multiple, and an infinity when the rounded value reaches \<open>2 ^ 1024\<close>. \<open>quantum x\<close> is the
  exponent \<open>q\<close> of the doubles next to \<open>x\<close>: 52 below the exponent of \<open>x\<close>, and \<open>- 1074\<close> for
  the subnormal numbers. The sign of a zero is not modelled.
\<close>

definition roundHalfEven :: "real \<Rightarrow> int" where
  "roundHalfEven y =
     (let f = \<lfloor>y\<rfloor>; d = y - of_int f
      in if d < 1 / 2 then f else if 1 / 2 < d then f + 1 else if even f then f else f + 1)"

definition quantum :: "real \<Rightarrow> int" where
  "quantum x = max (bitlen \<lfloor>\<bar>x\<bar> * 2 ^ 1074\<rfloor> - 1127) (- 1074)"

definition roundDouble :: "real \<Rightarrow> jsnum" where
  "roundDouble x =
     (let q = quantum x; y = of_int (roundHalfEven (x / 2 powi q)) * 2 powi q
      in if 2 ^ 1024 \<le> \<bar>y\<bar> then (if 0 < x then PInf else NInf) else Fin y)"

definition dround :: "jsnum \<Rightarrow> jsnum" where
  "dround x = (case x of Fin a \<Rightarrow> roundDouble a | _ \<Rightarrow> x)"

text \<open>The operators \<open>+\<close>, \<open>-\<close> and \<open>/\<close> on doubles: the exact result, rounded.\<close>

definition dadd :: "jsnum \<Rightarrow> jsnum \<Rightarrow> jsnum" where
  "dadd x y = dround (jadd x y)"

definition dsub :: "jsnum \<Rightarrow> jsnum \<Rightarrow> jsnum" where
  "dsub x y = dround (jsub x y)"

definition ddiv :: "jsnum \<Rightarrow> jsnum \<Rightarrow> jsnum" where
  "ddiv x y = dround (jdiv x y)"

section \<open>Contract and validation types (contracts/types.ts)\<close>

datatype InteractionType = Click | Type | Scroll | Hover | Focus | Blur

fun interactionTypeName :: "InteractionType \<Rightarrow> string" where
  "interactionTypeName Click = ''click''"
| "interactionTypeName Type = ''type''"
| "interactionTypeName Scroll = ''scroll''"
| "interactionTypeName Hover = ''hover''"
| "interactionTypeName Focus = ''focus''"
| "interactionTypeName Blur = ''blur''"

datatype ValidationStatus = Pass | Warn | Fail

datatype Severity = Minor | Moderate | Severe

record MetricValidation =
  mv_actual :: jsnum
  mv_budget :: jsnum
  mv_utilization :: jsnum
  mv_status :: ValidationStatus
  mv_exceededBy :: "jsnum option"

record Violation =
  v_metric :: string
  v_budget :: jsnum
  v_actual :: jsnum
  v_exceededByPercent :: jsnum
  v_severity :: Severity

text \<open>The \<open>metrics\<close> object of a validation result; an absent entry is \<open>None\<close>.\<close>

record ResultMetrics =
  m_renderTime :: "MetricValidation option"
  m_renderCount :: "MetricValidation option"
  m_memoryDelta :: "MetricValidation option"
  m_rendersPerInteraction :: "(InteractionType \<times> MetricValidation) list option"

text \<open>\<open>FixSuggestion\<close>: produced by the diagnostics module, never inspected here.\<close>

record FixSuggestion =
  fs_line :: nat
  fs_pattern :: string
  fs_description :: string
  fs_fix :: string

record ValidationResult =
  vr_status :: ValidationStatus
  vr_componentName :: string
  vr_metrics :: ResultMetrics
  vr_violations :: "Violation list"
  vr_suggestions :: "FixSuggestion list"

record InteractionBudget =
  ib_maxRenders :: "jsnum option"
  ib_maxRenderTime :: "jsnum option"

text \<open>
  \<open>Required<ComponentContract>\<close>: the resolved contract. Objects such as
  \<open>interactions\<close> are association lists in insertion order, the order of
  \<open>Object.entries\<close>.
\<close>

record ResolvedContract =
  maxRenderTime :: jsnum
  maxRenderCount :: jsnum
  maxMemoryDelta :: jsnum
  warningThreshold :: jsnum
  interactions :: "(InteractionType \<times> InteractionBudget) list"
  meta :: "(string \<times> string) list"

datatype Phase = Mount | Update | NestedUpdate

record RenderEvent =
  phase :: Phase
  actualDuration :: jsnum
  baseDuration :: jsnum
  startTime :: jsnum
  commitTime :: jsnum

record RenderMetrics =
  rm_componentName :: string
  rm_renderCount :: jsnum
  rm_totalActualDuration :: jsnum
  rm_totalBaseDuration :: jsnum
  rm_averageRenderTime :: jsnum
  rm_renders :: "RenderEvent list"

record InteractionSpec =
  is_type :: InteractionType
  is_target :: string
  is_text :: "string option"

record InteractionResult =
  ir_interaction :: InteractionSpec
  ir_rendersTriggered :: jsnum
  ir_totalRenderTime :: jsnum
  ir_averageRenderTime :: jsnum

record ContractValidation =
  cv_passed :: bool
  cv_contract :: string

record MeasureInteractionResult =
  mi_componentName :: string
  mi_metrics :: RenderMetrics
  mi_interactionResults :: "InteractionResult list"
  mi_totalRenders :: jsnum
  mi_rendersPerInteraction :: jsnum
  mi_rendersByType :: "(InteractionType \<times> jsnum) list"
  mi_timestamp :: jsnum
  mi_contractValidation :: "ContractValidation option"

text \<open>
  The argument \<open>measurements: RenderMetrics | MeasureInteractionResult\<close>; the code
  tells the two apart by the presence of the fields \<open>metrics\<close> and
  \<open>interactionResults\<close>.
\<close>

datatype Measurements = PlainMetrics RenderMetrics | InteractionMeasurement MeasureInteractionResult

section \<open>The contract validator (contracts/validator.ts)\<close>

definition getStatusFromUtilization :: "jsnum \<Rightarrow> jsnum \<Rightarrow> ValidationStatus" where
  "getStatusFromUtilization utilization wt =
     (if jgt utilization (Fin 1) then Fail
      else if jgt utilization wt then Warn
      else Pass)"

definition validateMetric :: "jsnum \<Rightarrow> jsnum \<Rightarrow> jsnum \<Rightarrow> MetricValidation" where
  "validateMetric actual budget wt =
     (let utilization = jdiv actual budget;
          status = getStatusFromUtilization utilization wt;
          exceededBy = (if jgt utilization (Fin 1)
                        then Some (jdiv (jsub actual budget) budget) else None)
      in \<lparr>mv_actual = actual, mv_budget = budget, mv_utilization = utilization,
          mv_status = status, mv_exceededBy = exceededBy\<rparr>)"

definition getViolationSeverity :: "jsnum \<Rightarrow> Severity" where
  "getViolationSeverity exceededByPercent =
     (if jlt exceededByPercent (Fin 0.25) then Minor
      else if jlt exceededByPercent (Fin 0.5) then Moderate
      else Severe)"

definition createViolation :: "string \<Rightarrow> jsnum \<Rightarrow> jsnum \<Rightarrow> Violation" where
  "createViolation metric budget actual =
     (let exceededByPercent = jdiv (jsub actual budget) budget
      in \<lparr>v_metric = metric, v_budget = budget, v_actual = actual,
          v_exceededByPercent = exceededByPercent,
          v_severity = getViolationSeverity exceededByPercent\<rparr>)"

definition combineStatuses :: "ValidationStatus list \<Rightarrow> ValidationStatus" where
  "combineStatuses statuses =
     (if Fail \<in> set statuses then Fail
      else if Warn \<in> set statuses then Warn
      else Pass)"

text \<open>
  The three accumulators of \<open>validateAgainstContract\<close> (\<open>statuses\<close>, \<open>violations\<close>,
  \<open>metrics\<close>) and, inside the interaction block, \<open>interactionValidations\<close>.
\<close>

record ValidationState =
  statuses :: "ValidationStatus list"
  violations :: "Violation list"
  metrics :: ResultMetrics

definition emptyMetrics :: ResultMetrics where
  "emptyMetrics = \<lparr>m_renderTime = None, m_renderCount = None, m_memoryDelta = None,
                    m_rendersPerInteraction = None\<rparr>"

text \<open>
  One metric check, as each of the three blocks does it: \<open>statuses.push(validation.status)\<close>,
  then \<open>violations.push(createViolation(name, budget, actual))\<close> when the status is \<open>fail\<close>.
\<close>

definition pushCheck ::
  "string \<Rightarrow> jsnum \<Rightarrow> jsnum \<Rightarrow> MetricValidation \<Rightarrow> ValidationState \<Rightarrow> ValidationState" where
  "pushCheck name budget actual validation st =
     (let st1 = st\<lparr>statuses := statuses st @ [mv_status validation]\<rparr>
      in if mv_status validation = Fail
         then st1\<lparr>violations := violations st1 @ [createViolation name budget actual]\<rparr>
         else st1)"

text \<open>The body of the loop over \<open>Object.entries(contract.interactions)\<close>.\<close>

definition interactionStep ::
  "(InteractionType \<times> jsnum) list \<Rightarrow> jsnum \<Rightarrow> InteractionType \<times> InteractionBudget \<Rightarrow>
   ValidationState \<times> (InteractionType \<times> MetricValidation) list \<Rightarrow>
   ValidationState \<times> (InteractionType \<times> MetricValidation) list" where
  "interactionStep rendersByType wt entry acc =
     (let type = fst entry; budget = snd entry;
          actualRenders = js_or (map_of rendersByType type) (Fin 0)
      in case ib_maxRenders budget of
           None \<Rightarrow> acc
         | Some maxRenders \<Rightarrow>
             (let validation = validateMetric actualRenders maxRenders wt
              in (pushCheck (''rendersPerInteraction.'' @ interactionTypeName type)
                    maxRenders actualRenders validation (fst acc),
                  AList.update type validation (snd acc))))"

text \<open>\<open>'metrics' in measurements ? measurements.metrics : measurements\<close>\<close>

definition renderMetricsOf :: "Measurements \<Rightarrow> RenderMetrics" where
  "renderMetricsOf measurements =
     (case measurements of
        InteractionMeasurement r \<Rightarrow> mi_metrics r
      | PlainMetrics m \<Rightarrow> m)"

text \<open>The block \<open>// Validate render time\<close>.\<close>

definition validateRenderTime ::
  "RenderMetrics \<Rightarrow> ResolvedContract \<Rightarrow> ValidationState \<Rightarrow> ValidationState" where
  "validateRenderTime renderMetrics contract st =
     (if maxRenderTime contract \<noteq> PInf
      then (let avgRenderTime = rm_averageRenderTime renderMetrics;
                validation = validateMetric avgRenderTime (maxRenderTime contract)
                               (warningThreshold contract)
            in pushCheck ''renderTime'' (maxRenderTime contract) avgRenderTime validation
                 (st\<lparr>metrics := (metrics st)\<lparr>m_renderTime := Some validation\<rparr>\<rparr>))
      else st)"

text \<open>The block \<open>// Validate render count\<close>.\<close>

definition validateRenderCount ::
  "RenderMetrics \<Rightarrow> ResolvedContract \<Rightarrow> ValidationState \<Rightarrow> ValidationState" where
  "validateRenderCount renderMetrics contract st =
     (if maxRenderCount contract \<noteq> PInf
      then (let renderCount = rm_renderCount renderMetrics;
                validation = validateMetric renderCount (maxRenderCount contract)
                               (warningThreshold contract)
            in pushCheck ''renderCount'' (maxRenderCount contract) renderCount validation
                 (st\<lparr>metrics := (metrics st)\<lparr>m_renderCount := Some validation\<rparr>\<rparr>))
      else st)"

text \<open>
  The block \<open>// Validate per-interaction budgets (if interaction result)\<close>, entered when
  \<open>'interactionResults' in measurements && contract.interactions\<close>; the second operand
  is an object in a resolved contract, hence true.
\<close>

definition validateInteractions ::
  "Measurements \<Rightarrow> ResolvedContract \<Rightarrow> ValidationState \<Rightarrow> ValidationState" where
  "validateInteractions measurements contract st =
     (case measurements of
        InteractionMeasurement r \<Rightarrow>
          (let (st', interactionValidations) =
                 fold (interactionStep (mi_rendersByType r) (warningThreshold contract))
                   (interactions contract) (st, [])
           in if length interactionValidations > 0
              then st'\<lparr>metrics := (metrics st')\<lparr>m_rendersPerInteraction :=
                                      Some interactionValidations\<rparr>\<rparr>
              else st')
      | PlainMetrics m \<Rightarrow> st)"

definition validateAgainstContract ::
  "string \<Rightarrow> Measurements \<Rightarrow> ResolvedContract \<Rightarrow> ValidationResult" where
  "validateAgainstContract componentName measurements contract =
     (let renderMetrics = renderMetricsOf measurements;
          st0 = \<lparr>statuses = [], violations = [], metrics = emptyMetrics\<rparr>;
          st1 = validateRenderTime renderMetrics contract st0;
          st2 = validateRenderCount renderMetrics contract st1;
          st3 = validateInteractions measurements contract st2;
          status = (if length (statuses st3) > 0 then combineStatuses (statuses st3) else Pass)
      in \<lparr>vr_status = status, vr_componentName = componentName, vr_metrics = metrics st3,
          vr_violations = violations st3, vr_suggestions = []\<rparr>)"

definition passesContract :: "string \<Rightarrow> Measurements \<Rightarrow> ResolvedContract \<Rightarrow> bool" where
  "passesContract componentName measurements contract =
     (vr_status (validateAgainstContract componentName measurements contract) \<noteq> Fail)"

definition isWithinBudget :: "jsnum \<Rightarrow> jsnum \<Rightarrow> bool" where
  "isWithinBudget actual budget = jle actual budget"

definition getBudgetUtilization :: "jsnum \<Rightarrow> jsnum \<Rightarrow> jsnum" where
  "getBudgetUtilization actual budget =
     (if jgt budget (Fin 0) then jdiv actual budget else Fin 0)"

definition getOverallStatus :: "ValidationResult list \<Rightarrow> ValidationStatus" where
  "getOverallStatus results = combineStatuses (map vr_status results)"

record StatusCounts =
  sc_pass :: nat
  sc_warn :: nat
  sc_fail :: nat

definition countByStatus :: "ValidationResult list \<Rightarrow> StatusCounts" where
  "countByStatus results =
     \<lparr>sc_pass = length (filter (\<lambda>r. vr_status r = Pass) results),
      sc_warn = length (filter (\<lambda>r. vr_status r = Warn) results),
      sc_fail = length (filter (\<lambda>r. vr_status r = Fail) results)\<rparr>"

section \<open>The contract resolver (contracts/loader.ts)\<close>

text \<open>The sparse, user-declared configuration: an omitted field is \<open>None\<close>.\<close>

record ComponentContract =
  cc_maxRenderTime :: "jsnum option"
  cc_maxRenderCount :: "jsnum option"
  cc_maxMemoryDelta :: "jsnum option"
  cc_warningThreshold :: "jsnum option"
  cc_interactions :: "(InteractionType \<times> InteractionBudget) list option"
  cc_meta :: "(string \<times> string) list option"

record AggregateContract =
  ac_components :: "string list option"
  ac_maxTotalRenderTime :: "jsnum option"
  ac_maxTotalRenderCount :: "jsnum option"

record BundleStats =
  bs_enabled :: bool
  bs_statsFile :: "string option"

record Diagnostics =
  dg_enabled :: bool
  dg_suggestFixes :: "bool option"
  dg_sourceDir :: "string option"

record GlobalConfig =
  gc_runs :: "jsnum option"
  gc_warmupRuns :: "jsnum option"
  gc_historyWindow :: "jsnum option"
  gc_regressionThreshold :: "jsnum option"
  gc_outputDir :: "string option"
  gc_artifactName :: "string option"
  gc_bundleStats :: "BundleStats option"
  gc_diagnostics :: "Diagnostics option"

record ContractConfig =
  cfg_global :: "GlobalConfig option"
  cfg_components :: "(string \<times> ComponentContract) list option"
  cfg_aggregates :: "(string \<times> AggregateContract) list option"

text \<open>\<open>Required<GlobalConfig>\<close>; the nested objects keep their own optional fields.\<close>

record ResolvedGlobalConfig =
  rg_runs :: jsnum
  rg_warmupRuns :: jsnum
  rg_historyWindow :: jsnum
  rg_regressionThreshold :: jsnum
  rg_outputDir :: string
  rg_artifactName :: string
  rg_bundleStats :: BundleStats
  rg_diagnostics :: Diagnostics

text \<open>\<open>ResolvedConfig\<close>; a \<open>Map\<close> is an association list in insertion order.\<close>

record ResolvedConfig =
  rc_global :: ResolvedGlobalConfig
  rc_components :: "(string \<times> ResolvedContract) list"
  rc_aggregates :: "(string \<times> AggregateContract) list"

definition DEFAULT_GLOBAL_CONFIG :: ResolvedGlobalConfig where
  "DEFAULT_GLOBAL_CONFIG =
     \<lparr>rg_runs = Fin 10, rg_warmupRuns = Fin 1, rg_historyWindow = Fin 20,
      rg_regressionThreshold = Fin 0.15, rg_outputDir = ''.perf-contracts'',
      rg_artifactName = ''perf-results'',
      rg_bundleStats = \<lparr>bs_enabled = False, bs_statsFile = None\<rparr>,
      rg_diagnostics = \<lparr>dg_enabled = True, dg_suggestFixes = Some True,
                     dg_sourceDir = Some ''src''\<rparr>\<rparr>"

text \<open>\<open>DEFAULT_COMPONENT_CONTRACT\<close> has the one field \<open>warningThreshold\<close>.\<close>

definition DEFAULT_COMPONENT_CONTRACT_warningThreshold :: jsnum where
  "DEFAULT_COMPONENT_CONTRACT_warningThreshold = Fin 0.8"

text \<open>The operator \<open>??\<close>: the right operand when the left one is \<open>undefined\<close>.\<close>

definition nullish :: "'a option \<Rightarrow> 'a \<Rightarrow> 'a" where
  "nullish v d = (case v of None \<Rightarrow> d | Some x \<Rightarrow> x)"

definition resolveComponentContract :: "ComponentContract \<Rightarrow> ResolvedContract" where
  "resolveComponentContract contract =
     \<lparr>maxRenderTime = nullish (cc_maxRenderTime contract) PInf,
      maxRenderCount = nullish (cc_maxRenderCount contract) PInf,
      maxMemoryDelta = nullish (cc_maxMemoryDelta contract) PInf,
      warningThreshold =
        nullish (cc_warningThreshold contract) DEFAULT_COMPONENT_CONTRACT_warningThreshold,
      interactions = nullish (cc_interactions contract) [],
      meta = nullish (cc_meta contract) []\<rparr>"

text \<open>\<open>config?.f\<close> and \<open>config?.g?.f\<close>: \<open>undefined\<close> when a link of the chain is.\<close>

definition chain :: "'a option \<Rightarrow> ('a \<Rightarrow> 'b option) \<Rightarrow> 'b option" where
  "chain v f = (case v of None \<Rightarrow> None | Some x \<Rightarrow> f x)"

definition resolveGlobalConfig :: "GlobalConfig option \<Rightarrow> ResolvedGlobalConfig" where
  "resolveGlobalConfig config =
     \<lparr>rg_runs = nullish (chain config gc_runs) (rg_runs DEFAULT_GLOBAL_CONFIG),
      rg_warmupRuns = nullish (chain config gc_warmupRuns) (rg_warmupRuns DEFAULT_GLOBAL_CONFIG),
      rg_historyWindow = nullish (chain config gc_historyWindow) (rg_historyWindow DEFAULT_GLOBAL_CONFIG),
      rg_regressionThreshold =
        nullish (chain config gc_regressionThreshold) (rg_regressionThreshold DEFAULT_GLOBAL_CONFIG),
      rg_outputDir = nullish (chain config gc_outputDir) (rg_outputDir DEFAULT_GLOBAL_CONFIG),
      rg_artifactName = nullish (chain config gc_artifactName) (rg_artifactName DEFAULT_GLOBAL_CONFIG),
      rg_bundleStats =
        \<lparr>bs_enabled = nullish (chain (chain config gc_bundleStats) (\<lambda>b. Some (bs_enabled b)))
                        (bs_enabled (rg_bundleStats DEFAULT_GLOBAL_CONFIG)),
         bs_statsFile = chain (chain config gc_bundleStats) bs_statsFile\<rparr>,
      rg_diagnostics =
        \<lparr>dg_enabled = nullish (chain (chain config gc_diagnostics) (\<lambda>d. Some (dg_enabled d)))
                        (dg_enabled (rg_diagnostics DEFAULT_GLOBAL_CONFIG)),
         dg_suggestFixes =
           (case chain (chain config gc_diagnostics) dg_suggestFixes of
              None \<Rightarrow> dg_suggestFixes (rg_diagnostics DEFAULT_GLOBAL_CONFIG)
            | Some b \<Rightarrow> Some b),
         dg_sourceDir =
           (case chain (chain config gc_diagnostics) dg_sourceDir of
              None \<Rightarrow> dg_sourceDir (rg_diagnostics DEFAULT_GLOBAL_CONFIG)
            | Some d \<Rightarrow> Some d)\<rparr>\<rparr>"

definition resolveConfig :: "ContractConfig \<Rightarrow> ResolvedConfig" where
  "resolveConfig config =
     (let global = resolveGlobalConfig (cfg_global config);
          components = (case cfg_components config of
                          None \<Rightarrow> []
                        | Some entries \<Rightarrow>
                            fold (\<lambda>(name, contract) m.
                                    AList.update name (resolveComponentContract contract) m)
                              entries []);
          aggregates = (case cfg_aggregates config of
                          None \<Rightarrow> []
                        | Some entries \<Rightarrow>
                            fold (\<lambda>(name, aggregate) m. AList.update name aggregate m) entries [])
      in \<lparr>rc_global = global, rc_components = components, rc_aggregates = aggregates\<rparr>)"

definition getComponentContract :: "ResolvedConfig \<Rightarrow> string \<Rightarrow> ResolvedContract option" where
  "getComponentContract config componentName = map_of (rc_components config) componentName"

definition hasContract :: "ResolvedConfig \<Rightarrow> string \<Rightarrow> bool" where
  "hasContract config componentName = (componentName \<in> fst ` set (rc_components config))"

definition getContractedComponents :: "ResolvedConfig \<Rightarrow> string list" where
  "getContractedComponents config = map fst (rc_components config)"

subsection \<open>validateConfig\<close>

text \<open>
  \<open>errors\<close> is only ever pushed to, so each block is the list of messages it pushes and
  the result is their concatenation in program order.
\<close>

definition globalErrors :: "GlobalConfig \<Rightarrow> string list" where
  "globalErrors g =
     (case gc_runs g of
        None \<Rightarrow> []
      | Some r \<Rightarrow> if jlt r (Fin 1) \<or> \<not> isInteger r
                  then [''global.runs must be a positive integer''] else []) @
     (case gc_regressionThreshold g of
        None \<Rightarrow> []
      | Some t \<Rightarrow> if jlt t (Fin 0) \<or> jgt t (Fin 1)
                  then [''global.regressionThreshold must be between 0 and 1''] else []) @
     (case gc_historyWindow g of
        None \<Rightarrow> []
      | Some h \<Rightarrow> if jlt h (Fin 1) \<or> \<not> isInteger h
                  then [''global.historyWindow must be a positive integer''] else [])"

definition interactionErrors :: "string \<Rightarrow> InteractionType \<times> InteractionBudget \<Rightarrow> string list" where
  "interactionErrors name entry =
     (case ib_maxRenders (snd entry) of
        None \<Rightarrow> []
      | Some mr \<Rightarrow> if jle mr (Fin 0)
                   then [name @ ''.interactions.'' @ interactionTypeName (fst entry) @
                         ''.maxRenders must be positive'']
                   else [])"

definition componentErrors :: "string \<times> ComponentContract \<Rightarrow> string list" where
  "componentErrors entry =
     (let name = fst entry; contract = snd entry in
      (case cc_maxRenderTime contract of
         None \<Rightarrow> []
       | Some t \<Rightarrow> if jle t (Fin 0) then [name @ ''.maxRenderTime must be positive''] else []) @
      (case cc_maxRenderCount contract of
         None \<Rightarrow> []
       | Some n \<Rightarrow> if jle n (Fin 0) \<or> \<not> isInteger n
                   then [name @ ''.maxRenderCount must be a positive integer''] else []) @
      (case cc_warningThreshold contract of
         None \<Rightarrow> []
       | Some w \<Rightarrow> if jlt w (Fin 0) \<or> jgt w (Fin 1)
                   then [name @ ''.warningThreshold must be between 0 and 1''] else []) @
      (case cc_interactions contract of
         None \<Rightarrow> []
       | Some is \<Rightarrow> concat (map (interactionErrors name) is)))"

definition aggregateErrors :: "string \<times> AggregateContract \<Rightarrow> string list" where
  "aggregateErrors entry =
     (case ac_components (snd entry) of
        None \<Rightarrow> [fst entry @ ''.components must be a non-empty array'']
      | Some cs \<Rightarrow> if length cs = 0
                   then [fst entry @ ''.components must be a non-empty array''] else [])"

definition validateConfig :: "ContractConfig \<Rightarrow> string list" where
  "validateConfig config =
     (case cfg_global config of None \<Rightarrow> [] | Some g \<Rightarrow> globalErrors g) @
     (case cfg_components config of
        None \<Rightarrow> [] | Some entries \<Rightarrow> concat (map componentErrors entries)) @
     (case cfg_aggregates config of
        None \<Rightarrow> [] | Some entries \<Rightarrow> concat (map aggregateErrors entries))"

section \<open>Measuring interactions (measurement/profiler.ts, measurement/interaction.ts)\<close>

subsection \<open>The profiler's metrics\<close>

definition createProfiler :: "string \<Rightarrow> RenderMetrics" where
  "createProfiler componentName =
     \<lparr>rm_componentName = componentName, rm_renderCount = Fin 0,
      rm_totalActualDuration = Fin 0, rm_totalBaseDuration = Fin 0,
      rm_averageRenderTime = Fin 0, rm_renders = []\<rparr>"

definition onRenderCallback :: "RenderEvent \<Rightarrow> RenderMetrics \<Rightarrow> RenderMetrics" where
  "onRenderCallback renderEvent m =
     (let m1 = m\<lparr>rm_renderCount := dadd (rm_renderCount m) (Fin 1)\<rparr>;
          m2 = m1\<lparr>rm_totalActualDuration :=
                     dadd (rm_totalActualDuration m1) (actualDuration renderEvent)\<rparr>;
          m3 = m2\<lparr>rm_totalBaseDuration :=
                     dadd (rm_totalBaseDuration m2) (baseDuration renderEvent)\<rparr>;
          m4 = m3\<lparr>rm_renders := rm_renders m3 @ [renderEvent]\<rparr>
      in m4\<lparr>rm_averageRenderTime := ddiv (rm_totalActualDuration m4) (rm_renderCount m4)\<rparr>)"

subsection \<open>One interaction, one run\<close>

datatype MeasureError =
    ElementNotFound string
  | NoResultsToAggregate
  | TypeError
  | Undefined

text \<open>
  What the rendering collaborators do for one interaction is an input of the model:
  either the target selector resolves to no element, or the events fired on it lead to
  the given commits, each reported to the profiler. The \<open>default\<close> branch of the switch
  on the interaction type throws for a type outside \<open>InteractionType\<close>; the datatype has
  no such value.
\<close>

datatype Outcome = NoElement | Commits "RenderEvent list"

record RunEnv =
  mountCommits :: "RenderEvent list"
  outcomeOf :: "nat \<Rightarrow> Outcome"
  clock :: jsnum

definition performInteraction ::
  "InteractionSpec \<Rightarrow> Outcome \<Rightarrow> RenderMetrics \<Rightarrow>
   MeasureError + (InteractionResult \<times> RenderMetrics)" where
  "performInteraction interaction outcome profilerMetrics =
     (case outcome of
        NoElement \<Rightarrow> Inl (ElementNotFound (is_target interaction))
      | Commits events \<Rightarrow>
          (let rendersBefore = rm_renderCount profilerMetrics;
               renderTimeBefore = rm_totalActualDuration profilerMetrics;
               after = fold onRenderCallback events profilerMetrics;
               rendersAfter = rm_renderCount after;
               renderTimeAfter = rm_totalActualDuration after;
               rendersTriggered = dsub rendersAfter rendersBefore;
               totalRenderTime = dsub renderTimeAfter renderTimeBefore
           in Inr (\<lparr>ir_interaction = interaction,
                     ir_rendersTriggered = rendersTriggered,
                     ir_totalRenderTime = totalRenderTime,
                     ir_averageRenderTime =
                       (if jgt rendersTriggered (Fin 0)
                        then ddiv totalRenderTime rendersTriggered else Fin 0)\<rparr>,
                   after)))"

fun performAll ::
  "(nat \<Rightarrow> Outcome) \<Rightarrow> nat \<Rightarrow> InteractionSpec list \<Rightarrow> RenderMetrics \<Rightarrow> InteractionResult list \<Rightarrow>
   MeasureError + (InteractionResult list \<times> RenderMetrics)" where
  "performAll out i [] profilerMetrics interactionResults =
     Inr (interactionResults, profilerMetrics)"
| "performAll out i (interaction # rest) profilerMetrics interactionResults =
     (case performInteraction interaction (out i) profilerMetrics of
        Inl e \<Rightarrow> Inl e
      | Inr (result, after) \<Rightarrow>
          performAll out (Suc i) rest after (interactionResults @ [result]))"

text \<open>\<open>xs.reduce((sum, r) => sum + f(r), 0)\<close>, and the loops that add up a field.\<close>

definition sumBy :: "('a \<Rightarrow> jsnum) \<Rightarrow> 'a list \<Rightarrow> jsnum" where
  "sumBy f xs = fold (\<lambda>r sum. dadd sum (f r)) xs (Fin 0)"

text \<open>
  The loop \<open>rendersByType[type] = (rendersByType[type] || 0) + result.rendersTriggered\<close>,
  the same in a run and in the aggregation.
\<close>

definition groupRendersByType :: "InteractionResult list \<Rightarrow> (InteractionType \<times> jsnum) list" where
  "groupRendersByType interactionResults =
     fold (\<lambda>result rendersByType.
             (let type = is_type (ir_interaction result)
              in AList.update type
                   (dadd (js_or (map_of rendersByType type) (Fin 0)) (ir_rendersTriggered result))
                   rendersByType))
       interactionResults []"

definition measureRun ::
  "string \<Rightarrow> InteractionSpec list \<Rightarrow> string option \<Rightarrow> RunEnv \<Rightarrow>
   MeasureError + MeasureInteractionResult" where
  "measureRun componentName interactionSpecs contract env =
     (let mounted = fold onRenderCallback (mountCommits env) (createProfiler componentName)
      in case performAll (outcomeOf env) 0 interactionSpecs mounted [] of
           Inl e \<Rightarrow> Inl e
         | Inr (interactionResults, snapshot) \<Rightarrow>
             (let totalRenders = sumBy ir_rendersTriggered interactionResults;
                  rendersByType = groupRendersByType interactionResults
              in Inr \<lparr>mi_componentName = componentName,
                      mi_metrics = snapshot,
                      mi_interactionResults = interactionResults,
                      mi_totalRenders = totalRenders,
                      mi_rendersPerInteraction =
                        (if length interactionSpecs > 0
                         then ddiv totalRenders (Fin (real (length interactionSpecs)))
                         else Fin 0),
                      mi_rendersByType = rendersByType,
                      mi_timestamp = clock env,
                      mi_contractValidation =
                        (case contract of
                           None \<Rightarrow> None
                         | Some c \<Rightarrow> if c \<noteq> []
                                     then Some \<lparr>cv_passed = True, cv_contract = c\<rparr>
                                     else None)\<rparr>))"

subsection \<open>Aggregating runs\<close>

text \<open>
  The callback of \<open>first.interactionResults.map\<close>. Reading \<open>rendersTriggered\<close> of
  \<open>r.interactionResults[index]\<close> throws a TypeError when a run has no such entry.
\<close>

definition aggregateInteraction ::
  "MeasureInteractionResult list \<Rightarrow> MeasureInteractionResult \<Rightarrow> nat \<Rightarrow>
   MeasureError + InteractionResult" where
  "aggregateInteraction results first index =
     (if list_ex (\<lambda>r. length (mi_interactionResults r) \<le> index) results then Inl TypeError
      else
        (let interactionData = map (\<lambda>r. mi_interactionResults r ! index) results;
             avgRenders = ddiv (sumBy ir_rendersTriggered interactionData)
                               (Fin (real (length results)));
             avgTime = ddiv (sumBy ir_totalRenderTime interactionData)
                            (Fin (real (length results)))
         in Inr \<lparr>ir_interaction = ir_interaction (mi_interactionResults first ! index),
                 ir_rendersTriggered = js_round avgRenders,
                 ir_totalRenderTime = avgTime,
                 ir_averageRenderTime =
                   (if jgt avgRenders (Fin 0) then ddiv avgTime avgRenders else Fin 0)\<rparr>))"

text \<open>Evaluating the elements of an array in order; the first exception ends it.\<close>

fun collect :: "('e + 'a) list \<Rightarrow> 'e + 'a list" where
  "collect [] = Inr []"
| "collect (Inl e # _) = Inl e"
| "collect (Inr x # rest) = (case collect rest of Inl e \<Rightarrow> Inl e | Inr xs \<Rightarrow> Inr (x # xs))"

definition aggregateResults ::
  "jsnum \<Rightarrow> MeasureInteractionResult list \<Rightarrow> MeasureError + MeasureInteractionResult" where
  "aggregateResults now results =
     (case results of
        [] \<Rightarrow> Inl NoResultsToAggregate
      | first # _ \<Rightarrow>
          (let allRenders = concat (map (\<lambda>r. rm_renders (mi_metrics r)) results);
               totalRenderCount = sumBy (\<lambda>r. rm_renderCount (mi_metrics r)) results;
               totalActualDuration = sumBy (\<lambda>r. rm_totalActualDuration (mi_metrics r)) results;
               totalBaseDuration = sumBy (\<lambda>r. rm_totalBaseDuration (mi_metrics r)) results;
               n = Fin (real (length results));
               avgRenderCount = ddiv totalRenderCount n;
               avgActualDuration = ddiv totalActualDuration n
           in case collect (map (aggregateInteraction results first)
                              [0 ..< length (mi_interactionResults first)]) of
                Inl e \<Rightarrow> Inl e
              | Inr aggregatedInteractions \<Rightarrow>
                  (let totalRenders = sumBy ir_rendersTriggered aggregatedInteractions;
                       rendersByType = groupRendersByType aggregatedInteractions
                   in Inr \<lparr>mi_componentName = mi_componentName first,
                           mi_metrics =
                             \<lparr>rm_componentName = mi_componentName first,
                              rm_renderCount = js_round avgRenderCount,
                              rm_totalActualDuration = avgActualDuration,
                              rm_totalBaseDuration = ddiv totalBaseDuration n,
                              rm_averageRenderTime =
                                (if jgt avgRenderCount (Fin 0)
                                 then ddiv avgActualDuration avgRenderCount else Fin 0),
                              rm_renders = allRenders\<rparr>,
                           mi_interactionResults = aggregatedInteractions,
                           mi_totalRenders = totalRenders,
                           mi_rendersPerInteraction =
                             (if length (mi_interactionResults first) > 0
                              then ddiv totalRenders
                                     (Fin (real (length (mi_interactionResults first))))
                              else Fin 0),
                           mi_rendersByType = rendersByType,
                           mi_timestamp = now,
                           mi_contractValidation = mi_contractValidation first\<rparr>)))"

subsection \<open>measureInteraction\<close>

text \<open>
  The loop \<open>for (let run = 0; run < runs; run++)\<close>. \<open>runs\<close> is a number, so the loop
  need not end (\<open>runs = Infinity\<close>): not returning is the value \<open>None\<close>. An exception
  in a run ends the call.
\<close>

partial_function (option) runLoop ::
  "string \<Rightarrow> InteractionSpec list \<Rightarrow> string option \<Rightarrow> jsnum \<Rightarrow> (nat \<Rightarrow> RunEnv) \<Rightarrow> nat \<Rightarrow>
   MeasureInteractionResult list \<Rightarrow> (MeasureError + MeasureInteractionResult list) option" where
  "runLoop componentName interactionSpecs contract runs envs run allResults =
     (if jlt (Fin (real run)) runs
      then (case measureRun componentName interactionSpecs contract (envs run) of
              Inl e \<Rightarrow> Some (Inl e)
            | Inr r \<Rightarrow> runLoop componentName interactionSpecs contract runs envs (Suc run)
                        (allResults @ [r]))
      else Some (Inr allResults))"

declare runLoop.simps [code]

definition measureInteraction ::
  "string \<Rightarrow> InteractionSpec list \<Rightarrow> string option \<Rightarrow> jsnum option \<Rightarrow> (nat \<Rightarrow> RunEnv) \<Rightarrow> jsnum \<Rightarrow>
   (MeasureError + MeasureInteractionResult) option" where
  "measureInteraction componentName interactionSpecs contract optRuns envs now =
     (let runs = nullish optRuns (Fin 1)
      in case runLoop componentName interactionSpecs contract runs envs 0 [] of
           None \<Rightarrow> None
         | Some (Inl e) \<Rightarrow> Some (Inl e)
         | Some (Inr allResults) \<Rightarrow>
             Some (if runs = Fin 1
                   then (case allResults of [] \<Rightarrow> Inl Undefined | r # _ \<Rightarrow> Inr r)
                   else aggregateResults now allResults))"

section \<open>Definitions used to state the properties\<close>

subsection \<open>Concrete inputs\<close>

text \<open>Scenario A of the specification, with the metrics of the validator's tests.\<close>

definition scenarioA_contract :: ResolvedContract where
  "scenarioA_contract =
     \<lparr>maxRenderTime = Fin 16, maxRenderCount = Fin 5, maxMemoryDelta = PInf,
      warningThreshold = Fin 0.8, interactions = [], meta = []\<rparr>"

definition scenarioA_metrics :: RenderMetrics where
  "scenarioA_metrics =
     \<lparr>rm_componentName = ''TestComponent'', rm_renderCount = Fin 3,
      rm_totalActualDuration = Fin 30, rm_totalBaseDuration = Fin 25,
      rm_averageRenderTime = Fin 14, rm_renders = []\<rparr>"

definition resultWithStatus :: "ValidationStatus \<Rightarrow> ValidationResult" where
  "resultWithStatus s =
     \<lparr>vr_status = s, vr_componentName = ''A'', vr_metrics = emptyMetrics,
      vr_violations = [], vr_suggestions = []\<rparr>"

subsection \<open>The entries of a validation result\<close>

text \<open>
  The metric validations stored in \<open>result.metrics\<close>, each under the name the validator
  uses for that metric in a violation.
\<close>

definition metricEntries :: "ValidationResult \<Rightarrow> (string \<times> MetricValidation) list" where
  "metricEntries r =
     (case m_renderTime (vr_metrics r) of None \<Rightarrow> [] | Some e \<Rightarrow> [(''renderTime'', e)]) @
     (case m_renderCount (vr_metrics r) of None \<Rightarrow> [] | Some e \<Rightarrow> [(''renderCount'', e)]) @
     (case m_memoryDelta (vr_metrics r) of None \<Rightarrow> [] | Some e \<Rightarrow> [(''memoryDelta'', e)]) @
     (case m_rendersPerInteraction (vr_metrics r) of
        None \<Rightarrow> []
      | Some ivs \<Rightarrow> map (\<lambda>(t, e). (''rendersPerInteraction.'' @ interactionTypeName t, e)) ivs)"



subsection \<open>Inputs that differ in one measured value\<close>

definition withAverageRenderTime :: "jsnum \<Rightarrow> Measurements \<Rightarrow> Measurements" where
  "withAverageRenderTime x ms =
     (case ms of
        PlainMetrics m \<Rightarrow> PlainMetrics (m\<lparr>rm_averageRenderTime := x\<rparr>)
      | InteractionMeasurement r \<Rightarrow>
          InteractionMeasurement (r\<lparr>mi_metrics := (mi_metrics r)\<lparr>rm_averageRenderTime := x\<rparr>\<rparr>))"

definition withRenderCount :: "jsnum \<Rightarrow> Measurements \<Rightarrow> Measurements" where
  "withRenderCount x ms =
     (case ms of
        PlainMetrics m \<Rightarrow> PlainMetrics (m\<lparr>rm_renderCount := x\<rparr>)
      | InteractionMeasurement r \<Rightarrow>
          InteractionMeasurement (r\<lparr>mi_metrics := (mi_metrics r)\<lparr>rm_renderCount := x\<rparr>\<rparr>))"

subsection \<open>More concrete inputs\<close>

text \<open>A contract whose render-time budget is 0, and one with no budget at all.\<close>

definition zeroBudget_contract :: ResolvedContract where
  "zeroBudget_contract = scenarioA_contract\<lparr>maxRenderTime := Fin 0\<rparr>"

definition unbounded_contract :: ResolvedContract where
  "unbounded_contract =
     \<lparr>maxRenderTime = PInf, maxRenderCount = PInf, maxMemoryDelta = PInf,
      warningThreshold = Fin 0.8, interactions = [], meta = []\<rparr>"

subsection \<open>The checks the validator makes\<close>

text \<open>
  A check is a triple of the metric's name (or interaction kind), the actual value and the
  budget. \<open>interactionChecks\<close> lists the checks of the interaction loop, \<open>pushedChecks\<close>
  all the checks of a call, with the actual values as the code reads them.
\<close>

definition interactionChecks ::
  "(InteractionType \<Rightarrow> jsnum) \<Rightarrow> (InteractionType \<times> InteractionBudget) list \<Rightarrow>
   (InteractionType \<times> jsnum \<times> jsnum) list" where
  "interactionChecks actualOf xs =
     concat (map (\<lambda>(t, b). case ib_maxRenders b of
                               None \<Rightarrow> []
                             | Some mr \<Rightarrow> [(t, actualOf t, mr)]) xs)"

definition pushedChecks :: "Measurements \<Rightarrow> ResolvedContract \<Rightarrow> (string \<times> jsnum \<times> jsnum) list" where
  "pushedChecks ms c =
     (if maxRenderTime c = PInf then []
      else [(''renderTime'', rm_averageRenderTime (renderMetricsOf ms), maxRenderTime c)]) @
     (if maxRenderCount c = PInf then []
      else [(''renderCount'', rm_renderCount (renderMetricsOf ms), maxRenderCount c)]) @
     (case ms of
        PlainMetrics m \<Rightarrow> []
      | InteractionMeasurement r \<Rightarrow>
          map (\<lambda>(t, a, b). (''rendersPerInteraction.'' @ interactionTypeName t, a, b))
            (interactionChecks (\<lambda>t. js_or (map_of (mi_rendersByType r) t) (Fin 0))
               (interactions c)))"

text \<open>The status, the stored entry and the violation of a check.\<close>

definition checkStatus :: "jsnum \<Rightarrow> 'n \<times> jsnum \<times> jsnum \<Rightarrow> ValidationStatus" where
  "checkStatus wt chk = mv_status (validateMetric (fst (snd chk)) (snd (snd chk)) wt)"

definition checkValidation :: "jsnum \<Rightarrow> string \<times> jsnum \<times> jsnum \<Rightarrow> string \<times> MetricValidation" where
  "checkValidation wt chk = (fst chk, validateMetric (fst (snd chk)) (snd (snd chk)) wt)"

definition checkViolation :: "string \<times> jsnum \<times> jsnum \<Rightarrow> Violation" where
  "checkViolation chk = createViolation (fst chk) (snd (snd chk)) (fst (snd chk))"

text \<open>
  The violation that belongs to a stored entry: the name of the entry, its budget and its actual
  value, the fraction by which the budget is exceeded and the severity of that fraction.
\<close>

definition violationOf :: "string \<times> MetricValidation \<Rightarrow> Violation" where
  "violationOf entry =
     \<lparr>v_metric = fst entry, v_budget = mv_budget (snd entry), v_actual = mv_actual (snd entry),
      v_exceededByPercent =
        jdiv (jsub (mv_actual (snd entry)) (mv_budget (snd entry))) (mv_budget (snd entry)),
      v_severity =
        getViolationSeverity
          (jdiv (jsub (mv_actual (snd entry)) (mv_budget (snd entry))) (mv_budget (snd entry)))\<rparr>"

text \<open>The accumulators \<open>statuses\<close> and \<open>violations\<close> hold exactly the outcome of the checks \<open>P\<close>.\<close>

definition tracks :: "jsnum \<Rightarrow> (string \<times> jsnum \<times> jsnum) list \<Rightarrow> ValidationState \<Rightarrow> bool" where
  "tracks wt P st \<longleftrightarrow>
     statuses st = map (checkStatus wt) P \<and>
     violations st = map checkViolation (filter (\<lambda>chk. checkStatus wt chk = Fail) P)"

definition renderTimeCheck :: "Measurements \<Rightarrow> ResolvedContract \<Rightarrow> (string \<times> jsnum \<times> jsnum) list" where
  "renderTimeCheck ms c =
     (if maxRenderTime c = PInf then []
      else [(''renderTime'', rm_averageRenderTime (renderMetricsOf ms), maxRenderTime c)])"

definition renderCountCheck :: "Measurements \<Rightarrow> ResolvedContract \<Rightarrow> (string \<times> jsnum \<times> jsnum) list" where
  "renderCountCheck ms c =
     (if maxRenderCount c = PInf then []
      else [(''renderCount'', rm_renderCount (renderMetricsOf ms), maxRenderCount c)])"

definition perInteractionChecks :: "Measurements \<Rightarrow> ResolvedContract \<Rightarrow> (string \<times> jsnum \<times> jsnum) list" where
  "perInteractionChecks ms c =
     (case ms of
        PlainMetrics m \<Rightarrow> []
      | InteractionMeasurement r \<Rightarrow>
          map (\<lambda>(t, a, b). (''rendersPerInteraction.'' @ interactionTypeName t, a, b))
            (interactionChecks (\<lambda>t. js_or (map_of (mi_rendersByType r) t) (Fin 0))
               (interactions c)))"

subsection \<open>The checked metrics, in the words of the specification\<close>

text \<open>
  \<open>measuredRenders\<close> is \<open>rendersByType[kind]\<close>, or 0 if that kind never occurred.
  \<open>claimedMetrics\<close> is the list of the specification: render time, render count and one
  check per declared interaction kind, whatever the measurement is (a measurement without
  \<open>rendersByType\<close> has no kind that occurred). \<open>checkedMetrics\<close> is the same list for a
  measurement that carries interaction results, and only the first two checks for plain
  render metrics.
\<close>

definition measuredRenders :: "(InteractionType \<times> jsnum) list \<Rightarrow> InteractionType \<Rightarrow> jsnum" where
  "measuredRenders rendersByType kind =
     (case map_of rendersByType kind of None \<Rightarrow> Fin 0 | Some n \<Rightarrow> n)"

definition rendersByTypeOf :: "Measurements \<Rightarrow> (InteractionType \<times> jsnum) list" where
  "rendersByTypeOf ms =
     (case ms of PlainMetrics m \<Rightarrow> [] | InteractionMeasurement r \<Rightarrow> mi_rendersByType r)"

definition claimedMetrics :: "Measurements \<Rightarrow> ResolvedContract \<Rightarrow> (string \<times> jsnum \<times> jsnum) list" where
  "claimedMetrics ms c =
     (if maxRenderTime c = PInf then []
      else [(''renderTime'', rm_averageRenderTime (renderMetricsOf ms), maxRenderTime c)]) @
     (if maxRenderCount c = PInf then []
      else [(''renderCount'', rm_renderCount (renderMetricsOf ms), maxRenderCount c)]) @
     concat (map (\<lambda>(kind, budget).
                    case ib_maxRenders budget of
                      None \<Rightarrow> []
                    | Some maxRenders \<Rightarrow>
                        [(''rendersPerInteraction.'' @ interactionTypeName kind,
                          measuredRenders (rendersByTypeOf ms) kind, maxRenders)])
               (interactions c))"

definition checkedMetrics :: "Measurements \<Rightarrow> ResolvedContract \<Rightarrow> (string \<times> jsnum \<times> jsnum) list" where
  "checkedMetrics ms c =
     (case ms of
        InteractionMeasurement r \<Rightarrow> claimedMetrics ms c
      | PlainMetrics m \<Rightarrow>
          (if maxRenderTime c = PInf then []
           else [(''renderTime'', rm_averageRenderTime m, maxRenderTime c)]) @
          (if maxRenderCount c = PInf then []
           else [(''renderCount'', rm_renderCount m, maxRenderCount c)]))"

subsection \<open>Contracts with interaction budgets\<close>

text \<open>
  A budget of 2 renders per click, and Scenario C of the specification: budgets for click
  and type, measured 4 and 1 renders.
\<close>

definition clickBudget_contract :: ResolvedContract where
  "clickBudget_contract =
     scenarioA_contract\<lparr>interactions := [(Click, \<lparr>ib_maxRenders = Some (Fin 2), ib_maxRenderTime = None\<rparr>)]\<rparr>"

definition scenarioC_contract :: ResolvedContract where
  "scenarioC_contract =
     scenarioA_contract\<lparr>interactions :=
       [(Click, \<lparr>ib_maxRenders = Some (Fin 2), ib_maxRenderTime = None\<rparr>),
        (Type, \<lparr>ib_maxRenders = Some (Fin 3), ib_maxRenderTime = None\<rparr>)]\<rparr>"

definition scenarioC_measurement :: MeasureInteractionResult where
  "scenarioC_measurement =
     \<lparr>mi_componentName = ''TestComponent'',
      mi_metrics = scenarioA_metrics\<lparr>rm_averageRenderTime := Fin 10\<rparr>,
      mi_interactionResults = [], mi_totalRenders = Fin 5, mi_rendersPerInteraction = Fin 2.5,
      mi_rendersByType = [(Click, Fin 4), (Type, Fin 1)],
      mi_timestamp = Fin 0, mi_contractValidation = None\<rparr>"

text \<open>The same measurement with the render metrics of Scenario A: an average of 14 ms.\<close>

definition scenarioC_warn_measurement :: MeasureInteractionResult where
  "scenarioC_warn_measurement =
     scenarioC_measurement\<lparr>mi_metrics := scenarioA_metrics\<rparr>"

subsection \<open>Configurations\<close>

text \<open>The empty contract and global settings, and the configuration of Scenario D.\<close>

definition emptyComponentContract :: ComponentContract where
  "emptyComponentContract =
     \<lparr>cc_maxRenderTime = None, cc_maxRenderCount = None, cc_maxMemoryDelta = None,
      cc_warningThreshold = None, cc_interactions = None, cc_meta = None\<rparr>"

definition emptyGlobalConfig :: GlobalConfig where
  "emptyGlobalConfig =
     \<lparr>gc_runs = None, gc_warmupRuns = None, gc_historyWindow = None,
      gc_regressionThreshold = None, gc_outputDir = None, gc_artifactName = None,
      gc_bundleStats = None, gc_diagnostics = None\<rparr>"

definition scenarioD_config :: ContractConfig where
  "scenarioD_config =
     \<lparr>cfg_global = Some (emptyGlobalConfig\<lparr>gc_runs := Some (Fin 0)\<rparr>),
      cfg_components = Some [(''X'', emptyComponentContract\<lparr>cc_maxRenderTime := Some (Fin (- 1))\<rparr>)],
      cfg_aggregates = None\<rparr>"

subsection \<open>The structural rules of a configuration\<close>

text \<open>
  \<open>ruleBroken config m\<close>: the configuration breaks a structural rule, whose message is \<open>m\<close>.
  One clause per rule, in the words of the specification: a value that is present breaks its
  rule when it is not what the rule says it must be. \<open>runs\<close>, \<open>historyWindow\<close> and
  \<open>maxRenderCount\<close> must be positive integers; \<open>regressionThreshold\<close> and each
  \<open>warningThreshold\<close> must lie in \<open>[0, 1]\<close>; \<open>maxRenderTime\<close> and each \<open>maxRenders\<close> must be
  \<open>> 0\<close>; the \<open>components\<close> list of each aggregate must be non-empty. A \<open>NaN\<close> is not
  \<open>> 0\<close> and does not lie in \<open>[0, 1]\<close>.
\<close>

inductive ruleBroken :: "ContractConfig \<Rightarrow> string \<Rightarrow> bool" for config where
  runs:
    "cfg_global config = Some g \<Longrightarrow> gc_runs g = Some r \<Longrightarrow>
     \<not> (isInteger r \<and> jgt r (Fin 0)) \<Longrightarrow>
     ruleBroken config ''global.runs must be a positive integer''"
| regressionThreshold:
    "cfg_global config = Some g \<Longrightarrow> gc_regressionThreshold g = Some t \<Longrightarrow>
     \<not> (jge t (Fin 0) \<and> jle t (Fin 1)) \<Longrightarrow>
     ruleBroken config ''global.regressionThreshold must be between 0 and 1''"
| historyWindow:
    "cfg_global config = Some g \<Longrightarrow> gc_historyWindow g = Some h \<Longrightarrow>
     \<not> (isInteger h \<and> jgt h (Fin 0)) \<Longrightarrow>
     ruleBroken config ''global.historyWindow must be a positive integer''"
| maxRenderTime:
    "cfg_components config = Some entries \<Longrightarrow> (name, contract) \<in> set entries \<Longrightarrow>
     cc_maxRenderTime contract = Some t \<Longrightarrow> \<not> jgt t (Fin 0) \<Longrightarrow>
     ruleBroken config (name @ ''.maxRenderTime must be positive'')"
| maxRenderCount:
    "cfg_components config = Some entries \<Longrightarrow> (name, contract) \<in> set entries \<Longrightarrow>
     cc_maxRenderCount contract = Some n \<Longrightarrow> \<not> (isInteger n \<and> jgt n (Fin 0)) \<Longrightarrow>
     ruleBroken config (name @ ''.maxRenderCount must be a positive integer'')"
| warningThreshold:
    "cfg_components config = Some entries \<Longrightarrow> (name, contract) \<in> set entries \<Longrightarrow>
     cc_warningThreshold contract = Some w \<Longrightarrow> \<not> (jge w (Fin 0) \<and> jle w (Fin 1)) \<Longrightarrow>
     ruleBroken config (name @ ''.warningThreshold must be between 0 and 1'')"
| maxRenders:
    "cfg_components config = Some entries \<Longrightarrow> (name, contract) \<in> set entries \<Longrightarrow>
     cc_interactions contract = Some budgets \<Longrightarrow> (kind, budget) \<in> set budgets \<Longrightarrow>
     ib_maxRenders budget = Some mr \<Longrightarrow> \<not> jgt mr (Fin 0) \<Longrightarrow>
     ruleBroken config
       (name @ ''.interactions.'' @ interactionTypeName kind @ ''.maxRenders must be positive'')"
| aggregateComponents:
    "cfg_aggregates config = Some entries \<Longrightarrow> (name, aggregate) \<in> set entries \<Longrightarrow>
     ac_components aggregate = None \<or> ac_components aggregate = Some [] \<Longrightarrow>
     ruleBroken config (name @ ''.components must be a non-empty array'')"

text \<open>
  The values a configuration gives to the fields with a range rule: \<open>regressionThreshold\<close>,
  and each component's \<open>maxRenderTime\<close>, \<open>warningThreshold\<close> and \<open>maxRenders\<close>.
\<close>

definition present :: "'a option \<Rightarrow> 'a list" where
  "present v = (case v of None \<Rightarrow> [] | Some x \<Rightarrow> [x])"

definition componentRangeValues :: "ComponentContract \<Rightarrow> jsnum list" where
  "componentRangeValues contract =
     present (cc_maxRenderTime contract) @ present (cc_warningThreshold contract) @
     concat (map (\<lambda>budgets. concat (map (\<lambda>entry. present (ib_maxRenders (snd entry))) budgets))
               (present (cc_interactions contract)))"

definition rangeValues :: "ContractConfig \<Rightarrow> jsnum list" where
  "rangeValues config =
     concat (map (\<lambda>g. present (gc_regressionThreshold g)) (present (cfg_global config))) @
     concat (map (\<lambda>entries. concat (map (\<lambda>entry. componentRangeValues (snd entry)) entries))
               (present (cfg_components config)))"

text \<open>Scenario D with a render-time budget that is not a number.\<close>

definition nan_config :: ContractConfig where
  "nan_config =
     \<lparr>cfg_global = Some (emptyGlobalConfig\<lparr>gc_runs := Some (Fin 0)\<rparr>),
      cfg_components = Some [(''X'', emptyComponentContract\<lparr>cc_maxRenderTime := Some NaN\<rparr>)],
      cfg_aggregates = None\<rparr>"

subsection \<open>Resolved values as sparse ones\<close>

text \<open>
  A \<open>Required<ComponentContract>\<close> is a \<open>ComponentContract\<close> with every field present, and
  likewise for the global settings: a resolved value can be resolved again.
\<close>

definition asComponentContract :: "ResolvedContract \<Rightarrow> ComponentContract" where
  "asComponentContract r =
     \<lparr>cc_maxRenderTime = Some (maxRenderTime r), cc_maxRenderCount = Some (maxRenderCount r),
      cc_maxMemoryDelta = Some (maxMemoryDelta r), cc_warningThreshold = Some (warningThreshold r),
      cc_interactions = Some (interactions r), cc_meta = Some (meta r)\<rparr>"

definition asGlobalConfig :: "ResolvedGlobalConfig \<Rightarrow> GlobalConfig" where
  "asGlobalConfig g =
     \<lparr>gc_runs = Some (rg_runs g), gc_warmupRuns = Some (rg_warmupRuns g),
      gc_historyWindow = Some (rg_historyWindow g),
      gc_regressionThreshold = Some (rg_regressionThreshold g),
      gc_outputDir = Some (rg_outputDir g), gc_artifactName = Some (rg_artifactName g),
      gc_bundleStats = Some (rg_bundleStats g), gc_diagnostics = Some (rg_diagnostics g)\<rparr>"

text \<open>
  A global field is omitted when the configuration has no \<open>global\<close> object or the object
  lacks the field. The sparse inputs are those of the loader's tests.
\<close>

definition omitted :: "GlobalConfig option \<Rightarrow> (GlobalConfig \<Rightarrow> 'a option) \<Rightarrow> bool" where
  "omitted g field = (case g of None \<Rightarrow> True | Some x \<Rightarrow> field x = None)"

definition sparse_contract :: ComponentContract where
  "sparse_contract = emptyComponentContract\<lparr>cc_maxRenderTime := Some (Fin 16)\<rparr>"

definition sparse_global :: GlobalConfig where
  "sparse_global = emptyGlobalConfig\<lparr>gc_runs := Some (Fin 5)\<rparr>"

definition sparse_config :: ContractConfig where
  "sparse_config =
     \<lparr>cfg_global = Some sparse_global,
      cfg_components = Some [(''UserCard'', sparse_contract)],
      cfg_aggregates = None\<rparr>"

subsection \<open>What a measured run satisfies\<close>

text \<open>
  The fields of a run that the code derives from others: an average is the time over
  the count, or 0 when the count is not positive (\<open>profiler.ts\<close>, \<open>performInteraction\<close>);
  the render count is the number of render events recorded; the renders triggered by an
  interaction are a number of render events, at most \<open>K\<close>; a time is the result of an
  operation on doubles, so a double; \<open>totalRenders\<close>, \<open>rendersByType\<close> and
  \<open>rendersPerInteraction\<close> are computed from the interaction results.
\<close>

definition derivedAverage :: "jsnum \<Rightarrow> jsnum \<Rightarrow> jsnum" where
  "derivedAverage time count = (if jgt count (Fin 0) then ddiv time count else Fin 0)"

definition isDouble :: "jsnum \<Rightarrow> bool" where
  "isDouble x \<longleftrightarrow> dround x = x"

definition consistentInteraction :: "nat \<Rightarrow> InteractionResult \<Rightarrow> bool" where
  "consistentInteraction K ir \<longleftrightarrow>
     (\<exists>j \<le> K. ir_rendersTriggered ir = Fin (real j)) \<and>
     isDouble (ir_totalRenderTime ir) \<and>
     ir_averageRenderTime ir = derivedAverage (ir_totalRenderTime ir) (ir_rendersTriggered ir)"

definition consistentMetrics :: "RenderMetrics \<Rightarrow> bool" where
  "consistentMetrics m \<longleftrightarrow>
     rm_renderCount m = Fin (real (length (rm_renders m))) \<and>
     isDouble (rm_totalActualDuration m) \<and>
     isDouble (rm_totalBaseDuration m) \<and>
     rm_averageRenderTime m = derivedAverage (rm_totalActualDuration m) (rm_renderCount m)"

definition consistentRun :: "MeasureInteractionResult \<Rightarrow> bool" where
  "consistentRun r \<longleftrightarrow>
     consistentMetrics (mi_metrics r) \<and>
     rm_componentName (mi_metrics r) = mi_componentName r \<and>
     list_all (consistentInteraction (length (rm_renders (mi_metrics r)))) (mi_interactionResults r) \<and>
     mi_totalRenders r = sumBy ir_rendersTriggered (mi_interactionResults r) \<and>
     mi_rendersByType r = groupRendersByType (mi_interactionResults r) \<and>
     mi_rendersPerInteraction r =
       (if length (mi_interactionResults r) > 0
        then ddiv (mi_totalRenders r) (Fin (real (length (mi_interactionResults r))))
        else Fin 0)"

subsection \<open>The mean of equal values\<close>

text \<open>
  What the aggregation computes from \<open>R\<close> runs with the same value \<open>x\<close> of a field: the
  sum \<open>0 + x + \<dots> + x\<close>, added up from the left, over \<open>R\<close>, each operation rounding.
\<close>

definition meanOfCopies :: "nat \<Rightarrow> jsnum \<Rightarrow> jsnum" where
  "meanOfCopies R x = ddiv (sumBy (\<lambda>v. v) (replicate R x)) (Fin (real R))"

text \<open>
  The aggregate of \<open>R\<close> copies of a run, as a change of the run: the timestamp of the
  aggregation, the render events of all copies, and each time replaced by the mean of \<open>R\<close>
  copies of it, with the averages derived from these means.
\<close>

definition interactionOfCopies :: "nat \<Rightarrow> InteractionResult \<Rightarrow> InteractionResult" where
  "interactionOfCopies R ir =
     ir\<lparr>ir_totalRenderTime := meanOfCopies R (ir_totalRenderTime ir),
        ir_averageRenderTime :=
          derivedAverage (meanOfCopies R (ir_totalRenderTime ir)) (ir_rendersTriggered ir)\<rparr>"

definition aggregateOfCopies :: "jsnum \<Rightarrow> nat \<Rightarrow> MeasureInteractionResult \<Rightarrow> MeasureInteractionResult" where
  "aggregateOfCopies now R r =
     r\<lparr>mi_timestamp := now,
       mi_metrics :=
         (mi_metrics r)
           \<lparr>rm_renders := concat (replicate R (rm_renders (mi_metrics r))),
            rm_totalActualDuration := meanOfCopies R (rm_totalActualDuration (mi_metrics r)),
            rm_totalBaseDuration := meanOfCopies R (rm_totalBaseDuration (mi_metrics r)),
            rm_averageRenderTime :=
              derivedAverage (meanOfCopies R (rm_totalActualDuration (mi_metrics r)))
                (rm_renderCount (mi_metrics r))\<rparr>,
       mi_interactionResults := map (interactionOfCopies R) (mi_interactionResults r)\<rparr>"

subsection \<open>Two runs\<close>

text \<open>One commit at mount, then a click that leads to two commits.\<close>

definition commit :: "real \<Rightarrow> RenderEvent" where
  "commit d = \<lparr>phase = Update, actualDuration = Fin d, baseDuration = Fin d,
               startTime = Fin 0, commitTime = Fin d\<rparr>"

definition click_script :: "InteractionSpec list" where
  "click_script = [\<lparr>is_type = Click, is_target = ''button'', is_text = None\<rparr>]"

definition click_env :: RunEnv where
  "click_env = \<lparr>mountCommits = [commit 2], outcomeOf = (\<lambda>i. Commits [commit 1, commit 3]),
                clock = Fin 100\<rparr>"

definition click_run :: MeasureInteractionResult where
  "click_run =
     \<lparr>mi_componentName = ''Card'',
      mi_metrics =
        \<lparr>rm_componentName = ''Card'', rm_renderCount = Fin 3, rm_totalActualDuration = Fin 6,
         rm_totalBaseDuration = Fin 6, rm_averageRenderTime = Fin 2,
         rm_renders = [commit 2, commit 1, commit 3]\<rparr>,
      mi_interactionResults =
        [\<lparr>ir_interaction = \<lparr>is_type = Click, is_target = ''button'', is_text = None\<rparr>,
          ir_rendersTriggered = Fin 2, ir_totalRenderTime = Fin 4, ir_averageRenderTime = Fin 2\<rparr>],
      mi_totalRenders = Fin 2, mi_rendersPerInteraction = Fin 2,
      mi_rendersByType = [(Click, Fin 2)], mi_timestamp = Fin 100,
      mi_contractValidation = None\<rparr>"

text \<open>
  The double next to 0.1, which is what the literal \<open>0.1\<close> denotes, and a run whose only
  commit, at mount, takes that long.
\<close>

definition tenth :: real where
  "tenth = 3602879701896397 / 2 ^ 55"

definition tenth_env :: RunEnv where
  "tenth_env = \<lparr>mountCommits = [commit tenth], outcomeOf = (\<lambda>i. Commits []), clock = Fin 100\<rparr>"

definition tenth_run :: MeasureInteractionResult where
  "tenth_run =
     \<lparr>mi_componentName = ''Card'',
      mi_metrics =
        \<lparr>rm_componentName = ''Card'', rm_renderCount = Fin 1,
         rm_totalActualDuration = Fin tenth, rm_totalBaseDuration = Fin tenth,
         rm_averageRenderTime = Fin tenth, rm_renders = [commit tenth]\<rparr>,
      mi_interactionResults = [],
      mi_totalRenders = Fin 0, mi_rendersPerInteraction = Fin 0,
      mi_rendersByType = [], mi_timestamp = Fin 100,
      mi_contractValidation = None\<rparr>"

section \<open>Properties of the validator\<close>

subsection \<open>Severity\<close>

text \<open>
  Claim C4. The severity of a violation is a function of \<open>exceededByPercent\<close> alone:
  values in \<open>[0, 0.25)\<close> are minor, values in \<open>[0.25, 0.5)\<close> are moderate, values from
  \<open>0.5\<close> on are severe; exactly \<open>0.25\<close> is moderate and exactly \<open>0.5\<close> is severe. The
  severity stored in a violation is that function of the violation's own
  \<open>exceededByPercent\<close>.
\<close>

theorem severity_intervals:
  "(0 \<le> x \<and> x < 0.25 \<longrightarrow> getViolationSeverity (Fin x) = Minor) \<and>
   (0.25 \<le> x \<and> x < 0.5 \<longrightarrow> getViolationSeverity (Fin x) = Moderate) \<and>
   (0.5 \<le> x \<longrightarrow> getViolationSeverity (Fin x) = Severe) \<and>
   getViolationSeverity (Fin 0.25) = Moderate \<and>
   getViolationSeverity (Fin 0.5) = Severe \<and>
   v_severity (createViolation name budget actual) =
     getViolationSeverity (v_exceededByPercent (createViolation name budget actual))"
  by (simp add: getViolationSeverity_def createViolation_def Let_def)

theorem severity_intervals_witness:
  "getViolationSeverity (Fin 0.1) = Minor \<and> getViolationSeverity (Fin 0.3) = Moderate \<and>
   getViolationSeverity (Fin 0.75) = Severe"
  using severity_intervals [of "0.1"] severity_intervals [of "0.3"] severity_intervals [of "0.75"]
  by simp

subsection \<open>Status over many results\<close>

lemma count_three:
  "length (filter (\<lambda>r. vr_status r = Pass) rs) + length (filter (\<lambda>r. vr_status r = Warn) rs) +
   length (filter (\<lambda>r. vr_status r = Fail) rs) = length rs"
proof (induction rs)
  case Nil
  show ?case by simp
next
  case (Cons r rs)
  then show ?case by (cases "vr_status r") simp_all
qed

text \<open>
  Claim C10. \<open>getOverallStatus\<close> of the empty list is \<open>pass\<close>; of any list it is \<open>fail\<close>
  if some result failed, else \<open>warn\<close> if some result warned, else \<open>pass\<close>. The three
  counts of \<open>countByStatus\<close> add up to the length of the list.
\<close>

theorem overall_status:
  "getOverallStatus [] = Pass \<and>
   getOverallStatus rs =
     (if \<exists>r \<in> set rs. vr_status r = Fail then Fail
      else if \<exists>r \<in> set rs. vr_status r = Warn then Warn
      else Pass) \<and>
   sc_pass (countByStatus rs) + sc_warn (countByStatus rs) + sc_fail (countByStatus rs) = length rs"
proof -
  have a: "getOverallStatus [] = Pass"
    by (simp add: getOverallStatus_def combineStatuses_def)
  have b: "getOverallStatus rs =
     (if \<exists>r \<in> set rs. vr_status r = Fail then Fail
      else if \<exists>r \<in> set rs. vr_status r = Warn then Warn
      else Pass)"
  proof -
    have m: "\<And>s. s \<in> set (map vr_status rs) \<longleftrightarrow> (\<exists>r \<in> set rs. vr_status r = s)"
      by auto
    show ?thesis
      unfolding getOverallStatus_def combineStatuses_def m by simp
  qed
  have c: "sc_pass (countByStatus rs) + sc_warn (countByStatus rs) + sc_fail (countByStatus rs)
           = length rs"
    by (simp add: countByStatus_def count_three)
  from a b c show ?thesis by blast
qed

theorem overall_status_witness:
  "getOverallStatus [resultWithStatus Pass, resultWithStatus Warn, resultWithStatus Fail] = Fail \<and>
   getOverallStatus [resultWithStatus Pass, resultWithStatus Warn] = Warn \<and>
   getOverallStatus [resultWithStatus Pass, resultWithStatus Pass] = Pass \<and>
   sc_pass (countByStatus [resultWithStatus Pass, resultWithStatus Warn, resultWithStatus Fail]) +
   sc_warn (countByStatus [resultWithStatus Pass, resultWithStatus Warn, resultWithStatus Fail]) +
   sc_fail (countByStatus [resultWithStatus Pass, resultWithStatus Warn, resultWithStatus Fail]) = 3"
  using overall_status [of "[resultWithStatus Pass, resultWithStatus Warn, resultWithStatus Fail]"]
        overall_status [of "[resultWithStatus Pass, resultWithStatus Warn]"]
        overall_status [of "[resultWithStatus Pass, resultWithStatus Pass]"]
  by (simp add: resultWithStatus_def)

subsection \<open>Status of a single metric\<close>




lemma validateMetric_fields:
  "mv_actual (validateMetric a b w) = a" "mv_budget (validateMetric a b w) = b"
  "mv_utilization (validateMetric a b w) = jdiv a b"
  by (simp_all add: validateMetric_def Let_def)





lemma pushCheck_metrics: "metrics (pushCheck n b a v st) = metrics st"
  by (simp add: pushCheck_def Let_def)

lemma interactionStep_metrics: "metrics (fst (interactionStep rbt wt entry acc)) = metrics (fst acc)"
  by (simp add: interactionStep_def Let_def pushCheck_metrics split: option.splits)

lemma fold_interactionStep_metrics:
  "metrics (fst (fold (interactionStep rbt wt) xs acc)) = metrics (fst acc)"
  by (induction xs arbitrary: acc) (simp_all add: interactionStep_metrics)








subsection \<open>Utilization\<close>

text \<open>
  Claim C5 says that the utilization stored for a metric is \<open>actual / budget\<close>, taken as 0
  when the budget is 0, hence never \<open>NaN\<close> nor \<open>Infinity\<close>. \<open>getBudgetUtilization\<close> does
  that; \<open>validateMetric\<close>, which fills the validation result, divides without the guard.
  With a render-time budget of 0 the stored utilization is \<open>Infinity\<close> for an average of
  14 and \<open>NaN\<close> for an average of 0, where \<open>getBudgetUtilization\<close> gives 0.
\<close>

theorem zero_budget_utilization:
  "map_option mv_utilization (m_renderTime (vr_metrics
      (validateAgainstContract ''TestComponent'' (PlainMetrics scenarioA_metrics)
         zeroBudget_contract))) = Some PInf \<and>
   map_option mv_utilization (m_renderTime (vr_metrics
      (validateAgainstContract ''TestComponent''
         (PlainMetrics (scenarioA_metrics\<lparr>rm_averageRenderTime := Fin 0\<rparr>))
         zeroBudget_contract))) = Some NaN \<and>
   getBudgetUtilization (Fin 14) (Fin 0) = Fin 0"
  by (simp add: validateAgainstContract_def validateRenderTime_def validateRenderCount_def
      validateInteractions_def renderMetricsOf_def scenarioA_contract_def scenarioA_metrics_def
      zeroBudget_contract_def pushCheck_metrics
      emptyMetrics_def validateMetric_def getBudgetUtilization_def jgt_def Let_def)

subsection \<open>Budgets that are not set\<close>

lemma memoryDelta_absent: "m_memoryDelta (vr_metrics (validateAgainstContract name ms c)) = None"
proof -
  have a: "\<And>rm st. m_memoryDelta (metrics (validateRenderTime rm c st)) = m_memoryDelta (metrics st)"
    by (simp add: validateRenderTime_def Let_def pushCheck_metrics)
  have b: "\<And>rm st. m_memoryDelta (metrics (validateRenderCount rm c st)) = m_memoryDelta (metrics st)"
    by (simp add: validateRenderCount_def Let_def pushCheck_metrics)
  have c: "\<And>st. m_memoryDelta (metrics (validateInteractions ms c st)) = m_memoryDelta (metrics st)"
    by (cases ms) (simp_all add: validateInteractions_def Let_def fold_interactionStep_metrics
        split: prod.splits, metis fold_interactionStep_metrics fst_conv)
  show ?thesis
    by (simp add: validateAgainstContract_def Let_def a b c emptyMetrics_def)
qed

lemma validateInteractions_renderTime:
  "m_renderTime (metrics (validateInteractions ms c st)) = m_renderTime (metrics st)"
  by (cases ms) (simp_all add: validateInteractions_def Let_def fold_interactionStep_metrics
        split: prod.splits, metis fold_interactionStep_metrics fst_conv)

lemma validateInteractions_renderCount:
  "m_renderCount (metrics (validateInteractions ms c st)) = m_renderCount (metrics st)"
  by (cases ms) (simp_all add: validateInteractions_def Let_def fold_interactionStep_metrics
        split: prod.splits, metis fold_interactionStep_metrics fst_conv)

text \<open>
  Claim C2. A metric whose budget is \<open>+Infinity\<close> (render time, render count, memory delta)
  has no entry in the \<open>metrics\<close> of the validation result, and the result, its status
  included, is the same whatever the measured value of that metric is. No memory delta
  is ever measured or checked, so the result does not depend on \<open>maxMemoryDelta\<close> either.
\<close>

theorem unbounded_budget_skipped:
  "(maxRenderTime c = PInf \<longrightarrow>
      m_renderTime (vr_metrics (validateAgainstContract name ms c)) = None \<and>
      validateAgainstContract name (withAverageRenderTime x ms) c =
        validateAgainstContract name ms c) \<and>
   (maxRenderCount c = PInf \<longrightarrow>
      m_renderCount (vr_metrics (validateAgainstContract name ms c)) = None \<and>
      validateAgainstContract name (withRenderCount x ms) c =
        validateAgainstContract name ms c) \<and>
   (maxMemoryDelta c = PInf \<longrightarrow>
      m_memoryDelta (vr_metrics (validateAgainstContract name ms c)) = None \<and>
      validateAgainstContract name ms (c\<lparr>maxMemoryDelta := b\<rparr>) =
        validateAgainstContract name ms c)"
proof -
  have t1: "m_renderTime (vr_metrics (validateAgainstContract name ms c)) = None"
    if "maxRenderTime c = PInf"
    using that
    by (simp add: validateAgainstContract_def Let_def validateInteractions_renderTime
        validateRenderCount_def validateRenderTime_def pushCheck_metrics emptyMetrics_def)
  have t2: "validateAgainstContract name (withAverageRenderTime x ms) c =
        validateAgainstContract name ms c" if "maxRenderTime c = PInf"
    using that
    by (cases ms) (simp_all add: validateAgainstContract_def Let_def withAverageRenderTime_def
        validateRenderTime_def validateRenderCount_def validateInteractions_def renderMetricsOf_def)
  have c1: "m_renderCount (vr_metrics (validateAgainstContract name ms c)) = None"
    if "maxRenderCount c = PInf"
    using that
    by (simp add: validateAgainstContract_def Let_def validateInteractions_renderCount
        validateRenderCount_def validateRenderTime_def pushCheck_metrics emptyMetrics_def)
  have c2: "validateAgainstContract name (withRenderCount x ms) c =
        validateAgainstContract name ms c" if "maxRenderCount c = PInf"
    using that
    by (cases ms) (simp_all add: validateAgainstContract_def Let_def withRenderCount_def
        validateRenderTime_def validateRenderCount_def validateInteractions_def renderMetricsOf_def)
  have m2: "validateAgainstContract name ms (c\<lparr>maxMemoryDelta := b\<rparr>) =
        validateAgainstContract name ms c"
    by (cases ms) (simp_all add: validateAgainstContract_def Let_def
        validateRenderTime_def validateRenderCount_def validateInteractions_def renderMetricsOf_def)
  from t1 t2 c1 c2 m2 memoryDelta_absent show ?thesis by blast
qed

theorem unbounded_budget_skipped_witness:
  "maxRenderTime unbounded_contract = PInf \<and> maxRenderCount unbounded_contract = PInf \<and>
   maxMemoryDelta unbounded_contract = PInf \<and>
   m_renderTime (vr_metrics (validateAgainstContract ''TestComponent''
     (PlainMetrics scenarioA_metrics) unbounded_contract)) = None \<and>
   m_renderCount (vr_metrics (validateAgainstContract ''TestComponent''
     (PlainMetrics scenarioA_metrics) unbounded_contract)) = None \<and>
   validateAgainstContract ''TestComponent''
     (withAverageRenderTime (Fin 1000) (PlainMetrics scenarioA_metrics)) unbounded_contract =
   validateAgainstContract ''TestComponent'' (PlainMetrics scenarioA_metrics) unbounded_contract \<and>
   validateAgainstContract ''TestComponent''
     (withRenderCount (Fin 1000) (PlainMetrics scenarioA_metrics)) unbounded_contract =
   validateAgainstContract ''TestComponent'' (PlainMetrics scenarioA_metrics) unbounded_contract"
  using unbounded_budget_skipped [of unbounded_contract "''TestComponent''"
          "PlainMetrics scenarioA_metrics" "Fin 1000" PInf]
  by (simp add: unbounded_contract_def)

subsection \<open>The checks of a call, its entries and its violations\<close>

lemma update_fresh: "k \<notin> fst ` set al \<Longrightarrow> AList.update k v al = al @ [(k, v)]"
  by (induction al) auto

lemma interactionChecks_Cons:
  "interactionChecks f ((t, b) # xs) =
     (case ib_maxRenders b of None \<Rightarrow> [] | Some mr \<Rightarrow> [(t, f t, mr)]) @ interactionChecks f xs"
  by (simp add: interactionChecks_def)

lemma fold_interactionStep_distinct:
  assumes "distinct (map fst xs)" and "fst ` set ivs \<inter> fst ` set xs = {}"
  shows "fold (interactionStep rbt wt) xs (st, ivs) =
     (fold (\<lambda>(t, a, b). pushCheck (''rendersPerInteraction.'' @ interactionTypeName t) b a
                           (validateMetric a b wt))
        (interactionChecks (\<lambda>t. js_or (map_of rbt t) (Fin 0)) xs) st,
      ivs @ map (\<lambda>(t, a, b). (t, validateMetric a b wt))
              (interactionChecks (\<lambda>t. js_or (map_of rbt t) (Fin 0)) xs))"
  using assms
proof (induction xs arbitrary: st ivs)
  case Nil
  show ?case by (simp add: interactionChecks_def)
next
  case (Cons x xs)
  obtain t b where x: "x = (t, b)" by (cases x)
  have d: "distinct (map fst xs)" and t: "t \<notin> fst ` set xs" and ti: "t \<notin> fst ` set ivs"
    and dis: "fst ` set ivs \<inter> fst ` set xs = {}"
    using Cons.prems x by auto
  show ?case
  proof (cases "ib_maxRenders b")
    case None
    then show ?thesis
      using Cons.IH [OF d dis, of st] x
      by (simp add: interactionStep_def interactionChecks_Cons)
  next
    case (Some mr)
    let ?a = "js_or (map_of rbt t) (Fin 0)"
    let ?v = "validateMetric ?a mr wt"
    have dis': "fst ` set (ivs @ [(t, ?v)]) \<inter> fst ` set xs = {}"
      using dis t by auto
    show ?thesis
      using Cons.IH [OF d dis'] x Some update_fresh [OF ti, of ?v]
      by (simp add: interactionStep_def interactionChecks_Cons Let_def)
  qed
qed

lemma fold_pushCheck_char:
  "fold (\<lambda>(t, a, b). pushCheck (nm t) b a (validateMetric a b wt)) cs st =
     st\<lparr>statuses := statuses st @ map (checkStatus wt) cs,
        violations := violations st @
          map (\<lambda>(t, a, b). createViolation (nm t) b a)
            (filter (\<lambda>chk. checkStatus wt chk = Fail) cs)\<rparr>"
proof (induction cs arbitrary: st)
  case Nil
  show ?case by simp
next
  case (Cons x cs)
  obtain t a b where x: "x = (t, a, b)" by (cases x)
  show ?case
    by (simp add: x Cons.IH) (simp add: pushCheck_def checkStatus_def Let_def)
qed

lemma pushedChecks_parts:
  "pushedChecks ms c = renderTimeCheck ms c @ renderCountCheck ms c @ perInteractionChecks ms c"
  by (simp add: pushedChecks_def renderTimeCheck_def renderCountCheck_def perInteractionChecks_def)

lemma tracks_pushCheck:
  assumes "tracks wt P st"
  shows "tracks wt (P @ [(n, a, b)]) (pushCheck n b a (validateMetric a b wt) (st\<lparr>metrics := m\<rparr>))"
  using assms
  by (simp add: tracks_def pushCheck_def checkStatus_def checkViolation_def Let_def)

lemma tracks_renderTime:
  assumes "tracks (warningThreshold c) P st"
  shows "tracks (warningThreshold c) (P @ renderTimeCheck ms c)
           (validateRenderTime (renderMetricsOf ms) c st)"
proof (cases "maxRenderTime c = PInf")
  case True
  with assms show ?thesis by (simp add: validateRenderTime_def renderTimeCheck_def)
next
  case False
  then show ?thesis
    using tracks_pushCheck [OF assms]
    by (simp add: validateRenderTime_def renderTimeCheck_def Let_def)
qed

lemma tracks_renderCount:
  assumes "tracks (warningThreshold c) P st"
  shows "tracks (warningThreshold c) (P @ renderCountCheck ms c)
           (validateRenderCount (renderMetricsOf ms) c st)"
proof (cases "maxRenderCount c = PInf")
  case True
  with assms show ?thesis by (simp add: validateRenderCount_def renderCountCheck_def)
next
  case False
  then show ?thesis
    using tracks_pushCheck [OF assms]
    by (simp add: validateRenderCount_def renderCountCheck_def Let_def)
qed

lemma validateInteractions_distinct:
  assumes "distinct (map fst (interactions c))"
  shows "validateInteractions (InteractionMeasurement r) c st =
     (let cs = interactionChecks (\<lambda>t. js_or (map_of (mi_rendersByType r) t) (Fin 0))
                 (interactions c);
          st' = st\<lparr>statuses := statuses st @ map (checkStatus (warningThreshold c)) cs,
                   violations := violations st @
                     map (\<lambda>(t, a, b). createViolation
                            (''rendersPerInteraction.'' @ interactionTypeName t) b a)
                       (filter (\<lambda>chk. checkStatus (warningThreshold c) chk = Fail) cs)\<rparr>
      in if cs = [] then st'
         else st'\<lparr>metrics := (metrics st')\<lparr>m_rendersPerInteraction :=
                   Some (map (\<lambda>(t, a, b). (t, validateMetric a b (warningThreshold c))) cs)\<rparr>\<rparr>)"
  by (simp add: validateInteractions_def fold_interactionStep_distinct [OF assms]
      fold_pushCheck_char Let_def)

lemma tracks_interactions:
  assumes "distinct (map fst (interactions c))" and "tracks (warningThreshold c) P st"
  shows "tracks (warningThreshold c) (P @ perInteractionChecks ms c)
           (validateInteractions ms c st)"
proof (cases ms)
  case (PlainMetrics m)
  with assms(2) show ?thesis by (simp add: validateInteractions_def perInteractionChecks_def)
next
  case (InteractionMeasurement r)
  let ?cs = "interactionChecks (\<lambda>t. js_or (map_of (mi_rendersByType r) t) (Fin 0)) (interactions c)"
  let ?nm = "\<lambda>(t, a, b). (''rendersPerInteraction.'' @ interactionTypeName t, a, b)"
  have s: "map (checkStatus (warningThreshold c)) (map ?nm ?cs) = map (checkStatus (warningThreshold c)) ?cs"
    by (simp add: checkStatus_def case_prod_beta)
  have v: "map checkViolation (filter (\<lambda>chk. checkStatus (warningThreshold c) chk = Fail) (map ?nm ?cs))
     = map (\<lambda>(t, a, b). createViolation (''rendersPerInteraction.'' @ interactionTypeName t) b a)
         (filter (\<lambda>chk. checkStatus (warningThreshold c) chk = Fail) ?cs)"
    by (simp add: filter_map comp_def checkStatus_def checkViolation_def case_prod_beta)
  show ?thesis
    using assms(2) s v
    by (simp add: InteractionMeasurement validateInteractions_distinct [OF assms(1)]
        perInteractionChecks_def tracks_def Let_def)
qed

lemma final_state_tracks:
  assumes "distinct (map fst (interactions c))"
  shows "tracks (warningThreshold c) (pushedChecks ms c)
     (validateInteractions ms c
        (validateRenderCount (renderMetricsOf ms) c
           (validateRenderTime (renderMetricsOf ms) c
              \<lparr>statuses = [], violations = [], metrics = emptyMetrics\<rparr>)))"
proof -
  have "tracks (warningThreshold c) [] \<lparr>statuses = [], violations = [], metrics = emptyMetrics\<rparr>"
    by (simp add: tracks_def)
  from tracks_interactions [OF assms tracks_renderCount [OF tracks_renderTime [OF this]]]
  show ?thesis by (simp add: pushedChecks_parts)
qed

lemma metrics_validateRenderTime:
  "metrics (validateRenderTime rm c st) =
     (if maxRenderTime c = PInf then metrics st
      else (metrics st)\<lparr>m_renderTime :=
             Some (validateMetric (rm_averageRenderTime rm) (maxRenderTime c) (warningThreshold c))\<rparr>)"
  by (simp add: validateRenderTime_def pushCheck_metrics Let_def)

lemma metrics_validateRenderCount:
  "metrics (validateRenderCount rm c st) =
     (if maxRenderCount c = PInf then metrics st
      else (metrics st)\<lparr>m_renderCount :=
             Some (validateMetric (rm_renderCount rm) (maxRenderCount c) (warningThreshold c))\<rparr>)"
  by (simp add: validateRenderCount_def pushCheck_metrics Let_def)

lemma metrics_validateInteractions:
  assumes "distinct (map fst (interactions c))"
  shows "metrics (validateInteractions (InteractionMeasurement r) c st) =
     (let cs = interactionChecks (\<lambda>t. js_or (map_of (mi_rendersByType r) t) (Fin 0))
                 (interactions c)
      in if cs = [] then metrics st
         else (metrics st)\<lparr>m_rendersPerInteraction :=
                Some (map (\<lambda>(t, a, b). (t, validateMetric a b (warningThreshold c))) cs)\<rparr>)"
  by (simp add: validateInteractions_distinct [OF assms] Let_def)

lemma entries_renderTime:
  "(case (if maxRenderTime c = PInf then None
          else Some (validateMetric (rm_averageRenderTime (renderMetricsOf ms)) (maxRenderTime c)
                       (warningThreshold c))) of
      None \<Rightarrow> [] | Some e \<Rightarrow> [(''renderTime'', e)]) =
   map (checkValidation (warningThreshold c)) (renderTimeCheck ms c)"
  by (simp add: renderTimeCheck_def checkValidation_def)

lemma entries_renderCount:
  "(case (if maxRenderCount c = PInf then None
          else Some (validateMetric (rm_renderCount (renderMetricsOf ms)) (maxRenderCount c)
                       (warningThreshold c))) of
      None \<Rightarrow> [] | Some e \<Rightarrow> [(''renderCount'', e)]) =
   map (checkValidation (warningThreshold c)) (renderCountCheck ms c)"
  by (simp add: renderCountCheck_def checkValidation_def)

lemma final_metrics:
  assumes "distinct (map fst (interactions c))"
  shows "vr_metrics (validateAgainstContract name ms c) =
     \<lparr>m_renderTime =
        (if maxRenderTime c = PInf then None
         else Some (validateMetric (rm_averageRenderTime (renderMetricsOf ms)) (maxRenderTime c)
                      (warningThreshold c))),
      m_renderCount =
        (if maxRenderCount c = PInf then None
         else Some (validateMetric (rm_renderCount (renderMetricsOf ms)) (maxRenderCount c)
                      (warningThreshold c))),
      m_memoryDelta = None,
      m_rendersPerInteraction =
        (case ms of
           PlainMetrics m \<Rightarrow> None
         | InteractionMeasurement r \<Rightarrow>
             (let cs = interactionChecks (\<lambda>t. js_or (map_of (mi_rendersByType r) t) (Fin 0))
                         (interactions c)
              in if cs = [] then None
                 else Some (map (\<lambda>(t, a, b). (t, validateMetric a b (warningThreshold c))) cs)))\<rparr>"
proof (cases ms)
  case (PlainMetrics m)
  show ?thesis
    unfolding validateAgainstContract_def Let_def PlainMetrics
    by (simp add: validateInteractions_def metrics_validateRenderTime metrics_validateRenderCount
        emptyMetrics_def)
next
  case (InteractionMeasurement r)
  show ?thesis
    unfolding validateAgainstContract_def Let_def InteractionMeasurement
    by (simp add: metrics_validateInteractions [OF assms] metrics_validateRenderTime
        metrics_validateRenderCount emptyMetrics_def Let_def)
qed

lemma entries_interactions:
  "(case (case ms of
           PlainMetrics m \<Rightarrow> None
         | InteractionMeasurement r \<Rightarrow>
             (let cs = interactionChecks (\<lambda>t. js_or (map_of (mi_rendersByType r) t) (Fin 0))
                         (interactions c)
              in if cs = [] then None
                 else Some (map (\<lambda>(t, a, b). (t, validateMetric a b (warningThreshold c))) cs))) of
      None \<Rightarrow> []
    | Some ivs \<Rightarrow> map (\<lambda>(t, e). (''rendersPerInteraction.'' @ interactionTypeName t, e)) ivs) =
   map (checkValidation (warningThreshold c)) (perInteractionChecks ms c)"
  by (cases ms) (simp_all add: perInteractionChecks_def checkValidation_def Let_def case_prod_beta)

lemma validate_char:
  assumes "distinct (map fst (interactions c))"
  shows "metricEntries (validateAgainstContract name ms c) =
           map (checkValidation (warningThreshold c)) (pushedChecks ms c)"
    and "vr_violations (validateAgainstContract name ms c) =
           map checkViolation
             (filter (\<lambda>chk. checkStatus (warningThreshold c) chk = Fail) (pushedChecks ms c))"
    and "vr_status (validateAgainstContract name ms c) =
           (if pushedChecks ms c = [] then Pass
            else combineStatuses (map (checkStatus (warningThreshold c)) (pushedChecks ms c)))"
proof -
  note t = final_state_tracks [OF assms, of ms, unfolded tracks_def]
  show "metricEntries (validateAgainstContract name ms c) =
           map (checkValidation (warningThreshold c)) (pushedChecks ms c)"
    unfolding metricEntries_def final_metrics [OF assms] pushedChecks_parts
    by (simp only: ResultMetrics.simps entries_renderTime entries_renderCount
        entries_interactions map_append option.case append_Nil)
  show "vr_violations (validateAgainstContract name ms c) =
           map checkViolation
             (filter (\<lambda>chk. checkStatus (warningThreshold c) chk = Fail) (pushedChecks ms c))"
    using t by (simp add: validateAgainstContract_def Let_def)
  show "vr_status (validateAgainstContract name ms c) =
           (if pushedChecks ms c = [] then Pass
            else combineStatuses (map (checkStatus (warningThreshold c)) (pushedChecks ms c)))"
    using t by (simp add: validateAgainstContract_def Let_def)
qed

lemma interactionTypeName_inj:
  "interactionTypeName a = interactionTypeName b \<longleftrightarrow> a = b"
  by (cases a; cases b) simp_all

lemma interactionTypeName_not_render:
  "''renderTime'' \<noteq> ''rendersPerInteraction.'' @ s" "''renderCount'' \<noteq> ''rendersPerInteraction.'' @ s"
  by simp_all

lemma interactionChecks_keys:
  "map fst (interactionChecks f xs) = map fst (filter (\<lambda>p. ib_maxRenders (snd p) \<noteq> None) xs)"
proof (induction xs)
  case Nil
  show ?case by (simp add: interactionChecks_def)
next
  case (Cons x xs)
  obtain t b where x: "x = (t, b)" by (cases x)
  show ?case
    using Cons.IH by (cases "ib_maxRenders b") (simp_all add: x interactionChecks_Cons)
qed

lemma distinct_interaction_names:
  assumes "distinct (map fst xs)"
  shows "distinct (map (\<lambda>p. ''rendersPerInteraction.'' @ interactionTypeName (fst p))
                    (interactionChecks f xs))"
proof -
  have k: "distinct (map fst (interactionChecks f xs))"
    unfolding interactionChecks_keys using assms by (rule distinct_map_filter)
  have i: "inj (\<lambda>t. ''rendersPerInteraction.'' @ interactionTypeName t)"
    by (rule injI) (simp add: interactionTypeName_inj)
  have "distinct (map (\<lambda>t. ''rendersPerInteraction.'' @ interactionTypeName t)
                   (map fst (interactionChecks f xs)))"
    using k i by (simp add: distinct_map inj_on_def inj_def)
  then show ?thesis by (simp add: comp_def)
qed

lemma distinct_three:
  assumes "a \<noteq> b" and "a \<notin> set ps" and "b \<notin> set ps" and "distinct ps"
  shows "distinct ((if p then [] else [a]) @ (if q then [] else [b]) @ ps)"
  using assms by auto

lemma pushedChecks_names:
  assumes "distinct (map fst (interactions c))"
  shows "distinct (map fst (pushedChecks ms c))"
proof -
  have a: "map fst (renderTimeCheck ms c) = (if maxRenderTime c = PInf then [] else [''renderTime''])"
    by (simp add: renderTimeCheck_def)
  have b: "map fst (renderCountCheck ms c) = (if maxRenderCount c = PInf then [] else [''renderCount''])"
    by (simp add: renderCountCheck_def)
  obtain ns where n: "map fst (perInteractionChecks ms c) = map (\<lambda>s. ''rendersPerInteraction.'' @ s) ns"
    and d: "distinct (map fst (perInteractionChecks ms c))"
  proof (cases ms)
    case (PlainMetrics m)
    have "map fst (perInteractionChecks ms c) = map (\<lambda>s. ''rendersPerInteraction.'' @ s) []"
      by (simp add: perInteractionChecks_def PlainMetrics)
    moreover have "distinct (map fst (perInteractionChecks ms c))"
      by (simp add: perInteractionChecks_def PlainMetrics)
    ultimately show ?thesis by (rule that)
  next
    case (InteractionMeasurement r)
    let ?cs = "interactionChecks (\<lambda>t. js_or (map_of (mi_rendersByType r) t) (Fin 0)) (interactions c)"
    have e: "map fst (perInteractionChecks ms c) =
             map (\<lambda>p. ''rendersPerInteraction.'' @ interactionTypeName (fst p)) ?cs"
      by (simp add: perInteractionChecks_def InteractionMeasurement case_prod_beta)
    have "map fst (perInteractionChecks ms c) =
          map (\<lambda>s. ''rendersPerInteraction.'' @ s) (map (\<lambda>p. interactionTypeName (fst p)) ?cs)"
      unfolding e by (simp add: comp_def)
    moreover have "distinct (map fst (perInteractionChecks ms c))"
      unfolding e by (rule distinct_interaction_names [OF assms])
    ultimately show ?thesis by (rule that)
  qed
  have x1: "''renderTime'' \<notin> set (map fst (perInteractionChecks ms c))"
    unfolding n by auto
  have x2: "''renderCount'' \<notin> set (map fst (perInteractionChecks ms c))"
    unfolding n by auto
  have y: "''renderTime'' \<noteq> ''renderCount''" by simp
  show ?thesis
    unfolding pushedChecks_parts map_append a b
    by (rule distinct_three [OF y x1 x2 d])
qed

lemma named_among:
  assumes "distinct (map fst es)" and "(n, e) \<in> set es"
  shows "n \<in> fst ` set (filter (\<lambda>p. P (snd p)) es) \<longleftrightarrow> P e"
proof
  assume "n \<in> fst ` set (filter (\<lambda>p. P (snd p)) es)"
  then obtain e' where e': "(n, e') \<in> set es" "P e'" by auto
  have "e' = e" using eq_key_imp_eq_value [OF assms(1) e'(1) assms(2)] .
  with e' show "P e" by simp
next
  assume "P e"
  then have "(n, e) \<in> set (filter (\<lambda>p. P (snd p)) es)" using assms(2) by simp
  then show "n \<in> fst ` set (filter (\<lambda>p. P (snd p)) es)" by force
qed

lemma violations_explicit:
  assumes "distinct (map fst (interactions c))"
  shows "vr_violations (validateAgainstContract name ms c) =
     map violationOf
       (filter (\<lambda>p. mv_status (snd p) = Fail) (metricEntries (validateAgainstContract name ms c)))"
  unfolding validate_char [OF assms]
  by (simp add: filter_map comp_def checkValidation_def checkViolation_def checkStatus_def
      validateMetric_fields violationOf_def createViolation_def Let_def)

lemma entries_names:
  assumes "distinct (map fst (interactions c))"
  shows "distinct (map fst (metricEntries (validateAgainstContract name ms c)))"
  unfolding validate_char [OF assms]
  using pushedChecks_names [OF assms, of ms]
  by (simp add: comp_def checkValidation_def)

text \<open>
  Claim C3. The violations of a validation result are exactly one violation per stored
  metric whose status is \<open>fail\<close>, in the order of the metrics. Each carries the name of its
  metric, the budget and the actual value of that metric, the fraction by which the budget is
  exceeded and the severity of that fraction. The names of the stored metrics are distinct, and
  the name of a stored metric is the name of a violation exactly when its status is \<open>fail\<close>:
  a metric with status \<open>warn\<close> or \<open>pass\<close> has none.
  (The keys of the \<open>interactions\<close> object are distinct, as the keys of any object.)
\<close>

theorem violations_are_failures:
  assumes "distinct (map fst (interactions c))"
  shows "vr_violations (validateAgainstContract name ms c) =
           map (\<lambda>(n, e).
                  \<lparr>v_metric = n, v_budget = mv_budget e, v_actual = mv_actual e,
                   v_exceededByPercent = jdiv (jsub (mv_actual e) (mv_budget e)) (mv_budget e),
                   v_severity = getViolationSeverity
                                  (jdiv (jsub (mv_actual e) (mv_budget e)) (mv_budget e))\<rparr>)
             (filter (\<lambda>(n, e). mv_status e = Fail)
                (metricEntries (validateAgainstContract name ms c))) \<and>
         distinct (map fst (metricEntries (validateAgainstContract name ms c))) \<and>
         (\<forall>(n, e) \<in> set (metricEntries (validateAgainstContract name ms c)).
            (n \<in> v_metric ` set (vr_violations (validateAgainstContract name ms c))) =
            (mv_status e = Fail))"
proof -
  let ?R = "validateAgainstContract name ms c"
  let ?F = "filter (\<lambda>p. mv_status (snd p) = Fail) (metricEntries ?R)"
  have v: "vr_violations ?R = map violationOf ?F"
    by (rule violations_explicit [OF assms])
  have d: "distinct (map fst (metricEntries ?R))"
    by (rule entries_names [OF assms])
  have m: "v_metric ` set (vr_violations ?R) = fst ` set ?F"
    unfolding v by (simp add: image_image violationOf_def del: set_filter)
  have i: "(n \<in> v_metric ` set (vr_violations ?R)) = (mv_status e = Fail)"
    if "(n, e) \<in> set (metricEntries ?R)" for n e
    unfolding m by (rule named_among [OF d that])
  have l: "(\<lambda>(n, e).
                  \<lparr>v_metric = n, v_budget = mv_budget e, v_actual = mv_actual e,
                   v_exceededByPercent = jdiv (jsub (mv_actual e) (mv_budget e)) (mv_budget e),
                   v_severity = getViolationSeverity
                                  (jdiv (jsub (mv_actual e) (mv_budget e)) (mv_budget e))\<rparr>)
           = violationOf"
    by (simp add: fun_eq_iff violationOf_def)
  have f: "(\<lambda>(n, e). mv_status e = Fail) = (\<lambda>p. mv_status (snd p) = Fail)"
    by (simp add: fun_eq_iff)
  show ?thesis
    unfolding l f using v d i by blast
qed

lemma scenarioC_warn_entries:
  "metricEntries (validateAgainstContract ''TestComponent''
     (InteractionMeasurement scenarioC_warn_measurement) scenarioC_contract) =
   [(''renderTime'', \<lparr>mv_actual = Fin 14, mv_budget = Fin 16, mv_utilization = Fin (7 / 8),
                       mv_status = Warn, mv_exceededBy = None\<rparr>),
    (''renderCount'', \<lparr>mv_actual = Fin 3, mv_budget = Fin 5, mv_utilization = Fin (3 / 5),
                        mv_status = Pass, mv_exceededBy = None\<rparr>),
    (''rendersPerInteraction.click'',
       \<lparr>mv_actual = Fin 4, mv_budget = Fin 2, mv_utilization = Fin 2,
        mv_status = Fail, mv_exceededBy = Some (Fin 1)\<rparr>),
    (''rendersPerInteraction.type'',
       \<lparr>mv_actual = Fin 1, mv_budget = Fin 3, mv_utilization = Fin (1 / 3),
        mv_status = Pass, mv_exceededBy = None\<rparr>)]"
proof -
  have d: "distinct (map fst (interactions scenarioC_contract))"
    by (simp add: scenarioC_contract_def)
  have p: "pushedChecks (InteractionMeasurement scenarioC_warn_measurement) scenarioC_contract =
      [(''renderTime'', Fin 14, Fin 16), (''renderCount'', Fin 3, Fin 5),
       (''rendersPerInteraction.click'', Fin 4, Fin 2),
       (''rendersPerInteraction.type'', Fin 1, Fin 3)]"
    by (simp add: pushedChecks_def interactionChecks_def scenarioC_contract_def
        scenarioC_warn_measurement_def scenarioC_measurement_def scenarioA_contract_def
        scenarioA_metrics_def renderMetricsOf_def js_or_def)
  have w: "warningThreshold scenarioC_contract = Fin (4 / 5)"
    by (simp add: scenarioC_contract_def scenarioA_contract_def)
  show ?thesis
    unfolding validate_char [OF d] p w
    by (simp add: checkValidation_def validateMetric_def getStatusFromUtilization_def jgt_def
        jsub_def Let_def)
qed

theorem violations_are_failures_witness:
  "distinct (map fst (interactions scenarioC_contract)) \<and>
   map (\<lambda>(n, e). (n, mv_status e))
     (metricEntries (validateAgainstContract ''TestComponent''
        (InteractionMeasurement scenarioC_warn_measurement) scenarioC_contract)) =
     [(''renderTime'', Warn), (''renderCount'', Pass),
      (''rendersPerInteraction.click'', Fail), (''rendersPerInteraction.type'', Pass)] \<and>
   vr_violations (validateAgainstContract ''TestComponent''
        (InteractionMeasurement scenarioC_warn_measurement) scenarioC_contract) =
     [\<lparr>v_metric = ''rendersPerInteraction.click'', v_budget = Fin 2, v_actual = Fin 4,
       v_exceededByPercent = Fin 1, v_severity = Severe\<rparr>]"
proof -
  have d: "distinct (map fst (interactions scenarioC_contract))"
    by (simp add: scenarioC_contract_def)
  have s: "getViolationSeverity (Fin 1) = Severe"
    by (simp add: getViolationSeverity_def)
  show ?thesis
    using d violations_are_failures [OF d, of "''TestComponent''"
        "InteractionMeasurement scenarioC_warn_measurement"]
    unfolding scenarioC_warn_entries
    by (simp add: jsub_def s)
qed

lemma js_or_measured:
  assumes "NaN \<notin> snd ` set rbt"
  shows "js_or (map_of rbt t) (Fin 0) = measuredRenders rbt t"
proof (cases "map_of rbt t")
  case None
  then show ?thesis by (simp add: js_or_def measuredRenders_def)
next
  case (Some v)
  then have "(t, v) \<in> set rbt" by (rule map_of_SomeD)
  then have "v \<noteq> NaN" using assms by force
  then show ?thesis using Some by (cases v) (auto simp: js_or_def measuredRenders_def)
qed

lemma pushed_is_checked:
  assumes "\<forall>r. ms = InteractionMeasurement r \<longrightarrow> NaN \<notin> snd ` set (mi_rendersByType r)"
  shows "pushedChecks ms c = checkedMetrics ms c"
proof (cases ms)
  case (PlainMetrics m)
  then show ?thesis
    by (simp add: pushedChecks_def checkedMetrics_def renderMetricsOf_def)
next
  case (InteractionMeasurement r)
  then have n: "NaN \<notin> snd ` set (mi_rendersByType r)" using assms by simp
  have "map (\<lambda>(t, a, b). (''rendersPerInteraction.'' @ interactionTypeName t, a, b))
            (interactionChecks (\<lambda>t. js_or (map_of (mi_rendersByType r) t) (Fin 0)) xs) =
        concat (map (\<lambda>(kind, budget).
                    case ib_maxRenders budget of
                      None \<Rightarrow> []
                    | Some maxRenders \<Rightarrow>
                        [(''rendersPerInteraction.'' @ interactionTypeName kind,
                          measuredRenders (mi_rendersByType r) kind, maxRenders)]) xs)" for xs
    by (induction xs) (auto simp: interactionChecks_def js_or_measured [OF n] split: option.splits)
  then show ?thesis
    unfolding InteractionMeasurement pushedChecks_def checkedMetrics_def claimedMetrics_def
      rendersByTypeOf_def
    by (simp cong: option.case_cong)
qed

lemma check_lambdas:
  "checkValidation wt = (\<lambda>(n, actual, budget). (n, validateMetric actual budget wt))"
  "checkViolation = (\<lambda>(n, actual, budget). createViolation n budget actual)"
  "checkStatus wt = (\<lambda>(n, actual, budget). mv_status (validateMetric actual budget wt))"
  "(\<lambda>chk. checkStatus wt chk = Fail) =
     (\<lambda>(n, actual, budget). mv_status (validateMetric actual budget wt) = Fail)"
  by (simp_all add: fun_eq_iff checkValidation_def checkViolation_def checkStatus_def)

text \<open>
  Claim C9, amended. For a measurement that carries interaction results, with counts
  other than \<open>NaN\<close>, \<open>validateAgainstContract\<close> checks exactly: the average render time
  against \<open>maxRenderTime\<close> and the render count against \<open>maxRenderCount\<close> (each unless the
  budget is \<open>+Infinity\<close>), and for each interaction kind declared in the contract's
  \<open>interactions\<close> the measured \<open>rendersByType[kind]\<close>, 0 when that kind never occurred,
  against that kind's \<open>maxRenders\<close>. For plain render metrics it checks the first two only.
  The stored entries, the violations and the status are those of these checks.
  (The keys of the \<open>interactions\<close> object are distinct, as the keys of any object.)
\<close>

theorem checked_metrics:
  assumes "distinct (map fst (interactions c))"
    and "\<forall>r. ms = InteractionMeasurement r \<longrightarrow> NaN \<notin> snd ` set (mi_rendersByType r)"
  shows "metricEntries (validateAgainstContract name ms c) =
           map (\<lambda>(n, actual, budget). (n, validateMetric actual budget (warningThreshold c)))
             (checkedMetrics ms c) \<and>
         vr_violations (validateAgainstContract name ms c) =
           map (\<lambda>(n, actual, budget). createViolation n budget actual)
             (filter (\<lambda>(n, actual, budget).
                        mv_status (validateMetric actual budget (warningThreshold c)) = Fail)
                (checkedMetrics ms c)) \<and>
         vr_status (validateAgainstContract name ms c) =
           (if checkedMetrics ms c = [] then Pass
            else combineStatuses
                   (map (\<lambda>(n, actual, budget).
                           mv_status (validateMetric actual budget (warningThreshold c)))
                      (checkedMetrics ms c)))"
  unfolding validate_char [OF assms(1)] pushed_is_checked [OF assms(2)] check_lambdas
  by (simp add: split_def)

theorem checked_metrics_witness:
  "distinct (map fst (interactions scenarioC_contract)) \<and>
   NaN \<notin> snd ` set (mi_rendersByType scenarioC_measurement) \<and>
   map fst (metricEntries (validateAgainstContract ''TestComponent''
              (InteractionMeasurement scenarioC_measurement) scenarioC_contract)) =
     [''renderTime'', ''renderCount'', ''rendersPerInteraction.click'',
      ''rendersPerInteraction.type''] \<and>
   vr_violations (validateAgainstContract ''TestComponent''
              (InteractionMeasurement scenarioC_measurement) scenarioC_contract) =
     [\<lparr>v_metric = ''rendersPerInteraction.click'', v_budget = Fin 2, v_actual = Fin 4,
       v_exceededByPercent = Fin 1, v_severity = Severe\<rparr>] \<and>
   vr_status (validateAgainstContract ''TestComponent''
              (InteractionMeasurement scenarioC_measurement) scenarioC_contract) = Fail"
proof -
  have d: "distinct (map fst (interactions scenarioC_contract))"
    by (simp add: scenarioC_contract_def)
  have n: "\<forall>r. InteractionMeasurement scenarioC_measurement = InteractionMeasurement r \<longrightarrow>
             NaN \<notin> snd ` set (mi_rendersByType r)"
    by (simp add: scenarioC_measurement_def)
  have c: "checkedMetrics (InteractionMeasurement scenarioC_measurement) scenarioC_contract =
      [(''renderTime'', Fin 10, Fin 16), (''renderCount'', Fin 3, Fin 5),
       (''rendersPerInteraction.click'', Fin 4, Fin 2),
       (''rendersPerInteraction.type'', Fin 1, Fin 3)]"
    by (simp add: checkedMetrics_def claimedMetrics_def scenarioC_contract_def
        scenarioC_measurement_def scenarioA_contract_def scenarioA_metrics_def
        renderMetricsOf_def rendersByTypeOf_def measuredRenders_def)
  have w: "warningThreshold scenarioC_contract = Fin (4 / 5)"
    by (simp add: scenarioC_contract_def scenarioA_contract_def)
  have s: "mv_status (validateMetric (Fin 10) (Fin 16) (Fin (4 / 5))) = Pass"
     "mv_status (validateMetric (Fin 3) (Fin 5) (Fin (4 / 5))) = Pass"
     "mv_status (validateMetric (Fin 4) (Fin 2) (Fin (4 / 5))) = Fail"
     "mv_status (validateMetric (Fin 1) (Fin 3) (Fin (4 / 5))) = Pass"
    by (simp_all add: validateMetric_def getStatusFromUtilization_def jgt_def Let_def)
  have v: "createViolation ''rendersPerInteraction.click'' (Fin 2) (Fin 4) =
      \<lparr>v_metric = ''rendersPerInteraction.click'', v_budget = Fin 2, v_actual = Fin 4,
       v_exceededByPercent = Fin 1, v_severity = Severe\<rparr>"
    by (simp add: createViolation_def getViolationSeverity_def jsub_def Let_def)
  have n': "NaN \<notin> snd ` set (mi_rendersByType scenarioC_measurement)"
    by (simp add: scenarioC_measurement_def)
  show ?thesis
    using d n' checked_metrics [OF d n, of "''TestComponent''"]
    by (simp add: c w s v combineStatuses_def)
qed

lemma plain_metrics_entries:
  "metricEntries (validateAgainstContract ''TestComponent'' (PlainMetrics scenarioA_metrics)
                    clickBudget_contract) =
     [(''renderTime'', validateMetric (Fin 14) (Fin 16) (Fin 0.8)),
      (''renderCount'', validateMetric (Fin 3) (Fin 5) (Fin 0.8))]"
proof -
  have d: "distinct (map fst (interactions clickBudget_contract))"
    by (simp add: clickBudget_contract_def)
  show ?thesis
    unfolding validate_char [OF d]
    by (simp add: pushedChecks_def clickBudget_contract_def scenarioA_contract_def
        scenarioA_metrics_def renderMetricsOf_def checkValidation_def)
qed

text \<open>
  The claim as stated fails for plain render metrics: with a budget of 2 renders per click
  declared, the claim lists a third check, of 0 renders against 2, and the validator stores
  the first two entries only.
\<close>

theorem checked_metrics_counterexample:
  "map fst (metricEntries (validateAgainstContract ''TestComponent''
              (PlainMetrics scenarioA_metrics) clickBudget_contract)) =
     [''renderTime'', ''renderCount''] \<and>
   m_rendersPerInteraction (vr_metrics (validateAgainstContract ''TestComponent''
              (PlainMetrics scenarioA_metrics) clickBudget_contract)) = None \<and>
   claimedMetrics (PlainMetrics scenarioA_metrics) clickBudget_contract =
     [(''renderTime'', Fin 14, Fin 16), (''renderCount'', Fin 3, Fin 5),
      (''rendersPerInteraction.click'', Fin 0, Fin 2)]"
proof -
  have d: "distinct (map fst (interactions clickBudget_contract))"
    by (simp add: clickBudget_contract_def)
  have a: "m_rendersPerInteraction (vr_metrics (validateAgainstContract ''TestComponent''
              (PlainMetrics scenarioA_metrics) clickBudget_contract)) = None"
    by (simp add: final_metrics [OF d])
  have b: "claimedMetrics (PlainMetrics scenarioA_metrics) clickBudget_contract =
     [(''renderTime'', Fin 14, Fin 16), (''renderCount'', Fin 3, Fin 5),
      (''rendersPerInteraction.click'', Fin 0, Fin 2)]"
    by (simp add: claimedMetrics_def clickBudget_contract_def scenarioA_contract_def
        scenarioA_metrics_def renderMetricsOf_def rendersByTypeOf_def measuredRenders_def)
  show ?thesis
    by (simp add: plain_metrics_entries a b)
qed

section \<open>Properties of the contract resolver\<close>

subsection \<open>Validation of a configuration\<close>

lemma positive_integer: "\<not> (isInteger r \<and> jgt r (Fin 0)) \<longleftrightarrow> jlt r (Fin 1) \<or> \<not> isInteger r"
proof (cases r)
  case (Fin a)
  show ?thesis
  proof (cases "of_int \<lfloor>a\<rfloor> = a")
    case True
    then obtain k :: int where k: "a = of_int k" by metis
    have "(0 < k) = (\<not> k < 1)" by linarith
    then have "(0 < (of_int k :: real)) = (\<not> (of_int k :: real) < 1)" by simp
    then show ?thesis using True by (simp add: Fin jgt_def k)
  next
    case False
    then show ?thesis by (simp add: Fin)
  qed
qed (simp_all add: jgt_def)

lemma positive_integer': "\<not> (isInteger r \<and> jgt r (Fin 0)) \<longleftrightarrow> jle r (Fin 0) \<or> \<not> isInteger r"
proof (cases r)
  case (Fin a)
  then show ?thesis by (auto simp: jgt_def)
qed (simp_all add: jgt_def)

lemma optional_message:
  "m \<in> set (case v of None \<Rightarrow> [] | Some x \<Rightarrow> if P x then [msg] else []) \<longleftrightarrow>
     (\<exists>x. v = Some x \<and> P x \<and> m = msg)"
  by (cases v) auto

lemma optional_messages:
  "m \<in> set (case v of None \<Rightarrow> [] | Some xs \<Rightarrow> concat (map f xs)) \<longleftrightarrow>
     (\<exists>xs b. v = Some xs \<and> b \<in> set xs \<and> m \<in> set (f b))"
  by (cases v) auto

lemma globalErrors_iff:
  "m \<in> set (globalErrors g) \<longleftrightarrow>
     (\<exists>r. gc_runs g = Some r \<and> \<not> (isInteger r \<and> jgt r (Fin 0)) \<and>
          m = ''global.runs must be a positive integer'') \<or>
     (\<exists>t. gc_regressionThreshold g = Some t \<and> (jlt t (Fin 0) \<or> jgt t (Fin 1)) \<and>
          m = ''global.regressionThreshold must be between 0 and 1'') \<or>
     (\<exists>h. gc_historyWindow g = Some h \<and> \<not> (isInteger h \<and> jgt h (Fin 0)) \<and>
          m = ''global.historyWindow must be a positive integer'')"
  unfolding globalErrors_def set_append Un_iff optional_message positive_integer
  by (rule refl)

lemma interactionErrors_iff:
  "m \<in> set (interactionErrors name entry) \<longleftrightarrow>
     (\<exists>mr. ib_maxRenders (snd entry) = Some mr \<and> jle mr (Fin 0) \<and>
           m = name @ ''.interactions.'' @ interactionTypeName (fst entry) @
               ''.maxRenders must be positive'')"
  unfolding interactionErrors_def
  by (cases "ib_maxRenders (snd entry)") auto

lemma componentErrors_iff:
  "m \<in> set (componentErrors entry) \<longleftrightarrow>
     (\<exists>t. cc_maxRenderTime (snd entry) = Some t \<and> jle t (Fin 0) \<and>
          m = fst entry @ ''.maxRenderTime must be positive'') \<or>
     (\<exists>n. cc_maxRenderCount (snd entry) = Some n \<and> \<not> (isInteger n \<and> jgt n (Fin 0)) \<and>
          m = fst entry @ ''.maxRenderCount must be a positive integer'') \<or>
     (\<exists>w. cc_warningThreshold (snd entry) = Some w \<and> (jlt w (Fin 0) \<or> jgt w (Fin 1)) \<and>
          m = fst entry @ ''.warningThreshold must be between 0 and 1'') \<or>
     (\<exists>budgets b. cc_interactions (snd entry) = Some budgets \<and> b \<in> set budgets \<and>
          m \<in> set (interactionErrors (fst entry) b))"
  unfolding componentErrors_def Let_def set_append Un_iff optional_message optional_messages
    positive_integer'
  by (rule refl)

lemma aggregateErrors_iff:
  "m \<in> set (aggregateErrors entry) \<longleftrightarrow>
     (ac_components (snd entry) = None \<or> ac_components (snd entry) = Some []) \<and>
     m = fst entry @ ''.components must be a non-empty array''"
  unfolding aggregateErrors_def
  by (cases "ac_components (snd entry)") auto

lemma validateConfig_iff:
  "m \<in> set (validateConfig config) \<longleftrightarrow>
     (\<exists>g. cfg_global config = Some g \<and> m \<in> set (globalErrors g)) \<or>
     (\<exists>entries e. cfg_components config = Some entries \<and> e \<in> set entries \<and>
                  m \<in> set (componentErrors e)) \<or>
     (\<exists>entries e. cfg_aggregates config = Some entries \<and> e \<in> set entries \<and>
                  m \<in> set (aggregateErrors e))"
  unfolding validateConfig_def
  by (cases "cfg_global config"; cases "cfg_components config"; cases "cfg_aggregates config") auto

lemma not_positive: "jle t (Fin 0) \<Longrightarrow> \<not> jgt t (Fin 0)"
  by (cases t) (auto simp: jgt_def)

lemma outside_unit: "jlt t (Fin 0) \<or> jgt t (Fin 1) \<Longrightarrow> \<not> (jge t (Fin 0) \<and> jle t (Fin 1))"
  by (cases t) (auto simp: jgt_def jge_def)

lemma number_not_positive: "t \<noteq> NaN \<Longrightarrow> \<not> jgt t (Fin 0) \<Longrightarrow> jle t (Fin 0)"
  by (cases t) (auto simp: jgt_def)

lemma number_outside_unit:
  "t \<noteq> NaN \<Longrightarrow> \<not> (jge t (Fin 0) \<and> jle t (Fin 1)) \<Longrightarrow> jlt t (Fin 0) \<or> jgt t (Fin 1)"
  by (cases t) (auto simp: jgt_def jge_def)

lemma validateConfig_sound:
  assumes "m \<in> set (validateConfig config)"
  shows "ruleBroken config m"
proof -
  consider
      (G) g where "cfg_global config = Some g" "m \<in> set (globalErrors g)"
    | (C) entries e where "cfg_components config = Some entries" "e \<in> set entries"
          "m \<in> set (componentErrors e)"
    | (A) entries e where "cfg_aggregates config = Some entries" "e \<in> set entries"
          "m \<in> set (aggregateErrors e)"
    using assms unfolding validateConfig_iff by blast
  then show ?thesis
  proof cases
    case G
    consider
        (r) r where "gc_runs g = Some r" "\<not> (isInteger r \<and> jgt r (Fin 0))"
          "m = ''global.runs must be a positive integer''"
      | (t) t where "gc_regressionThreshold g = Some t" "jlt t (Fin 0) \<or> jgt t (Fin 1)"
          "m = ''global.regressionThreshold must be between 0 and 1''"
      | (h) h where "gc_historyWindow g = Some h" "\<not> (isInteger h \<and> jgt h (Fin 0))"
          "m = ''global.historyWindow must be a positive integer''"
      using G(2) unfolding globalErrors_iff
      by (elim disjE exE conjE) (rule that; (assumption | erule disjI1 | erule disjI2))+
    then show ?thesis
    proof cases
      case r
      show ?thesis unfolding r(3) by (rule ruleBroken.runs [OF G(1) r(1) r(2)])
    next
      case t
      show ?thesis unfolding t(3)
        by (rule ruleBroken.regressionThreshold [OF G(1) t(1) outside_unit [OF t(2)]])
    next
      case h
      show ?thesis unfolding h(3) by (rule ruleBroken.historyWindow [OF G(1) h(1) h(2)])
    qed
  next
    case C
    have e: "(fst e, snd e) \<in> set entries" using C(2) by simp
    consider
        (t) t where "cc_maxRenderTime (snd e) = Some t" "jle t (Fin 0)"
          "m = fst e @ ''.maxRenderTime must be positive''"
      | (n) n where "cc_maxRenderCount (snd e) = Some n" "\<not> (isInteger n \<and> jgt n (Fin 0))"
          "m = fst e @ ''.maxRenderCount must be a positive integer''"
      | (w) w where "cc_warningThreshold (snd e) = Some w" "jlt w (Fin 0) \<or> jgt w (Fin 1)"
          "m = fst e @ ''.warningThreshold must be between 0 and 1''"
      | (i) budgets b mr where "cc_interactions (snd e) = Some budgets" "b \<in> set budgets"
          "ib_maxRenders (snd b) = Some mr" "jle mr (Fin 0)"
          "m = fst e @ ''.interactions.'' @ interactionTypeName (fst b) @
               ''.maxRenders must be positive''"
      using C(3) unfolding componentErrors_iff interactionErrors_iff
      by (elim disjE exE conjE) (rule that; (assumption | erule disjI1 | erule disjI2))+
    then show ?thesis
    proof cases
      case t
      show ?thesis unfolding t(3)
        by (rule ruleBroken.maxRenderTime [OF C(1) e t(1) not_positive [OF t(2)]])
    next
      case n
      show ?thesis unfolding n(3) by (rule ruleBroken.maxRenderCount [OF C(1) e n(1) n(2)])
    next
      case w
      show ?thesis unfolding w(3)
        by (rule ruleBroken.warningThreshold [OF C(1) e w(1) outside_unit [OF w(2)]])
    next
      case i
      have b: "(fst b, snd b) \<in> set budgets" using i(2) by simp
      show ?thesis unfolding i(5)
        by (rule ruleBroken.maxRenders [OF C(1) e i(1) b i(3) not_positive [OF i(4)]])
    qed
  next
    case A
    have e: "(fst e, snd e) \<in> set entries" using A(2) by simp
    have c: "ac_components (snd e) = None \<or> ac_components (snd e) = Some []"
      using A(3) unfolding aggregateErrors_iff by (rule conjunct1)
    have m: "m = fst e @ ''.components must be a non-empty array''"
      using A(3) unfolding aggregateErrors_iff by (rule conjunct2)
    show ?thesis unfolding m by (rule ruleBroken.aggregateComponents [OF A(1) e c])
  qed
qed

lemma in_globalErrors:
  assumes "cfg_global config = Some g" and "x \<in> set (globalErrors g)"
  shows "x \<in> set (validateConfig config)"
  using assms unfolding validateConfig_iff by blast

lemma in_componentErrors:
  assumes "cfg_components config = Some entries" and "e \<in> set entries"
    and "x \<in> set (componentErrors e)"
  shows "x \<in> set (validateConfig config)"
  using assms unfolding validateConfig_iff by blast

lemma in_aggregateErrors:
  assumes "cfg_aggregates config = Some entries" and "e \<in> set entries"
    and "x \<in> set (aggregateErrors e)"
  shows "x \<in> set (validateConfig config)"
  using assms unfolding validateConfig_iff by blast

lemma in_interactionErrors:
  assumes "cc_interactions (snd e) = Some budgets" and "b \<in> set budgets"
    and "x \<in> set (interactionErrors (fst e) b)"
  shows "x \<in> set (componentErrors e)"
  unfolding componentErrors_iff
  by (intro disjI2 exI [of _ budgets] exI [of _ b] conjI assms)

lemma regressionThreshold_ranged:
  assumes "cfg_global config = Some g" and "gc_regressionThreshold g = Some t"
  shows "t \<in> set (rangeValues config)"
  using assms by (simp add: rangeValues_def present_def)

lemma component_ranged:
  assumes "cfg_components config = Some entries" and "(name, contract) \<in> set entries"
    and "t \<in> set (componentRangeValues contract)"
  shows "t \<in> set (rangeValues config)"
  using assms by (force simp: rangeValues_def present_def)

lemma maxRenderTime_ranged:
  assumes "cc_maxRenderTime contract = Some t"
  shows "t \<in> set (componentRangeValues contract)"
  using assms by (simp add: componentRangeValues_def present_def)

lemma warningThreshold_ranged:
  assumes "cc_warningThreshold contract = Some t"
  shows "t \<in> set (componentRangeValues contract)"
  using assms by (simp add: componentRangeValues_def present_def)

lemma maxRenders_ranged:
  assumes "cc_interactions contract = Some budgets" and "(kind, budget) \<in> set budgets"
    and "ib_maxRenders budget = Some t"
  shows "t \<in> set (componentRangeValues contract)"
  using assms by (force simp: componentRangeValues_def present_def)

lemma validateConfig_complete:
  assumes "ruleBroken config m" and numbers: "NaN \<notin> set (rangeValues config)"
  shows "m \<in> set (validateConfig config)"
  using assms(1)
proof cases
  case (runs g r)
  have "m \<in> set (globalErrors g)"
    unfolding globalErrors_iff using runs(1,3,4) by simp
  then show ?thesis by (rule in_globalErrors [OF runs(2)])
next
  case (regressionThreshold g t)
  have "t \<noteq> NaN"
    using regressionThreshold_ranged [OF regressionThreshold(2,3)] numbers by auto
  then have "jlt t (Fin 0) \<or> jgt t (Fin 1)"
    using regressionThreshold(4) by (rule number_outside_unit)
  then have "m \<in> set (globalErrors g)"
    unfolding globalErrors_iff using regressionThreshold(1,3) by simp
  then show ?thesis by (rule in_globalErrors [OF regressionThreshold(2)])
next
  case (historyWindow g h)
  have "m \<in> set (globalErrors g)"
    unfolding globalErrors_iff using historyWindow(1,3,4) by simp
  then show ?thesis by (rule in_globalErrors [OF historyWindow(2)])
next
  case (maxRenderTime entries name contract t)
  have "t \<noteq> NaN"
    using component_ranged [OF maxRenderTime(2,3) maxRenderTime_ranged [OF maxRenderTime(4)]]
      numbers by auto
  then have "jle t (Fin 0)"
    using maxRenderTime(5) by (rule number_not_positive)
  then have "m \<in> set (componentErrors (name, contract))"
    unfolding componentErrors_iff using maxRenderTime(1,4) by simp
  then show ?thesis by (rule in_componentErrors [OF maxRenderTime(2,3)])
next
  case (maxRenderCount entries name contract n)
  have "m \<in> set (componentErrors (name, contract))"
    unfolding componentErrors_iff using maxRenderCount(1,4,5) by simp
  then show ?thesis by (rule in_componentErrors [OF maxRenderCount(2,3)])
next
  case (warningThreshold entries name contract w)
  have "w \<noteq> NaN"
    using component_ranged [OF warningThreshold(2,3)
        warningThreshold_ranged [OF warningThreshold(4)]] numbers by auto
  then have "jlt w (Fin 0) \<or> jgt w (Fin 1)"
    using warningThreshold(5) by (rule number_outside_unit)
  then have "m \<in> set (componentErrors (name, contract))"
    unfolding componentErrors_iff using warningThreshold(1,4) by simp
  then show ?thesis by (rule in_componentErrors [OF warningThreshold(2,3)])
next
  case (maxRenders entries name contract budgets kind budget mr)
  have "mr \<noteq> NaN"
    using component_ranged [OF maxRenders(2,3) maxRenders_ranged [OF maxRenders(4,5,6)]]
      numbers by auto
  then have "jle mr (Fin 0)"
    using maxRenders(7) by (rule number_not_positive)
  then have "m \<in> set (interactionErrors (fst (name, contract)) (kind, budget))"
    unfolding interactionErrors_iff using maxRenders(1,6) by simp
  then have "m \<in> set (componentErrors (name, contract))"
    using maxRenders(4,5) by (intro in_interactionErrors [of _ budgets "(kind, budget)"]) simp_all
  then show ?thesis by (rule in_componentErrors [OF maxRenders(2,3)])
next
  case (aggregateComponents entries name aggregate)
  have "m \<in> set (aggregateErrors (name, aggregate))"
    unfolding aggregateErrors_iff using aggregateComponents(1,4) by simp
  then show ?thesis by (rule in_aggregateErrors [OF aggregateComponents(2,3)])
qed

lemma validateConfig_numbers:
  assumes "NaN \<notin> set (rangeValues config)"
  shows "set (validateConfig config) = {m. ruleBroken config m}"
  using validateConfig_sound validateConfig_complete [OF _ assms] by blast

lemma scenarioD_errors:
  "validateConfig scenarioD_config =
     [''global.runs must be a positive integer'', ''X.maxRenderTime must be positive'']"
  by (simp add: validateConfig_def globalErrors_def componentErrors_def scenarioD_config_def
      emptyGlobalConfig_def emptyComponentContract_def Let_def)

lemma scenarioD_exhaustive:
  "set (validateConfig scenarioD_config) = {m. ruleBroken scenarioD_config m}"
  by (rule validateConfig_numbers)
     (simp add: rangeValues_def componentRangeValues_def present_def scenarioD_config_def
        emptyGlobalConfig_def emptyComponentContract_def)

text \<open>
  Claim C6. \<open>validateConfig\<close> is exhaustive, not fail-fast: it reports every structural rule
  that the configuration breaks. It does so as long as the values with a range rule are
  numbers (\<open>validateConfig_sound\<close>, \<open>validateConfig_numbers\<close>), but it tests these rules
  by their negation, \<open>t <= 0\<close> for \<open>must be > 0\<close>, and no comparison holds of \<open>NaN\<close>: for
  \<open>{global: {runs: 0}, components: {X: {maxRenderTime: NaN}}}\<close> two rules are broken and the
  call returns the message of one. The rules for integers, tested with
  \<open>Number.isInteger\<close>, do report a \<open>NaN\<close>.
\<close>

theorem validateConfig_misses_NaN:
  "validateConfig nan_config = [''global.runs must be a positive integer''] \<and>
   ruleBroken nan_config ''global.runs must be a positive integer'' \<and>
   ruleBroken nan_config ''X.maxRenderTime must be positive'' \<and>
   ''X.maxRenderTime must be positive'' \<notin> set (validateConfig nan_config) \<and>
   validateConfig
     (nan_config\<lparr>cfg_components :=
        Some [(''X'', emptyComponentContract\<lparr>cc_maxRenderCount := Some NaN\<rparr>)]\<rparr>) =
     [''global.runs must be a positive integer'', ''X.maxRenderCount must be a positive integer'']"
proof -
  have v: "validateConfig nan_config = [''global.runs must be a positive integer'']"
    by (simp add: validateConfig_def globalErrors_def componentErrors_def nan_config_def
        emptyGlobalConfig_def emptyComponentContract_def Let_def)
  have g: "cfg_global nan_config = Some (emptyGlobalConfig\<lparr>gc_runs := Some (Fin 0)\<rparr>)"
    by (simp add: nan_config_def)
  have r: "gc_runs (emptyGlobalConfig\<lparr>gc_runs := Some (Fin 0)\<rparr>) = Some (Fin 0)"
    by simp
  have p: "\<not> (isInteger (Fin 0) \<and> jgt (Fin 0) (Fin 0))"
    by (simp add: jgt_def)
  have a: "ruleBroken nan_config ''global.runs must be a positive integer''"
    by (rule ruleBroken.runs [OF g r p])
  have c: "cfg_components nan_config =
      Some [(''X'', emptyComponentContract\<lparr>cc_maxRenderTime := Some NaN\<rparr>)]"
    by (simp add: nan_config_def)
  have t: "cc_maxRenderTime (emptyComponentContract\<lparr>cc_maxRenderTime := Some NaN\<rparr>) = Some NaN"
    by simp
  have n: "\<not> jgt NaN (Fin 0)"
    by (simp add: jgt_def)
  have b: "ruleBroken nan_config (''X'' @ ''.maxRenderTime must be positive'')"
    using ruleBroken.maxRenderTime [OF c _ t n, of "''X''"] by simp
  have b': "ruleBroken nan_config ''X.maxRenderTime must be positive''"
    using b by simp
  have x: "''X.maxRenderTime must be positive'' \<notin> set (validateConfig nan_config)"
    unfolding v by simp
  have i: "validateConfig
     (nan_config\<lparr>cfg_components :=
        Some [(''X'', emptyComponentContract\<lparr>cc_maxRenderCount := Some NaN\<rparr>)]\<rparr>) =
     [''global.runs must be a positive integer'', ''X.maxRenderCount must be a positive integer'']"
    by (simp add: validateConfig_def globalErrors_def componentErrors_def nan_config_def
        emptyGlobalConfig_def emptyComponentContract_def Let_def)
  show ?thesis
    by (intro conjI v a b' x i)
qed

subsection \<open>Resolution\<close>

lemma component_defaults:
  "(cc_maxRenderTime contract = None \<longrightarrow> maxRenderTime (resolveComponentContract contract) = PInf) \<and>
   (cc_maxRenderCount contract = None \<longrightarrow> maxRenderCount (resolveComponentContract contract) = PInf) \<and>
   (cc_maxMemoryDelta contract = None \<longrightarrow> maxMemoryDelta (resolveComponentContract contract) = PInf) \<and>
   (cc_warningThreshold contract = None \<longrightarrow>
      warningThreshold (resolveComponentContract contract) = Fin 0.8) \<and>
   (cc_interactions contract = None \<longrightarrow> interactions (resolveComponentContract contract) = []) \<and>
   (cc_meta contract = None \<longrightarrow> meta (resolveComponentContract contract) = [])"
  by (simp add: resolveComponentContract_def nullish_def
      DEFAULT_COMPONENT_CONTRACT_warningThreshold_def)

lemma global_defaults:
  "(omitted g gc_runs \<longrightarrow> rg_runs (resolveGlobalConfig g) = Fin 10) \<and>
   (omitted g gc_warmupRuns \<longrightarrow> rg_warmupRuns (resolveGlobalConfig g) = Fin 1) \<and>
   (omitted g gc_historyWindow \<longrightarrow> rg_historyWindow (resolveGlobalConfig g) = Fin 20) \<and>
   (omitted g gc_regressionThreshold \<longrightarrow>
      rg_regressionThreshold (resolveGlobalConfig g) = Fin 0.15) \<and>
   (omitted g gc_outputDir \<longrightarrow> rg_outputDir (resolveGlobalConfig g) = ''.perf-contracts'') \<and>
   (omitted g gc_diagnostics \<longrightarrow> dg_enabled (rg_diagnostics (resolveGlobalConfig g)))"
  by (cases g)
     (simp_all add: resolveGlobalConfig_def nullish_def DEFAULT_GLOBAL_CONFIG_def chain_def
        omitted_def)

lemma fold_update_distinct:
  assumes "distinct (map fst xs)" and "fst ` set acc \<inter> fst ` set xs = {}"
  shows "fold (\<lambda>(name, c) m. AList.update name (f c) m) xs acc =
         acc @ map (\<lambda>(name, c). (name, f c)) xs"
  using assms
proof (induction xs arbitrary: acc)
  case Nil
  show ?case by simp
next
  case (Cons x xs)
  obtain n c where x: "x = (n, c)" by (cases x)
  have n: "n \<notin> fst ` set acc" and d: "distinct (map fst xs)"
    and dis: "fst ` set (acc @ [(n, f c)]) \<inter> fst ` set xs = {}"
    using Cons.prems x by auto
  show ?case
    using Cons.IH [OF d dis] by (simp add: x update_fresh [OF n])
qed

lemma resolved_components:
  assumes "cfg_components config = Some entries" and "distinct (map fst entries)"
  shows "rc_components (resolveConfig config) =
         map (\<lambda>(name, contract). (name, resolveComponentContract contract)) entries"
  using fold_update_distinct [OF assms(2), of "[]" resolveComponentContract]
  by (simp add: resolveConfig_def assms(1) Let_def)

lemma resolve_component_idem:
  "resolveComponentContract (asComponentContract (resolveComponentContract contract)) =
   resolveComponentContract contract"
  by (simp add: resolveComponentContract_def asComponentContract_def nullish_def)

lemma resolve_global_idem:
  "resolveGlobalConfig (Some (asGlobalConfig (resolveGlobalConfig g))) = resolveGlobalConfig g"
  by (simp add: resolveGlobalConfig_def asGlobalConfig_def nullish_def chain_def
      DEFAULT_GLOBAL_CONFIG_def split: option.splits)

text \<open>
  Claim C7. Resolving a sparse configuration gives every omitted component field its
  default (\<open>maxRenderTime\<close>, \<open>maxRenderCount\<close>, \<open>maxMemoryDelta\<close>: \<open>+Infinity\<close>;
  \<open>warningThreshold\<close>: 0.8; \<open>interactions\<close>, \<open>meta\<close>: empty) and every omitted global field
  its default (\<open>runs\<close> 10, \<open>warmupRuns\<close> 1, \<open>historyWindow\<close> 20, \<open>regressionThreshold\<close> 0.15,
  \<open>outputDir\<close> \<open>.perf-contracts\<close>, diagnostics enabled); the resolved configuration holds
  the resolved global settings and, per component name, the resolved contract. Resolving
  the same input twice gives equal outputs, and resolving a resolved contract or resolved
  global settings again changes nothing.
\<close>

theorem resolve_defaults:
  "((cc_maxRenderTime contract = None \<longrightarrow>
       maxRenderTime (resolveComponentContract contract) = PInf) \<and>
    (cc_maxRenderCount contract = None \<longrightarrow>
       maxRenderCount (resolveComponentContract contract) = PInf) \<and>
    (cc_maxMemoryDelta contract = None \<longrightarrow>
       maxMemoryDelta (resolveComponentContract contract) = PInf) \<and>
    (cc_warningThreshold contract = None \<longrightarrow>
       warningThreshold (resolveComponentContract contract) = Fin 0.8) \<and>
    (cc_interactions contract = None \<longrightarrow> interactions (resolveComponentContract contract) = []) \<and>
    (cc_meta contract = None \<longrightarrow> meta (resolveComponentContract contract) = [])) \<and>
   ((omitted g gc_runs \<longrightarrow> rg_runs (resolveGlobalConfig g) = Fin 10) \<and>
    (omitted g gc_warmupRuns \<longrightarrow> rg_warmupRuns (resolveGlobalConfig g) = Fin 1) \<and>
    (omitted g gc_historyWindow \<longrightarrow> rg_historyWindow (resolveGlobalConfig g) = Fin 20) \<and>
    (omitted g gc_regressionThreshold \<longrightarrow>
       rg_regressionThreshold (resolveGlobalConfig g) = Fin 0.15) \<and>
    (omitted g gc_outputDir \<longrightarrow> rg_outputDir (resolveGlobalConfig g) = ''.perf-contracts'') \<and>
    (omitted g gc_diagnostics \<longrightarrow> dg_enabled (rg_diagnostics (resolveGlobalConfig g)))) \<and>
   (rc_global (resolveConfig config) = resolveGlobalConfig (cfg_global config) \<and>
    (cfg_components config = None \<longrightarrow> rc_components (resolveConfig config) = []) \<and>
    (cfg_components config = Some entries \<and> distinct (map fst entries) \<longrightarrow>
       rc_components (resolveConfig config) =
         map (\<lambda>(name, c). (name, resolveComponentContract c)) entries)) \<and>
   ((config' = config \<longrightarrow> resolveConfig config' = resolveConfig config) \<and>
    resolveComponentContract (asComponentContract (resolveComponentContract contract)) =
      resolveComponentContract contract \<and>
    resolveGlobalConfig (Some (asGlobalConfig (resolveGlobalConfig g))) = resolveGlobalConfig g)"
proof -
  have c: "rc_global (resolveConfig config) = resolveGlobalConfig (cfg_global config) \<and>
    (cfg_components config = None \<longrightarrow> rc_components (resolveConfig config) = []) \<and>
    (cfg_components config = Some entries \<and> distinct (map fst entries) \<longrightarrow>
       rc_components (resolveConfig config) =
         map (\<lambda>(name, c). (name, resolveComponentContract c)) entries)"
    using resolved_components [of config entries]
    by (simp add: resolveConfig_def Let_def)
  show ?thesis
    by (intro conjI component_defaults global_defaults c resolve_component_idem
        resolve_global_idem) simp
qed

lemma sparse_config_fields:
  "cfg_components sparse_config = Some [(''UserCard'', sparse_contract)]"
  "cfg_global sparse_config = Some sparse_global"
  by (simp_all add: sparse_config_def)

theorem resolve_defaults_witness:
  "cc_maxRenderCount sparse_contract = None \<and>
   maxRenderCount (resolveComponentContract sparse_contract) = PInf \<and>
   cc_warningThreshold sparse_contract = None \<and>
   warningThreshold (resolveComponentContract sparse_contract) = Fin 0.8 \<and>
   omitted (Some sparse_global) gc_warmupRuns \<and>
   rg_warmupRuns (resolveGlobalConfig (Some sparse_global)) = Fin 1 \<and>
   omitted (Some sparse_global) gc_diagnostics \<and>
   dg_enabled (rg_diagnostics (resolveGlobalConfig (Some sparse_global))) \<and>
   distinct (map fst [(''UserCard'', sparse_contract)]) \<and>
   rc_components (resolveConfig sparse_config) =
     [(''UserCard'', resolveComponentContract sparse_contract)]"
proof -
  have a: "cc_maxRenderCount sparse_contract = None" "cc_warningThreshold sparse_contract = None"
    by (simp_all add: sparse_contract_def emptyComponentContract_def)
  have b: "omitted (Some sparse_global) gc_warmupRuns" "omitted (Some sparse_global) gc_diagnostics"
    by (simp_all add: omitted_def sparse_global_def emptyGlobalConfig_def)
  show ?thesis
    using a b resolve_defaults [of sparse_contract "Some sparse_global" sparse_config
        "[(''UserCard'', sparse_contract)]" sparse_config]
    by (simp add: sparse_config_fields)
qed

section \<open>Properties of the run aggregator\<close>

subsection \<open>Rounding to a double\<close>

lemma roundHalfEven_int [simp]: "roundHalfEven (of_int n) = n"
  by (simp add: roundHalfEven_def)

lemma quantum_ge: "- 1074 \<le> quantum x"
  by (simp add: quantum_def)

lemma quantum_grid:
  assumes "- 1074 \<le> q" and "\<bar>n\<bar> < 2 ^ 53"
  shows "quantum (of_int n * 2 powi q) \<le> q"
proof (cases "n = 0")
  case True
  then show ?thesis using assms(1) by (simp add: quantum_def)
next
  case False
  define k where "k = nat (q + 1074)"
  have q: "q = int k - 1074" using assms(1) by (simp add: k_def)
  have "\<bar>of_int n * 2 powi q\<bar> * 2 ^ 1074 = (of_int \<bar>n\<bar> * 2 powi q * 2 powi 1074 :: real)"
    by (simp add: abs_mult)
  also have "\<dots> = of_int \<bar>n\<bar> * 2 powi (q + 1074)"
    by (simp add: power_int_add)
  also have "\<dots> = of_int (\<bar>n\<bar> * 2 ^ k)"
    by (simp add: q power_int_def)
  finally have f: "\<lfloor>\<bar>of_int n * 2 powi q :: real\<bar> * 2 ^ 1074\<rfloor> = \<bar>n\<bar> * 2 ^ k"
    by (simp only: floor_of_int)
  have b: "bitlen \<bar>n\<bar> \<le> 53"
    using assms(2) by (simp add: bitlen_le_iff_power)
  have "bitlen (\<bar>n\<bar> * 2 ^ k) = bitlen \<bar>n\<bar> + int k"
    using False by simp
  then show ?thesis
    unfolding quantum_def f using b assms(1) by (simp add: q)
qed

lemma roundDouble_grid:
  assumes "- 1074 \<le> q" and "\<bar>n\<bar> < 2 ^ 53" and "\<bar>of_int n * 2 powi q\<bar> < (2::real) ^ 1024"
  shows "roundDouble (of_int n * 2 powi q) = Fin (of_int n * 2 powi q)"
proof -
  let ?x = "of_int n * 2 powi q :: real"
  define Q where "Q = quantum ?x"
  have Q: "Q \<le> q" unfolding Q_def by (rule quantum_grid [OF assms(1,2)])
  define k where "k = nat (q - Q)"
  have q: "q = Q + int k" using Q by (simp add: k_def)
  have "?x / 2 powi Q = of_int n * (2 powi q / 2 powi Q)"
    by simp
  also have "\<dots> = of_int n * 2 powi (q - Q)"
    by (simp add: power_int_diff)
  also have "\<dots> = of_int (n * 2 ^ k)"
    by (simp add: q power_int_def)
  finally have d: "?x / 2 powi Q = of_int (n * 2 ^ k)" .
  have "of_int (roundHalfEven (?x / 2 powi Q)) * 2 powi Q = (of_int (n * 2 ^ k) * 2 powi Q :: real)"
    unfolding d roundHalfEven_int by (rule refl)
  also have "\<dots> = of_int n * (2 powi int k * 2 powi Q)"
    by (simp add: power_int_def)
  also have "\<dots> = ?x"
    by (simp add: q power_int_add)
  finally have y: "of_int (roundHalfEven (?x / 2 powi Q)) * 2 powi Q = ?x" .
  show ?thesis
    unfolding roundDouble_def Let_def Q_def [symmetric] y using assms(3) by simp
qed

lemma roundDouble_nat:
  assumes "n < 2 ^ 53"
  shows "roundDouble (real n) = Fin (real n)"
proof -
  have a: "\<bar>int n\<bar> < 2 ^ 53" using assms by (simp flip: of_nat_less_iff)
  have "real n < 2 ^ 53" using assms by (simp flip: of_nat_less_iff)
  also have "\<dots> < (2::real) ^ 1024" by (rule power_strict_increasing) simp_all
  finally have b: "\<bar>of_int (int n) * 2 powi 0\<bar> < (2::real) ^ 1024" by simp
  show ?thesis
    using roundDouble_grid [of 0 "int n", OF _ a b] by simp
qed

lemma roundHalfEven_cases:
  "roundHalfEven z = \<lfloor>z\<rfloor> \<or> (roundHalfEven z = \<lfloor>z\<rfloor> + 1 \<and> of_int \<lfloor>z\<rfloor> + 1 / 2 \<le> z)"
  by (auto simp: roundHalfEven_def Let_def)

lemma roundHalfEven_bound:
  assumes "\<bar>z\<bar> \<le> of_int N"
  shows "\<bar>roundHalfEven z\<bar> \<le> N"
proof -
  have u: "z \<le> of_int N" and l: "- of_int N \<le> z" using assms by linarith+
  have lo: "- N \<le> \<lfloor>z\<rfloor>" using l by (simp add: le_floor_iff)
  have hi: "\<lfloor>z\<rfloor> \<le> N" using u by (simp add: floor_le_iff)
  show ?thesis
    using roundHalfEven_cases [of z]
  proof
    assume "roundHalfEven z = \<lfloor>z\<rfloor>"
    then show ?thesis using lo hi by linarith
  next
    assume a: "roundHalfEven z = \<lfloor>z\<rfloor> + 1 \<and> of_int \<lfloor>z\<rfloor> + 1 / 2 \<le> z"
    then have "of_int \<lfloor>z\<rfloor> < (of_int N :: real)" using u by linarith
    then have "\<lfloor>z\<rfloor> < N" by simp
    then show ?thesis using a lo by linarith
  qed
qed

lemma quantum_bound: "\<bar>x\<bar> < 2 powi (quantum x + 53)"
proof -
  define F where "F = \<lfloor>\<bar>x\<bar> * 2 ^ 1074\<rfloor>"
  define B where "B = bitlen F"
  have F0: "0 \<le> F" by (simp add: F_def)
  have B0: "0 \<le> B" unfolding B_def by (rule bitlen_nonneg)
  have "F < 2 ^ nat B"
  proof (cases "F = 0")
    case True
    then show ?thesis by simp
  next
    case False
    then have "0 < F" using F0 by linarith
    then show ?thesis unfolding B_def using bitlen_bounds by blast
  qed
  then have "F + 1 \<le> 2 ^ nat B" by linarith
  then have "(of_int (F + 1) :: real) \<le> of_int (2 ^ nat B)" by (simp only: of_int_le_iff)
  moreover have "\<bar>x\<bar> * 2 ^ 1074 < of_int (F + 1)"
    unfolding F_def by linarith
  ultimately have "\<bar>x\<bar> * 2 ^ 1074 < 2 ^ nat B" by simp
  also have "\<dots> = 2 powi B" using B0 by (simp add: power_int_def)
  also have "\<dots> \<le> 2 powi (quantum x + 1127)"
    by (rule power_int_increasing) (simp_all add: quantum_def B_def F_def)
  finally have lt: "\<bar>x\<bar> * 2 ^ 1074 < 2 powi (quantum x + 1127)" .
  have s: "quantum x + 1127 = (quantum x + 53) + 1074" by simp
  have e: "(2::real) powi (quantum x + 1127) = 2 powi (quantum x + 53) * 2 powi 1074"
    unfolding s by (rule power_int_add) simp
  have p: "(2::real) ^ 1074 = 2 powi 1074" by simp
  from lt have "\<bar>x\<bar> * 2 powi 1074 < 2 powi (quantum x + 53) * 2 powi 1074"
    unfolding p e .
  then show ?thesis
    by (simp only: mult_less_cancel_right_pos zero_less_power_int zero_less_numeral)
qed

lemma roundDouble_idem:
  assumes "roundDouble x = Fin y"
  shows "roundDouble y = Fin y"
proof -
  define Q where "Q = quantum x"
  define m where "m = roundHalfEven (x / 2 powi Q)"
  have y: "y = of_int m * 2 powi Q" and fin: "\<bar>of_int m * 2 powi Q\<bar> < (2::real) ^ 1024"
    using assms unfolding roundDouble_def Let_def Q_def [symmetric] m_def [symmetric]
    by (simp_all split: if_splits)
  have Q: "- 1074 \<le> Q" unfolding Q_def by (rule quantum_ge)
  have "\<bar>x\<bar> < 2 powi (Q + 53)" unfolding Q_def by (rule quantum_bound)
  also have "\<dots> = 2 ^ 53 * 2 powi Q" by (simp add: power_int_add)
  finally have "\<bar>x\<bar> / 2 powi Q < 2 ^ 53" by (simp add: pos_divide_less_eq)
  then have "\<bar>x / 2 powi Q\<bar> \<le> of_int (2 ^ 53)" by simp
  then have m: "\<bar>m\<bar> \<le> 2 ^ 53" unfolding m_def by (rule roundHalfEven_bound)
  show ?thesis
  proof (cases "\<bar>m\<bar> < 2 ^ 53")
    case True
    show ?thesis unfolding y by (rule roundDouble_grid [OF Q True fin])
  next
    case False
    then have e: "\<bar>m\<bar> = 2 ^ 53" using m by linarith
    define s :: int where "s = (if 0 \<le> m then 1 else - 1)"
    have ms: "m = s * 2 ^ 52 * 2" using e by (auto simp: s_def)
    have "(of_int m :: real) * 2 powi Q = of_int (s * 2 ^ 52) * (2 powi 1 * 2 powi Q)"
      by (simp add: ms)
    also have "\<dots> = of_int (s * 2 ^ 52) * 2 powi (Q + 1)"
      by (simp add: power_int_add)
    finally have r: "(of_int m :: real) * 2 powi Q = of_int (s * 2 ^ 52) * 2 powi (Q + 1)" .
    have a: "- 1074 \<le> Q + 1" using Q by simp
    have b: "\<bar>s * 2 ^ 52\<bar> < 2 ^ 53" by (simp add: s_def)
    show ?thesis
      unfolding y r using a b fin [unfolded r] by (rule roundDouble_grid)
  qed
qed

subsection \<open>Operations on doubles\<close>

lemma dround_nat: "n < 2 ^ 53 \<Longrightarrow> dround (Fin (real n)) = Fin (real n)"
  by (simp add: dround_def roundDouble_nat)

lemma dround_idem: "dround (dround x) = dround x"
proof (cases x)
  case (Fin a)
  then show ?thesis
    using roundDouble_idem [of a] by (cases "roundDouble a") (simp_all add: dround_def)
qed (simp_all add: dround_def)

lemma isDouble_dround: "isDouble (dround x)"
  by (simp add: isDouble_def dround_idem)

lemma isDouble_zero: "isDouble (Fin 0)"
  using dround_nat [of 0] by (simp add: isDouble_def)

lemma dadd_nat:
  assumes "a + b < 2 ^ 53"
  shows "dadd (Fin (real a)) (Fin (real b)) = Fin (real (a + b))"
  using dround_nat [OF assms] by (simp add: dadd_def)

lemma dsub_nat:
  assumes "b \<le> a" and "a < 2 ^ 53"
  shows "dsub (Fin (real a)) (Fin (real b)) = Fin (real (a - b))"
proof -
  have "a - b < 2 ^ 53" using assms by simp
  then show ?thesis
    using dround_nat [of "a - b"] assms(1) by (simp add: dsub_def jsub_def of_nat_diff)
qed

lemma ddiv_nat:
  assumes "0 < R" and "k < 2 ^ 53"
  shows "ddiv (Fin (real (R * k))) (Fin (real R)) = Fin (real k)"
  using dround_nat [OF assms(2)] assms(1) by (simp add: ddiv_def)

lemma jadd_zero: "jadd (Fin 0) x = x"
  by (cases x) simp_all

lemma jdiv_one: "jdiv x (Fin 1) = x"
  by (cases x) simp_all

lemma js_round_nat: "js_round (Fin (real k)) = Fin (real k)"
proof -
  have "\<lfloor>real k + 1 / 2\<rfloor> = int k" by linarith
  then show ?thesis by simp
qed

subsection \<open>Sums and means of copies\<close>

lemma sum_nat_copies:
  assumes "f x = Fin (real k)" and "a + n * k < 2 ^ 53"
  shows "fold (\<lambda>r sum. dadd sum (f r)) (replicate n x) (Fin (real a)) = Fin (real (a + n * k))"
  using assms(2)
proof (induction n arbitrary: a)
  case 0
  show ?case by simp
next
  case (Suc n)
  have b: "a + k < 2 ^ 53" using Suc.prems by simp
  have c: "(a + k) + n * k < 2 ^ 53" using Suc.prems by (simp add: algebra_simps)
  have "fold (\<lambda>r sum. dadd sum (f r)) (replicate (Suc n) x) (Fin (real a)) =
        fold (\<lambda>r sum. dadd sum (f r)) (replicate n x) (dadd (Fin (real a)) (f x))"
    by (simp only: replicate_Suc fold_Cons comp_apply)
  also have "\<dots> = fold (\<lambda>r sum. dadd sum (f r)) (replicate n x) (Fin (real (a + k)))"
    unfolding assms(1) dadd_nat [OF b] by (rule refl)
  also have "\<dots> = Fin (real ((a + k) + n * k))"
    by (rule Suc.IH [OF c])
  finally show ?case by (simp add: algebra_simps)
qed

lemma mean_nat_copies:
  assumes "0 < R" and "f x = Fin (real k)" and "R * k < 2 ^ 53"
  shows "ddiv (sumBy f (replicate R x)) (Fin (real R)) = Fin (real k)"
proof -
  have "k \<le> R * k" using assms(1) by simp
  then have k: "k < 2 ^ 53" using assms(3) by linarith
  have "fold (\<lambda>r sum. dadd sum (f r)) (replicate R x) (Fin (real 0)) = Fin (real (0 + R * k))"
    by (rule sum_nat_copies [where f = f and x = x, OF assms(2)]) (use assms(3) in simp)
  then have "sumBy f (replicate R x) = Fin (real (R * k))"
    by (simp add: sumBy_def)
  then show ?thesis
    using ddiv_nat [OF assms(1) k] by simp
qed

lemma sumBy_map: "sumBy f xs = sumBy (\<lambda>v. v) (map f xs)"
  by (simp add: sumBy_def fold_map comp_def)

lemma mean_copies: "ddiv (sumBy f (replicate R x)) (Fin (real R)) = meanOfCopies R (f x)"
  unfolding meanOfCopies_def sumBy_map [of f] by simp

lemma meanOfCopies_one:
  assumes "isDouble x"
  shows "meanOfCopies (Suc 0) x = x"
  using assms
  by (simp add: meanOfCopies_def sumBy_def dadd_def ddiv_def jadd_zero jdiv_one isDouble_def)

subsection \<open>What a measured run satisfies\<close>

lemma renders_onRender: "rm_renders (onRenderCallback ev m) = rm_renders m @ [ev]"
  by (simp add: onRenderCallback_def Let_def)

lemma renders_fold: "rm_renders (fold onRenderCallback evs m) = rm_renders m @ evs"
  by (induction evs arbitrary: m) (simp_all add: renders_onRender)

lemma componentName_onRender: "rm_componentName (onRenderCallback ev m) = rm_componentName m"
  by (simp add: onRenderCallback_def Let_def)

lemma componentName_fold: "rm_componentName (fold onRenderCallback evs m) = rm_componentName m"
  by (induction evs arbitrary: m) (simp_all add: componentName_onRender)

lemma derivedAverage_positive: "ddiv t (Fin (real (Suc k))) = derivedAverage t (Fin (real (Suc k)))"
  by (simp add: derivedAverage_def jgt_def)

lemma consistentMetrics_createProfiler: "consistentMetrics (createProfiler name)"
  by (simp add: consistentMetrics_def createProfiler_def isDouble_zero derivedAverage_def jgt_def)

lemma consistentMetrics_onRender:
  assumes "consistentMetrics m" and "Suc (length (rm_renders m)) < 2 ^ 53"
  shows "consistentMetrics (onRenderCallback ev m)"
proof -
  define k where "k = length (rm_renders m)"
  have k: "rm_renderCount m = Fin (real k)"
    using assms(1) by (simp add: consistentMetrics_def k_def)
  have "dadd (Fin (real k)) (Fin (real 1)) = Fin (real (k + 1))"
    by (rule dadd_nat) (use assms(2) in \<open>simp add: k_def\<close>)
  then have s: "dadd (Fin (real k)) (Fin 1) = Fin (real (Suc k))"
    by simp
  have c: "rm_renderCount (onRenderCallback ev m) = Fin (real (Suc k))"
    unfolding onRenderCallback_def Let_def by (simp add: k s del: of_nat_Suc)
  have a: "rm_averageRenderTime (onRenderCallback ev m) =
           ddiv (rm_totalActualDuration (onRenderCallback ev m)) (Fin (real (Suc k)))"
    unfolding onRenderCallback_def Let_def by (simp add: k s del: of_nat_Suc)
  have d: "isDouble (rm_totalActualDuration (onRenderCallback ev m))"
    "isDouble (rm_totalBaseDuration (onRenderCallback ev m))"
    by (simp_all add: onRenderCallback_def Let_def dadd_def isDouble_dround)
  have l: "length (rm_renders (onRenderCallback ev m)) = Suc k"
    by (simp add: renders_onRender k_def)
  show ?thesis
    unfolding consistentMetrics_def a c l derivedAverage_positive
    using d by simp
qed

lemma consistentMetrics_fold:
  assumes "consistentMetrics m" and "length (rm_renders m) + length evs < 2 ^ 53"
  shows "consistentMetrics (fold onRenderCallback evs m)"
  using assms
proof (induction evs arbitrary: m)
  case Nil
  then show ?case by simp
next
  case (Cons ev evs)
  have s: "Suc (length (rm_renders m)) < 2 ^ 53" using Cons.prems(2) by simp
  have c: "consistentMetrics (onRenderCallback ev m)"
    by (rule consistentMetrics_onRender [OF Cons.prems(1) s])
  have b: "length (rm_renders (onRenderCallback ev m)) + length evs < 2 ^ 53"
    using Cons.prems(2) by (simp add: renders_onRender)
  show ?case
    using Cons.IH [OF c b] by simp
qed

lemma consistentInteraction_mono:
  assumes "consistentInteraction K ir" and "K \<le> K'"
  shows "consistentInteraction K' ir"
  using assms unfolding consistentInteraction_def by (meson le_trans)

lemma performInteraction_renders:
  assumes "performInteraction x out m = Inr (res, m')"
  shows "\<exists>evs. rm_renders m' = rm_renders m @ evs"
proof (cases out)
  case NoElement
  with assms show ?thesis by (simp add: performInteraction_def)
next
  case (Commits evs)
  then have "m' = fold onRenderCallback evs m"
    using assms by (simp add: performInteraction_def Let_def)
  then show ?thesis by (simp add: renders_fold)
qed

lemma performAll_renders:
  assumes "performAll out i xs m acc = Inr (irs, m')"
  shows "length (rm_renders m) \<le> length (rm_renders m')"
  using assms
proof (induction xs arbitrary: i m acc)
  case Nil
  then show ?case by simp
next
  case (Cons x xs)
  from Cons.prems obtain res after where
    p: "performInteraction x (out i) m = Inr (res, after)" and
    r: "performAll out (Suc i) xs after (acc @ [res]) = Inr (irs, m')"
    by (auto split: sum.splits)
  have "length (rm_renders m) \<le> length (rm_renders after)"
    using performInteraction_renders [OF p] by auto
  then show ?case using Cons.IH [OF r] by linarith
qed

lemma performInteraction_consistent:
  assumes "performInteraction x out m = Inr (res, m')" and "consistentMetrics m"
    and "length (rm_renders m') < 2 ^ 53"
  shows "consistentInteraction (length (rm_renders m')) res \<and> consistentMetrics m' \<and>
         rm_componentName m' = rm_componentName m"
proof (cases out)
  case NoElement
  with assms(1) show ?thesis by (simp add: performInteraction_def)
next
  case (Commits evs)
  define j where "j = length (rm_renders m)"
  define k where "k = length (rm_renders m')"
  have m': "m' = fold onRenderCallback evs m"
    using assms(1) Commits by (simp add: performInteraction_def Let_def)
  have jk: "j \<le> k" and k: "k < 2 ^ 53" and b: "length (rm_renders m) + length evs < 2 ^ 53"
    using assms(3) by (simp_all add: j_def k_def m' renders_fold)
  have cm: "consistentMetrics m'"
    unfolding m' by (rule consistentMetrics_fold [OF assms(2) b])
  have cj: "rm_renderCount m = Fin (real j)"
    using assms(2) by (simp add: consistentMetrics_def j_def)
  have ck: "rm_renderCount m' = Fin (real k)"
    using cm by (simp add: consistentMetrics_def k_def)
  have t: "dsub (rm_renderCount m') (rm_renderCount m) = Fin (real (k - j))"
    unfolding cj ck by (rule dsub_nat [OF jk k])
  have res: "ir_rendersTriggered res = Fin (real (k - j))"
    "ir_averageRenderTime res = derivedAverage (ir_totalRenderTime res) (ir_rendersTriggered res)"
    "isDouble (ir_totalRenderTime res)"
    using assms(1) Commits t [unfolded m']
    by (auto simp: performInteraction_def Let_def derivedAverage_def dsub_def isDouble_dround)
  have e: "\<exists>i \<le> k. ir_rendersTriggered res = Fin (real i)"
    unfolding res(1) by (rule exI [of _ "k - j"]) simp
  show ?thesis
    unfolding consistentInteraction_def k_def [symmetric]
    using e res(2,3) cm by (simp add: m' componentName_fold)
qed

lemma performAll_consistent:
  assumes "performAll out i xs m acc = Inr (irs, m')"
    and "consistentMetrics m"
    and "list_all (consistentInteraction (length (rm_renders m))) acc"
    and "length (rm_renders m') < 2 ^ 53"
  shows "list_all (consistentInteraction (length (rm_renders m'))) irs \<and> consistentMetrics m' \<and>
         rm_componentName m' = rm_componentName m \<and> length irs = length acc + length xs"
  using assms
proof (induction xs arbitrary: i m acc)
  case Nil
  then show ?case by simp
next
  case (Cons x xs)
  from Cons.prems(1) obtain res after where
    p: "performInteraction x (out i) m = Inr (res, after)" and
    r: "performAll out (Suc i) xs after (acc @ [res]) = Inr (irs, m')"
    by (auto split: sum.splits)
  have l1: "length (rm_renders m) \<le> length (rm_renders after)"
    using performInteraction_renders [OF p] by auto
  have l2: "length (rm_renders after) \<le> length (rm_renders m')"
    by (rule performAll_renders [OF r])
  have b: "length (rm_renders after) < 2 ^ 53"
    using l2 Cons.prems(4) by linarith
  note c = performInteraction_consistent [OF p Cons.prems(2) b]
  have "list_all (consistentInteraction (length (rm_renders after))) acc"
    using Cons.prems(3) l1 by (auto simp: list_all_iff intro: consistentInteraction_mono)
  then have a: "list_all (consistentInteraction (length (rm_renders after))) (acc @ [res])"
    using c by simp
  show ?case
    using Cons.IH [OF r _ a Cons.prems(4)] c by simp
qed

lemma measureRun_consistent:
  assumes "measureRun name specs contract env = Inr r"
    and "length (rm_renders (mi_metrics r)) < 2 ^ 53"
  shows "consistentRun r"
proof -
  let ?mounted = "fold onRenderCallback (mountCommits env) (createProfiler name)"
  from assms(1) obtain irs snapshot where
    p: "performAll (outcomeOf env) 0 specs ?mounted [] = Inr (irs, snapshot)"
    by (auto simp: measureRun_def Let_def split: sum.splits)
  have r: "r = \<lparr>mi_componentName = name,
                 mi_metrics = snapshot,
                 mi_interactionResults = irs,
                 mi_totalRenders = sumBy ir_rendersTriggered irs,
                 mi_rendersPerInteraction =
                   (if length specs > 0
                    then ddiv (sumBy ir_rendersTriggered irs) (Fin (real (length specs)))
                    else Fin 0),
                 mi_rendersByType = groupRendersByType irs,
                 mi_timestamp = clock env,
                 mi_contractValidation =
                   (case contract of
                      None \<Rightarrow> None
                    | Some c \<Rightarrow> if c \<noteq> []
                                then Some \<lparr>cv_passed = True, cv_contract = c\<rparr>
                                else None)\<rparr>"
    using assms(1) p by (simp add: measureRun_def Let_def)
  have s: "length (rm_renders snapshot) < 2 ^ 53"
    using assms(2) by (simp add: r)
  have "length (rm_renders ?mounted) \<le> length (rm_renders snapshot)"
    by (rule performAll_renders [OF p])
  then have "length (rm_renders (createProfiler name)) + length (mountCommits env) < 2 ^ 53"
    using s by (simp add: renders_fold)
  then have cm: "consistentMetrics ?mounted"
    by (rule consistentMetrics_fold [OF consistentMetrics_createProfiler])
  have nm: "rm_componentName ?mounted = name"
    by (simp add: componentName_fold createProfiler_def)
  note c = performAll_consistent [OF p cm _ s, simplified]
  show ?thesis
    unfolding consistentRun_def r using c nm by simp
qed

subsection \<open>The aggregate of copies of a run\<close>

lemma collect_Inr: "collect (map (\<lambda>i. Inr (g i)) xs) = Inr (map g xs)"
  by (induction xs) simp_all

lemma list_case_replicate:
  "0 < R \<Longrightarrow> (case replicate R r of [] \<Rightarrow> a | x # xs \<Rightarrow> f x) = f r"
  by (cases R) simp_all

lemma aggregateInteraction_copies:
  assumes "0 < R" and "i < length (mi_interactionResults r)"
    and "consistentInteraction K (mi_interactionResults r ! i)" and "R * K < 2 ^ 53"
  shows "aggregateInteraction (replicate R r) r i =
         Inr (interactionOfCopies R (mi_interactionResults r ! i))"
proof -
  let ?ir = "mi_interactionResults r ! i"
  obtain j where j: "j \<le> K" "ir_rendersTriggered ?ir = Fin (real j)"
    using assms(3) by (auto simp: consistentInteraction_def)
  have "R * j \<le> R * K" using j(1) by simp
  then have b: "R * j < 2 ^ 53" using assms(4) by linarith
  have l: "\<not> list_ex (\<lambda>x. length (mi_interactionResults x) \<le> i) (replicate R r)"
    using assms(2) by (simp add: list_ex_iff)
  have d: "map (\<lambda>x. mi_interactionResults x ! i) (replicate R r) = replicate R ?ir"
    by simp
  have n: "length (replicate R r) = R" by simp
  have a: "ddiv (sumBy ir_rendersTriggered (replicate R ?ir)) (Fin (real R)) = Fin (real j)"
    by (rule mean_nat_copies [where f = ir_rendersTriggered and x = ?ir, OF assms(1) j(2) b])
  have t: "ddiv (sumBy ir_totalRenderTime (replicate R ?ir)) (Fin (real R)) =
           meanOfCopies R (ir_totalRenderTime ?ir)"
    by (rule mean_copies)
  show ?thesis
    unfolding aggregateInteraction_def Let_def d n a t js_round_nat
    using l by (simp add: interactionOfCopies_def derivedAverage_def j(2))
qed

lemma aggregated_interactions_copies:
  assumes "0 < R" and "list_all (consistentInteraction K) (mi_interactionResults r)"
    and "R * K < 2 ^ 53"
  shows "collect (map (aggregateInteraction (replicate R r) r)
                    [0 ..< length (mi_interactionResults r)]) =
         Inr (map (interactionOfCopies R) (mi_interactionResults r))"
proof -
  have eq: "map (aggregateInteraction (replicate R r) r) [0 ..< length (mi_interactionResults r)] =
        map (\<lambda>i. Inr (interactionOfCopies R (mi_interactionResults r ! i)))
          [0 ..< length (mi_interactionResults r)]"
    using assms
    by (intro map_cong refl aggregateInteraction_copies [where K = K]) (simp_all add: list_all_length)
  have "map (\<lambda>i. interactionOfCopies R (mi_interactionResults r ! i))
          [0 ..< length (mi_interactionResults r)] =
        map (interactionOfCopies R) (mi_interactionResults r)"
    by (rule nth_equalityI) simp_all
  then show ?thesis
    unfolding eq collect_Inr by simp
qed

lemma sumBy_rendersTriggered_copies:
  "sumBy ir_rendersTriggered (map (interactionOfCopies R) irs) = sumBy ir_rendersTriggered irs"
  by (simp add: sumBy_def fold_map comp_def interactionOfCopies_def)

lemma groupRendersByType_copies:
  "groupRendersByType (map (interactionOfCopies R) irs) = groupRendersByType irs"
  by (simp add: groupRendersByType_def fold_map comp_def interactionOfCopies_def Let_def)

lemma aggregate_copies:
  assumes "0 < R" and "consistentRun r" and "R * length (rm_renders (mi_metrics r)) < 2 ^ 53"
  shows "aggregateResults now (replicate R r) = Inr (aggregateOfCopies now R r)"
proof -
  note c = assms(2) [unfolded consistentRun_def]
  define k where "k = length (rm_renders (mi_metrics r))"
  have k: "rm_renderCount (mi_metrics r) = Fin (real k)"
    using c by (simp add: consistentMetrics_def k_def)
  have n: "length (replicate R r) = R" by simp
  have m1: "ddiv (sumBy (\<lambda>r. rm_renderCount (mi_metrics r)) (replicate R r)) (Fin (real R)) =
            Fin (real k)"
    by (rule mean_nat_copies [where f = "\<lambda>r. rm_renderCount (mi_metrics r)" and x = r, OF assms(1) k])
       (use assms(3) in \<open>simp add: k_def\<close>)
  have m2: "ddiv (sumBy (\<lambda>r. rm_totalActualDuration (mi_metrics r)) (replicate R r)) (Fin (real R)) =
            meanOfCopies R (rm_totalActualDuration (mi_metrics r))"
    by (rule mean_copies)
  have m3: "ddiv (sumBy (\<lambda>r. rm_totalBaseDuration (mi_metrics r)) (replicate R r)) (Fin (real R)) =
            meanOfCopies R (rm_totalBaseDuration (mi_metrics r))"
    by (rule mean_copies)
  have ia: "collect (map (aggregateInteraction (replicate R r) r)
                    [0 ..< length (mi_interactionResults r)]) =
            Inr (map (interactionOfCopies R) (mi_interactionResults r))"
    using c assms(3) by (intro aggregated_interactions_copies [OF assms(1)]) simp_all
  have "aggregateResults now (replicate R r) =
     Inr \<lparr>mi_componentName = mi_componentName r,
          mi_metrics =
            \<lparr>rm_componentName = mi_componentName r,
             rm_renderCount = Fin (real k),
             rm_totalActualDuration = meanOfCopies R (rm_totalActualDuration (mi_metrics r)),
             rm_totalBaseDuration = meanOfCopies R (rm_totalBaseDuration (mi_metrics r)),
             rm_averageRenderTime =
               derivedAverage (meanOfCopies R (rm_totalActualDuration (mi_metrics r))) (Fin (real k)),
             rm_renders = concat (map (\<lambda>r. rm_renders (mi_metrics r)) (replicate R r))\<rparr>,
          mi_interactionResults = map (interactionOfCopies R) (mi_interactionResults r),
          mi_totalRenders = sumBy ir_rendersTriggered (mi_interactionResults r),
          mi_rendersPerInteraction =
            (if length (mi_interactionResults r) > 0
             then ddiv (sumBy ir_rendersTriggered (mi_interactionResults r))
                    (Fin (real (length (mi_interactionResults r))))
             else Fin 0),
          mi_rendersByType = groupRendersByType (mi_interactionResults r),
          mi_timestamp = now,
          mi_contractValidation = mi_contractValidation r\<rparr>"
    unfolding aggregateResults_def Let_def list_case_replicate [OF assms(1)] n m1 m2 m3 ia
      derivedAverage_def js_round_nat
    by (simp add: sumBy_rendersTriggered_copies groupRendersByType_copies)
  also have "\<dots> = Inr (aggregateOfCopies now R r)"
    using c by (simp add: aggregateOfCopies_def k)
  finally show ?thesis .
qed

lemma interactionOfCopies_one:
  assumes "consistentInteraction K ir"
  shows "interactionOfCopies 1 ir = ir"
  using assms by (simp add: interactionOfCopies_def consistentInteraction_def meanOfCopies_one)

lemma aggregateOfCopies_one:
  assumes "consistentRun r"
  shows "aggregateOfCopies now 1 r = r\<lparr>mi_timestamp := now\<rparr>"
proof -
  note c = assms [unfolded consistentRun_def consistentMetrics_def]
  have i: "map (interactionOfCopies 1) (mi_interactionResults r) = mi_interactionResults r"
    using c by (intro map_idI interactionOfCopies_one) (auto simp: list_all_iff)
  show ?thesis
    unfolding aggregateOfCopies_def i using c by (simp add: meanOfCopies_one)
qed

subsection \<open>Rounding a given number\<close>

lemma powi2_add: "(2::real) powi (a + b) = 2 powi a * 2 powi b"
  by (rule power_int_add) simp

lemma powi2_nat: "(2::real) powi int n = of_int (2 ^ n)"
  by simp

lemma quantum_eq:
  assumes "2 powi e \<le> \<bar>x\<bar>" and "\<bar>x\<bar> < 2 powi (e + 1)" and "- 1022 \<le> e"
  shows "quantum x = e - 52"
proof -
  define F where "F = \<lfloor>\<bar>x\<bar> * 2 ^ 1074\<rfloor>"
  define k where "k = nat (e + 1074)"
  have e: "e = int k - 1074" using assms(3) by (simp add: k_def)
  have p: "(2::real) ^ 1074 = 2 powi 1074" by simp
  have s1: "int k = e + 1074" and s2: "int (Suc k) = (e + 1) + 1074"
    by (simp_all add: e)
  have "(2::real) powi (int k) = 2 powi e * 2 powi 1074"
    unfolding s1 by (rule powi2_add)
  also have "\<dots> \<le> \<bar>x\<bar> * 2 powi 1074"
    using assms(1) by (simp only: mult_le_cancel_right_pos zero_less_power_int zero_less_numeral)
  finally have "(2::real) powi (int k) \<le> \<bar>x\<bar> * 2 powi 1074" .
  then have "of_int (2 ^ k) \<le> \<bar>x\<bar> * 2 ^ 1074"
    by (simp only: powi2_nat p [symmetric])
  then have lo: "2 ^ k \<le> F"
    unfolding F_def by (simp only: le_floor_iff)
  have "\<bar>x\<bar> * 2 powi 1074 < 2 powi (e + 1) * 2 powi 1074"
    using assms(2) by (simp only: mult_less_cancel_right_pos zero_less_power_int zero_less_numeral)
  also have "\<dots> = 2 powi (int (Suc k))"
    unfolding s2 by (rule powi2_add [symmetric])
  finally have "\<bar>x\<bar> * 2 powi 1074 < 2 powi (int (Suc k))" .
  then have "\<bar>x\<bar> * 2 ^ 1074 < of_int (2 ^ Suc k)"
    by (simp only: powi2_nat p [symmetric])
  then have hi: "F < 2 ^ Suc k"
    unfolding F_def by (simp only: floor_less_iff)
  have "bitlen F \<le> int (Suc k)"
    unfolding bitlen_le_iff_power nat_int using hi by simp
  moreover have "int (Suc k) \<le> bitlen F"
    unfolding bitlen_ge_iff_power nat_int using lo by simp
  ultimately have "bitlen F = int k + 1" by simp
  then show ?thesis
    unfolding quantum_def F_def [symmetric] using assms(3) by (simp add: e)
qed

lemma roundDouble_eval:
  assumes "2 powi e \<le> \<bar>x\<bar>" and "\<bar>x\<bar> < 2 powi (e + 1)" and "- 1022 \<le> e" and "e < 1023"
    and "roundHalfEven (x / 2 powi (e - 52)) = m"
  shows "roundDouble x = Fin (of_int m * 2 powi (e - 52))"
proof -
  have q: "quantum x = e - 52" by (rule quantum_eq [OF assms(1,2,3)])
  have s: "quantum x + 53 = 53 + (e - 52)" and s': "e + 1 = 53 + (e - 52)"
    by (simp_all add: q)
  have t: "(2::real) powi (53 + (e - 52)) = 2 ^ 53 * 2 powi (e - 52)"
    unfolding powi2_add by simp
  have "\<bar>x\<bar> < 2 powi (quantum x + 53)" by (rule quantum_bound)
  also have "\<dots> = 2 ^ 53 * 2 powi (e - 52)" unfolding s by (rule t)
  finally have "\<bar>x\<bar> / 2 powi (e - 52) < 2 ^ 53" by (simp add: pos_divide_less_eq)
  then have "\<bar>x / 2 powi (e - 52)\<bar> \<le> of_int (2 ^ 53)" by simp
  then have "\<bar>roundHalfEven (x / 2 powi (e - 52))\<bar> \<le> 2 ^ 53" by (rule roundHalfEven_bound)
  then have "\<bar>m\<bar> \<le> 2 ^ 53" unfolding assms(5) .
  then have "\<bar>of_int m :: real\<bar> \<le> of_int (2 ^ 53)" by (simp only: of_int_abs [symmetric] of_int_le_iff)
  then have "\<bar>of_int m :: real\<bar> * 2 powi (e - 52) \<le> 2 ^ 53 * 2 powi (e - 52)"
    by (simp add: mult_le_cancel_right_pos)
  also have "\<dots> = 2 powi (e + 1)"
    unfolding s' by (rule t [symmetric])
  also have "\<dots> \<le> 2 powi 1023"
    by (rule power_int_increasing) (use assms(4) in simp_all)
  also have "\<dots> < (2::real) powi 1024"
    by (rule power_int_strict_increasing) simp_all
  finally have "\<bar>of_int m * 2 powi (e - 52)\<bar> < (2::real) ^ 1024"
    by (simp add: abs_mult)
  then show ?thesis
    unfolding roundDouble_def Let_def q assms(5) by simp
qed

lemma roundDouble_numeral:
  "numeral n < (2::nat) ^ 53 \<Longrightarrow> roundDouble (numeral n) = Fin (numeral n)"
  using roundDouble_nat [of "numeral n"] by simp

lemma roundDouble_0: "roundDouble 0 = Fin 0"
  using roundDouble_nat [of 0] by simp

lemma roundDouble_1: "roundDouble 1 = Fin 1"
  using roundDouble_nat [of 1] by simp

lemma round_tenth: "roundDouble tenth = Fin tenth"
  using roundDouble_eval [of "- 4" tenth 7205759403792794]
  by (simp add: tenth_def roundHalfEven_def)

lemma round_two_tenths: "roundDouble (tenth + tenth) = Fin (2 * tenth)"
  using roundDouble_eval [of "- 3" "tenth + tenth" 7205759403792794]
  by (simp add: tenth_def roundHalfEven_def)

lemma round_three_tenths: "roundDouble (2 * tenth + tenth) = Fin (5404319552844596 / 2 ^ 54)"
  using roundDouble_eval [of "- 2" "2 * tenth + tenth" 5404319552844596]
  by (simp add: tenth_def roundHalfEven_def)

lemma round_mean_tenths:
  "roundDouble (5404319552844596 / 2 ^ 54 / 3) = Fin (7205759403792795 / 2 ^ 56)"
  using roundDouble_eval [of "- 4" "5404319552844596 / 2 ^ 54 / 3" 7205759403792795]
  by (simp add: roundHalfEven_def)

lemma round_literal_tenth: "roundDouble (1 / 10) = Fin tenth"
  using roundDouble_eval [of "- 4" "1 / 10" 7205759403792794]
  by (simp add: tenth_def roundHalfEven_def)

subsection \<open>The two runs\<close>

lemma meanOfCopies_nat:
  assumes "0 < R" and "R * k < 2 ^ 53"
  shows "meanOfCopies R (Fin (real k)) = Fin (real k)"
  unfolding meanOfCopies_def
  by (rule mean_nat_copies [where f = "\<lambda>v. v" and x = "Fin (real k)", OF assms(1) refl assms(2)])

lemma click_mounted:
  "onRenderCallback (commit 2) (createProfiler ''Card'') =
     \<lparr>rm_componentName = ''Card'', rm_renderCount = Fin 1, rm_totalActualDuration = Fin 2,
      rm_totalBaseDuration = Fin 2, rm_averageRenderTime = Fin 2, rm_renders = [commit 2]\<rparr>"
  by (simp add: createProfiler_def onRenderCallback_def commit_def dadd_def ddiv_def dround_def
      Let_def roundDouble_0 roundDouble_1 roundDouble_numeral)

lemma click_performed:
  "performInteraction \<lparr>is_type = Click, is_target = ''button'', is_text = None\<rparr>
     (Commits [commit 1, commit 3])
     \<lparr>rm_componentName = ''Card'', rm_renderCount = Fin 1, rm_totalActualDuration = Fin 2,
      rm_totalBaseDuration = Fin 2, rm_averageRenderTime = Fin 2, rm_renders = [commit 2]\<rparr> =
   Inr (\<lparr>ir_interaction = \<lparr>is_type = Click, is_target = ''button'', is_text = None\<rparr>,
         ir_rendersTriggered = Fin 2, ir_totalRenderTime = Fin 4, ir_averageRenderTime = Fin 2\<rparr>,
        \<lparr>rm_componentName = ''Card'', rm_renderCount = Fin 3, rm_totalActualDuration = Fin 6,
         rm_totalBaseDuration = Fin 6, rm_averageRenderTime = Fin 2,
         rm_renders = [commit 2, commit 1, commit 3]\<rparr>)"
  by (simp add: performInteraction_def onRenderCallback_def commit_def dadd_def dsub_def jsub_def
      jgt_def ddiv_def dround_def Let_def roundDouble_0 roundDouble_1 roundDouble_numeral)

lemma click_run_measured: "measureRun ''Card'' click_script None click_env = Inr click_run"
  by (simp add: measureRun_def click_script_def click_env_def click_run_def click_mounted
      click_performed sumBy_def groupRendersByType_def js_or_def dadd_def ddiv_def dround_def
      Let_def roundDouble_0 roundDouble_1 roundDouble_numeral)

lemma click_run_means:
  "meanOfCopies 3 (Fin 6) = Fin 6" "meanOfCopies 3 (Fin 4) = Fin 4"
  "derivedAverage (Fin 6) (Fin 3) = Fin 2" "derivedAverage (Fin 4) (Fin 2) = Fin 2"
  using meanOfCopies_nat [of 3 6] meanOfCopies_nat [of 3 4]
  by (simp_all add: derivedAverage_def jgt_def ddiv_def dround_def roundDouble_numeral)

lemma tenth_run_measured: "measureRun ''Card'' [] None tenth_env = Inr tenth_run"
  by (simp add: measureRun_def tenth_env_def tenth_run_def createProfiler_def
      onRenderCallback_def commit_def sumBy_def groupRendersByType_def
      dadd_def ddiv_def dround_def Let_def roundDouble_0 roundDouble_1 round_tenth)

lemma mean_three_tenths: "meanOfCopies 3 (Fin tenth) = Fin (7205759403792795 / 2 ^ 56)"
proof -
  have s1: "dadd (Fin 0) (Fin tenth) = Fin tenth"
    by (simp add: dadd_def dround_def round_tenth)
  have s2: "dadd (Fin tenth) (Fin tenth) = Fin (2 * tenth)"
    unfolding dadd_def jadd.simps dround_def jsnum.case by (rule round_two_tenths)
  have s3: "dadd (Fin (2 * tenth)) (Fin tenth) = Fin (5404319552844596 / 2 ^ 54)"
    unfolding dadd_def jadd.simps dround_def jsnum.case by (rule round_three_tenths)
  have "jdiv (Fin (5404319552844596 / 2 ^ 54)) (Fin (real 3)) = Fin (5404319552844596 / 2 ^ 54 / 3)"
    by simp
  then have s4: "ddiv (Fin (5404319552844596 / 2 ^ 54)) (Fin (real 3)) = Fin (7205759403792795 / 2 ^ 56)"
    unfolding ddiv_def by (simp only: dround_def jsnum.case round_mean_tenths)
  have "sumBy (\<lambda>v. v) (replicate 3 (Fin tenth)) =
        dadd (dadd (dadd (Fin 0) (Fin tenth)) (Fin tenth)) (Fin tenth)"
    by (simp add: sumBy_def numeral_3_eq_3)
  then show ?thesis
    unfolding meanOfCopies_def by (simp only: s1 s2 s3 s4)
qed

lemma mean_of_mean_tenths:
  "derivedAverage (Fin (7205759403792795 / 2 ^ 56)) (Fin 1) = Fin (7205759403792795 / 2 ^ 56)"
proof -
  have "roundDouble (7205759403792795 / 2 ^ 56) = Fin (7205759403792795 / 2 ^ 56)"
    by (rule roundDouble_idem [OF round_mean_tenths])
  then show ?thesis
    by (simp add: derivedAverage_def jgt_def ddiv_def dround_def)
qed

subsection \<open>A single run\<close>

lemma runLoop_once:
  "runLoop name specs contract (Fin 1) envs 0 [] =
     (case measureRun name specs contract (envs 0) of
        Inl e \<Rightarrow> Some (Inl e)
      | Inr r \<Rightarrow> Some (Inr [r]))"
proof (cases "measureRun name specs contract (envs 0)")
  case (Inl e)
  then show ?thesis
    by (subst runLoop.simps) simp
next
  case (Inr r)
  have "runLoop name specs contract (Fin 1) envs (Suc 0) ([] @ [r]) = Some (Inr [r])"
    by (subst runLoop.simps) simp
  then show ?thesis
    using Inr by (subst runLoop.simps) simp
qed

lemma measureInteraction_once:
  assumes "optRuns = None \<or> optRuns = Some (Fin 1)"
  shows "measureInteraction name specs contract optRuns envs now =
         Some (measureRun name specs contract (envs 0))"
proof -
  have n: "nullish optRuns (Fin 1) = Fin 1"
    using assms by (auto simp: nullish_def)
  show ?thesis
    unfolding measureInteraction_def Let_def n runLoop_once
    by (cases "measureRun name specs contract (envs 0)") simp_all
qed

text \<open>
  Claim C8. When the requested run count is 1 (given, or by default), \<open>measureInteraction\<close>
  returns the result of the sole run unchanged, with no aggregation. For every \<open>R \<ge> 1\<close>,
  aggregating \<open>R\<close> copies of a measured run (with fewer than \<open>2 ^ 53 / R\<close> render events)
  gives that run again with the same counts: \<open>renderCount\<close>, each interaction's
  \<open>rendersTriggered\<close>, \<open>rendersByType\<close>, \<open>totalRenders\<close> and \<open>rendersPerInteraction\<close> are those
  of the run. The times are means computed on doubles: \<open>totalActualDuration\<close>,
  \<open>totalBaseDuration\<close> and each interaction's \<open>totalRenderTime\<close> are the rounded sum of \<open>R\<close>
  copies of the run's value over \<open>R\<close>, rounded, and each \<open>averageRenderTime\<close> is that mean over
  the count. Aggregating the run alone gives all values of the run, times too.
\<close>

theorem aggregation_laws:
  "(optRuns = None \<or> optRuns = Some (Fin 1) \<longrightarrow>
      measureInteraction name specs contract optRuns envs now =
        Some (measureRun name specs contract (envs 0))) \<and>
   (0 < R \<and> measureRun name specs contract env = Inr r \<and>
    R * length (rm_renders (mi_metrics r)) < 2 ^ 53 \<longrightarrow>
      aggregateResults now (replicate R r) =
        Inr (r\<lparr>mi_timestamp := now,
               mi_metrics :=
                 (mi_metrics r)
                   \<lparr>rm_renders := concat (replicate R (rm_renders (mi_metrics r))),
                    rm_totalActualDuration :=
                      meanOfCopies R (rm_totalActualDuration (mi_metrics r)),
                    rm_totalBaseDuration :=
                      meanOfCopies R (rm_totalBaseDuration (mi_metrics r)),
                    rm_averageRenderTime :=
                      derivedAverage (meanOfCopies R (rm_totalActualDuration (mi_metrics r)))
                        (rm_renderCount (mi_metrics r))\<rparr>,
               mi_interactionResults :=
                 map (\<lambda>ir. ir\<lparr>ir_totalRenderTime := meanOfCopies R (ir_totalRenderTime ir),
                               ir_averageRenderTime :=
                                 derivedAverage (meanOfCopies R (ir_totalRenderTime ir))
                                   (ir_rendersTriggered ir)\<rparr>)
                   (mi_interactionResults r)\<rparr>)) \<and>
   (measureRun name specs contract env = Inr r \<and>
    length (rm_renders (mi_metrics r)) < 2 ^ 53 \<longrightarrow>
      aggregateResults now [r] = Inr (r\<lparr>mi_timestamp := now\<rparr>))"
proof -
  have a: "aggregateResults now (replicate R r) = Inr (aggregateOfCopies now R r)"
    if "0 < R" and "measureRun name specs contract env = Inr r"
      and "R * length (rm_renders (mi_metrics r)) < 2 ^ 53"
  proof -
    have "length (rm_renders (mi_metrics r)) \<le> R * length (rm_renders (mi_metrics r))"
      using that(1) by simp
    then have "length (rm_renders (mi_metrics r)) < 2 ^ 53"
      using that(3) by linarith
    then have "consistentRun r"
      by (rule measureRun_consistent [OF that(2)])
    then show ?thesis
      using that(1,3) by (intro aggregate_copies)
  qed
  have b: "aggregateResults now [r] = Inr (r\<lparr>mi_timestamp := now\<rparr>)"
    if "measureRun name specs contract env = Inr r"
      and "length (rm_renders (mi_metrics r)) < 2 ^ 53"
  proof -
    have c: "consistentRun r"
      by (rule measureRun_consistent [OF that])
    have "aggregateResults now (replicate (Suc 0) r) = Inr (aggregateOfCopies now (Suc 0) r)"
      using c that(2) by (intro aggregate_copies) simp_all
    then show ?thesis
      using aggregateOfCopies_one [OF c, of now] by simp
  qed
  have f: "interactionOfCopies R =
           (\<lambda>ir. ir\<lparr>ir_totalRenderTime := meanOfCopies R (ir_totalRenderTime ir),
                     ir_averageRenderTime :=
                       derivedAverage (meanOfCopies R (ir_totalRenderTime ir))
                         (ir_rendersTriggered ir)\<rparr>)"
    by (simp add: fun_eq_iff interactionOfCopies_def)
  show ?thesis
    using a b measureInteraction_once [of optRuns name specs contract envs now]
    unfolding aggregateOfCopies_def f by blast
qed

theorem aggregation_laws_witness:
  "(0::nat) < 3 \<and>
   measureRun ''Card'' click_script None click_env = Inr click_run \<and>
   3 * length (rm_renders (mi_metrics click_run)) < (2::nat) ^ 53 \<and>
   measureInteraction ''Card'' click_script None (Some (Fin 1)) (\<lambda>run. click_env) (Fin 500) =
     Some (Inr click_run) \<and>
   aggregateResults (Fin 500) (replicate 3 click_run) =
     Inr (click_run\<lparr>mi_timestamp := Fin 500,
            mi_metrics := (mi_metrics click_run)\<lparr>rm_renders :=
              [commit 2, commit 1, commit 3, commit 2, commit 1, commit 3,
               commit 2, commit 1, commit 3]\<rparr>\<rparr>) \<and>
   aggregateResults (Fin 500) [click_run] = Inr (click_run\<lparr>mi_timestamp := Fin 500\<rparr>)"
proof -
  have p: "(0::nat) < 3" by simp
  have l: "3 * length (rm_renders (mi_metrics click_run)) < (2::nat) ^ 53"
    "length (rm_renders (mi_metrics click_run)) < (2::nat) ^ 53"
    by (simp_all add: click_run_def)
  have r: "concat (replicate 3 (rm_renders (mi_metrics click_run))) =
      [commit 2, commit 1, commit 3, commit 2, commit 1, commit 3,
       commit 2, commit 1, commit 3]"
    by (simp add: click_run_def numeral_3_eq_3)
  have v: "rm_totalActualDuration (mi_metrics click_run) = Fin 6"
    "rm_totalBaseDuration (mi_metrics click_run) = Fin 6"
    "rm_renderCount (mi_metrics click_run) = Fin 3"
    "rm_averageRenderTime (mi_metrics click_run) = Fin 2"
    "mi_interactionResults click_run =
       [\<lparr>ir_interaction = \<lparr>is_type = Click, is_target = ''button'', is_text = None\<rparr>,
         ir_rendersTriggered = Fin 2, ir_totalRenderTime = Fin 4, ir_averageRenderTime = Fin 2\<rparr>]"
    by (simp_all add: click_run_def)
  show ?thesis
    using p l click_run_measured
      aggregation_laws [of "Some (Fin 1)" "''Card''" click_script None "\<lambda>run. click_env" "Fin 500"
        3 click_env click_run]
    by (simp only: r v click_run_means list.map) (simp add: click_run_def click_run_means)
qed

text \<open>
  Three runs whose one commit takes 0.1 ms: the sum of the three durations is
  0.30000000000000004 and the mean is 0.10000000000000002, the double after the
  duration of each run. The aggregate does not have the \<open>totalActualDuration\<close>,
  \<open>totalBaseDuration\<close> and \<open>averageRenderTime\<close> of the runs.
\<close>

theorem aggregation_laws_counterexample:
  "measureRun ''Card'' [] None tenth_env = Inr tenth_run \<and>
   roundDouble (1 / 10) = Fin tenth \<and>
   rm_totalActualDuration (mi_metrics tenth_run) = Fin (3602879701896397 / 2 ^ 55) \<and>
   aggregateResults (Fin 500) (replicate 3 tenth_run) =
     Inr (tenth_run\<lparr>mi_timestamp := Fin 500,
            mi_metrics := (mi_metrics tenth_run)
              \<lparr>rm_renders := [commit tenth, commit tenth, commit tenth],
               rm_totalActualDuration := Fin (7205759403792795 / 2 ^ 56),
               rm_totalBaseDuration := Fin (7205759403792795 / 2 ^ 56),
               rm_averageRenderTime := Fin (7205759403792795 / 2 ^ 56)\<rparr>\<rparr>) \<and>
   aggregateResults (Fin 500) (replicate 3 tenth_run) \<noteq>
     Inr (tenth_run\<lparr>mi_timestamp := Fin 500,
            mi_metrics := (mi_metrics tenth_run)
              \<lparr>rm_renders := [commit tenth, commit tenth, commit tenth]\<rparr>\<rparr>)"
proof -
  have l: "length (rm_renders (mi_metrics tenth_run)) < 2 ^ 53"
    "3 * length (rm_renders (mi_metrics tenth_run)) < 2 ^ 53"
    by (simp_all add: tenth_run_def)
  have c: "consistentRun tenth_run"
    by (rule measureRun_consistent [OF tenth_run_measured l(1)])
  have v: "rm_totalActualDuration (mi_metrics tenth_run) = Fin tenth"
    "rm_totalBaseDuration (mi_metrics tenth_run) = Fin tenth"
    "rm_renderCount (mi_metrics tenth_run) = Fin 1"
    "mi_interactionResults tenth_run = []"
    "concat (replicate 3 (rm_renders (mi_metrics tenth_run))) =
       [commit tenth, commit tenth, commit tenth]"
    by (simp_all add: tenth_run_def numeral_3_eq_3)
  have "aggregateResults (Fin 500) (replicate 3 tenth_run) =
        Inr (aggregateOfCopies (Fin 500) 3 tenth_run)"
    using c l(2) by (intro aggregate_copies) simp_all
  then have a: "aggregateResults (Fin 500) (replicate 3 tenth_run) =
     Inr (tenth_run\<lparr>mi_timestamp := Fin 500,
            mi_metrics := (mi_metrics tenth_run)
              \<lparr>rm_renders := [commit tenth, commit tenth, commit tenth],
               rm_totalActualDuration := Fin (7205759403792795 / 2 ^ 56),
               rm_totalBaseDuration := Fin (7205759403792795 / 2 ^ 56),
               rm_averageRenderTime := Fin (7205759403792795 / 2 ^ 56)\<rparr>\<rparr>)"
    unfolding aggregateOfCopies_def v mean_three_tenths mean_of_mean_tenths
    by (simp add: tenth_run_def)
  have t: "rm_totalActualDuration (mi_metrics tenth_run) = Fin (3602879701896397 / 2 ^ 55)"
    by (simp add: tenth_run_def tenth_def)
  have n: "aggregateResults (Fin 500) (replicate 3 tenth_run) \<noteq>
     Inr (tenth_run\<lparr>mi_timestamp := Fin 500,
            mi_metrics := (mi_metrics tenth_run)
              \<lparr>rm_renders := [commit tenth, commit tenth, commit tenth]\<rparr>\<rparr>)"
    unfolding a by (simp add: tenth_run_def tenth_def)
  show ?thesis
    by (intro conjI tenth_run_measured round_literal_tenth t a n)
qed

end
